(* ===== verification/Gateway_Prelude.thy ===== *)
theory Gateway_Prelude
  imports Main "HOL-Library.AList" "HOL-Library.Word" "HOL-Library.Multiset"
begin

text \<open>
  Shared vocabulary of the development.  It holds the Go values every component uses (strings as
  byte lists, clock readings, \<open>error\<close> values with their wrapping chain, JSON values), the string
  functions of Go's standard library the sources call, SQL's treatment of nulls, the reading of a
  64-bit \<open>int\<close>, and the generic lemmas on lists, association lists and tables that the component
  theories build on.
\<close>

named_theorems gw_defs \<open>definitions of operations, unfolded together\<close>
named_theorems table_simps \<open>rewriting of table look-ups after an insert, update or delete\<close>

section \<open>Values\<close>

text \<open>
  A Go string is a byte sequence, here a \<open>char list\<close>.  A \<open>time.Time\<close> or \<open>time.Duration\<close> is an
  integer number of nanoseconds.
\<close>

type_synonym time = int

abbreviation millisecond :: time where "millisecond \<equiv> 1000000"
abbreviation second :: time where "second \<equiv> 1000000000"
abbreviation minute :: time where "minute \<equiv> 60000000000"

text \<open>
  JSON values, as \<open>map[string]any\<close> payloads, \<open>jsonb\<close> columns and response bodies hold them.  A
  time value is kept as a time; it is rendered by the encoder.
\<close>

datatype json = JNull | JBool bool | JInt int | JStr string | JTime time
  | JArr "json list" | JObj "(string \<times> json) list"

fun jfield :: "string \<Rightarrow> json \<Rightarrow> json option" where
  "jfield k (JObj kvs) = map_of kvs k"
| "jfield k _ = None"

section \<open>Errors\<close>

text \<open>
  The sentinel errors of the sources (\<open>errors.New\<close> values compared by \<open>errors.Is\<close>).
  \<open>ServerReturned t\<close> is whatsmeow's \<open>ErrServerReturnedError\<close>, whose text \<open>t\<close> that library fixes.
\<close>

datatype sentinel = NotFound | Unauthorized | NoRows | ReachoutTimelock | ServerReturned string

text \<open>
  \<open>Errorf t w\<close> is an error of text \<open>t\<close> that wraps \<open>w\<close> (\<open>fmt.Errorf\<close> with a \<open>%w\<close> verb, or
  without one when \<open>w = None\<close>).  \<open>PgError\<close> is a PostgreSQL error as the pgx driver reports it,
  \<open>PqError\<close> one as the lib/pq driver does; both carry the SQLSTATE code and a message.
  \<open>Panicked\<close> is not returned but raised: the call panicked, which unwinds its callers up to the
  one that recovers.
\<close>

datatype err = Sentinel sentinel | Errorf string "err option"
  | PgError string string | PqError string string | Panicked string

fun panicked :: "err option \<Rightarrow> bool" where
  "panicked (Some (Panicked t)) \<longleftrightarrow> True"
| "panicked _ \<longleftrightarrow> False"

definition reachout_text :: string where
  "reachout_text = ''WhatsApp reach-out timelock (error 463): establish a conversation with the recipient first, then retry''"

fun sentinel_text :: "sentinel \<Rightarrow> string" where
  "sentinel_text NotFound = ''not found''"
| "sentinel_text Unauthorized = ''unauthorized''"
| "sentinel_text NoRows = ''sql: no rows in result set''"
| "sentinel_text ReachoutTimelock = reachout_text"
| "sentinel_text (ServerReturned t) = t"

fun err_text :: "err \<Rightarrow> string" where
  "err_text (Sentinel s) = sentinel_text s"
| "err_text (Errorf t w) = t"
| "err_text (PgError c t) = t"
| "err_text (PqError c t) = t"
| "err_text (Panicked t) = t"

text \<open>\<open>errors.Is\<close>: some error of the wrapping chain is the given sentinel.\<close>

fun errors_is :: "err \<Rightarrow> (sentinel \<Rightarrow> bool) \<Rightarrow> bool" where
  "errors_is (Sentinel s) p = p s"
| "errors_is (Errorf t w) p = (case w of None \<Rightarrow> False | Some e \<Rightarrow> errors_is e p)"
| "errors_is (PgError c t) p = False"
| "errors_is (PqError c t) p = False"
| "errors_is (Panicked t) p = False"

abbreviation is_no_rows :: "err \<Rightarrow> bool" where
  "is_no_rows e \<equiv> errors_is e (\<lambda>s. s = NoRows)"

abbreviation is_unauthorized :: "err \<Rightarrow> bool" where
  "is_unauthorized e \<equiv> errors_is e (\<lambda>s. s = Unauthorized)"

text \<open>The SQLSTATE codes the schema's constraints raise.\<close>

definition unique_violation :: err where
  "unique_violation = PgError ''23505'' ''duplicate key value violates unique constraint''"
definition foreign_key_violation :: err where
  "foreign_key_violation = PgError ''23503'' ''violates foreign key constraint''"
definition not_null_violation :: err where
  "not_null_violation = PgError ''23502'' ''null value violates not-null constraint''"
definition invalid_text :: err where
  "invalid_text = PgError ''22P02'' ''invalid input syntax for type uuid''"
definition out_of_range :: err where
  "out_of_range = PgError ''22003'' ''integer out of range''"
definition string_too_long :: err where
  "string_too_long = PgError ''22001'' ''value too long for type character varying''"

lemmas pg_errors = unique_violation_def foreign_key_violation_def not_null_violation_def
  invalid_text_def out_of_range_def string_too_long_def

lemma pg_errors_not_no_rows [simp]:
  "\<not> is_no_rows unique_violation" "\<not> is_no_rows foreign_key_violation"
  "\<not> is_no_rows not_null_violation" "\<not> is_no_rows invalid_text"
  "\<not> is_no_rows out_of_range" "\<not> is_no_rows string_too_long"
  by (simp_all add: pg_errors)

section \<open>The environment of a call\<close>

text \<open>
  What the outside answers while one call of a method runs, in the place of its
  \<open>context.Context\<close> argument:
  \<^item> \<open>c_now\<close>: the reading of the clock (\<open>time.Now()\<close>, SQL's \<open>now()\<close>);
  \<^item> \<open>c_fault i\<close>: what the driver answers to the \<open>i\<close>-th request the call sends to the database or to
    the queue: \<open>Some e\<close> is a failure that leaves the other side unchanged;
  \<^item> \<open>c_gen\<close>: the value of the column default \<open>gen_random_uuid()\<close>;
  \<^item> \<open>c_order\<close>: the order in which Go iterates over a map with these keys;
  \<^item> \<open>c_uuid i\<close>: the \<open>i\<close>-th identifier the call draws (\<open>uuid.New()\<close>, \<open>rand.Read\<close>);
  \<^item> \<open>c_http i\<close>: what the HTTP client answers to the \<open>i\<close>-th request it sends;
  \<^item> \<open>c_wa i\<close>: what the \<open>i\<close>-th call of the whatsmeow client returns.
\<close>

text \<open>An HTTP answer: the code, the status line, the content type and the body or the error of reading it.\<close>

record http_answer =
  ha_code :: int
  ha_status :: string
  ha_type :: string
  ha_body :: "err + string"

record ctx =
  c_now :: time
  c_fault :: "nat \<Rightarrow> err option"
  c_gen :: string
  c_order :: "string list \<Rightarrow> string list"
  c_uuid :: "nat \<Rightarrow> string"
  c_http :: "nat \<Rightarrow> err + http_answer"
  c_wa :: "nat \<Rightarrow> err + string"

text \<open>Go iterates over every key of a map exactly once, in some order.\<close>

definition fair_order :: "ctx \<Rightarrow> bool" where
  "fair_order c \<longleftrightarrow> (\<forall>ks. mset (c_order c ks) = mset ks)"

definition no_fault :: "ctx \<Rightarrow> bool" where
  "no_fault c \<longleftrightarrow> (\<forall>i. c_fault c i = None)"

lemma no_faultD [simp]: "no_fault c \<Longrightarrow> c_fault c i = None"
  by (simp add: no_fault_def)

text \<open>A call in which nothing fails, for the concrete examples.\<close>

definition sample_ctx :: ctx where
  "sample_ctx = \<lparr>c_now = 1000 * second, c_fault = (\<lambda>_. None), c_gen = ''g1'', c_order = (\<lambda>ks. ks),
     c_uuid = (\<lambda>i. ''u'' @ replicate i (CHR ''x'')),
     c_http = (\<lambda>_. Inr \<lparr>ha_code = 200, ha_status = ''200 OK'', ha_type = [], ha_body = Inr []\<rparr>),
     c_wa = (\<lambda>_. Inr ''3EB0'')\<rparr>"

lemma sample_ctx_simps [simp]:
  "c_now sample_ctx = 1000 * second" "c_fault sample_ctx i = None" "c_gen sample_ctx = ''g1''"
  "c_order sample_ctx ks = ks" "c_uuid sample_ctx i = ''u'' @ replicate i (CHR ''x'')"
  "c_http sample_ctx i = Inr \<lparr>ha_code = 200, ha_status = ''200 OK'', ha_type = [], ha_body = Inr []\<rparr>"
  "c_wa sample_ctx i = Inr ''3EB0''"
  by (simp_all add: sample_ctx_def)

lemma sample_ctx_ok [simp]: "no_fault sample_ctx" "fair_order sample_ctx"
  by (simp_all add: no_fault_def fair_order_def)

text \<open>\<open>Dispatch(ctx, event, payload)\<close> of a \<open>Dispatcher\<close> interface, over the state \<open>'w\<close>.\<close>

type_synonym 'w dispatch = "ctx \<Rightarrow> string \<Rightarrow> json \<Rightarrow> 'w \<Rightarrow> err option \<times> 'w"

section \<open>Strings\<close>

definition has_prefix :: "string \<Rightarrow> string \<Rightarrow> bool" where
  "has_prefix s p \<longleftrightarrow> take (length p) s = p"

definition has_suffix :: "string \<Rightarrow> string \<Rightarrow> bool" where
  "has_suffix s p \<longleftrightarrow> has_prefix (rev s) (rev p)"

definition trim_prefix :: "string \<Rightarrow> string \<Rightarrow> string" where
  "trim_prefix s p = (if has_prefix s p then drop (length p) s else s)"

fun contains_sub :: "string \<Rightarrow> string \<Rightarrow> bool" where
  "contains_sub [] p \<longleftrightarrow> p = []"
| "contains_sub (c # s) p \<longleftrightarrow> has_prefix (c # s) p \<or> contains_sub s p"

text \<open>\<open>strings.ReplaceAll\<close> for a non-empty pattern, the only use the sources make of it.\<close>

function replace_all :: "string \<Rightarrow> string \<Rightarrow> string \<Rightarrow> string" where
  "replace_all [] old new = []"
| "replace_all (c # s) old new =
     (if old \<noteq> [] \<and> has_prefix (c # s) old
      then new @ replace_all (drop (length old) (c # s)) old new
      else c # replace_all s old new)"
  by pat_completeness auto
termination
  by (relation "measure (\<lambda>(s, old, new). length s)") auto

lemma has_prefix_Nil [simp]: "has_prefix s [] = True"
  by (simp add: has_prefix_def)

lemma has_prefix_append [simp]: "has_prefix (p @ s) p"
  by (simp add: has_prefix_def)

lemma has_prefix_iff: "has_prefix s p \<longleftrightarrow> (\<exists>t. s = p @ t)"
  by (metis append_take_drop_id has_prefix_append has_prefix_def)

lemma has_prefix_Cons [simp]: "has_prefix (c # s) (d # p) \<longleftrightarrow> c = d \<and> has_prefix s p"
  by (auto simp: has_prefix_def)

lemma has_prefix_Nil_iff [simp]: "has_prefix [] p \<longleftrightarrow> p = []"
  by (auto simp: has_prefix_def)

text \<open>
  The characters of the Unicode property White_Space, each as its UTF-8 byte sequence: what
  \<open>strings.TrimSpace\<close> removes at both ends.
\<close>

definition space_seqs :: "string list" where
  "space_seqs =
     [[CHR 0x09], [CHR 0x0A], [CHR 0x0B], [CHR 0x0C], [CHR 0x0D], [CHR 0x20],
      [CHR 0xC2, CHR 0x85], [CHR 0xC2, CHR 0xA0], [CHR 0xE1, CHR 0x9A, CHR 0x80],
      [CHR 0xE2, CHR 0x80, CHR 0x80], [CHR 0xE2, CHR 0x80, CHR 0x81],
      [CHR 0xE2, CHR 0x80, CHR 0x82], [CHR 0xE2, CHR 0x80, CHR 0x83],
      [CHR 0xE2, CHR 0x80, CHR 0x84], [CHR 0xE2, CHR 0x80, CHR 0x85],
      [CHR 0xE2, CHR 0x80, CHR 0x86], [CHR 0xE2, CHR 0x80, CHR 0x87],
      [CHR 0xE2, CHR 0x80, CHR 0x88], [CHR 0xE2, CHR 0x80, CHR 0x89],
      [CHR 0xE2, CHR 0x80, CHR 0x8A], [CHR 0xE2, CHR 0x80, CHR 0xA8],
      [CHR 0xE2, CHR 0x80, CHR 0xA9], [CHR 0xE2, CHR 0x80, CHR 0xAF],
      [CHR 0xE2, CHR 0x81, CHR 0x9F], [CHR 0xE3, CHR 0x80, CHR 0x80]]"

function strip_front :: "string list \<Rightarrow> string \<Rightarrow> string" where
  "strip_front ps s =
     (case find (\<lambda>p. p \<noteq> [] \<and> has_prefix s p) ps of
        None \<Rightarrow> s
      | Some p \<Rightarrow> strip_front ps (drop (length p) s))"
  by pat_completeness auto
termination
proof (relation "measure (\<lambda>(ps, s). length s)")
  fix ps :: "string list" and s p
  assume "find (\<lambda>p. p \<noteq> [] \<and> has_prefix s p) ps = Some p"
  then have "p \<noteq> []" "has_prefix s p" by (auto simp: find_Some_iff)
  then show "((ps, drop (length p) s), ps, s) \<in> measure (\<lambda>(ps, s). length s)"
    by (auto simp: has_prefix_iff)
qed simp

declare strip_front.simps [simp del]

definition trim_space :: "string \<Rightarrow> string" where
  "trim_space s = rev (strip_front (map rev space_seqs) (rev (strip_front space_seqs s)))"

text \<open>Stripping leaves a suffix of the string that starts with none of the sequences.\<close>

lemma strip_front_suffix: "\<exists>u. s = u @ strip_front ps s"
proof (induction ps s rule: strip_front.induct)
  case (1 ps s)
  show ?case
  proof (cases "find (\<lambda>p. p \<noteq> [] \<and> has_prefix s p) ps")
    case None
    then show ?thesis by (simp add: strip_front.simps [of ps s])
  next
    case (Some p)
    then obtain t where t: "s = p @ t" by (auto simp: find_Some_iff has_prefix_iff)
    with 1 [OF Some] obtain u where "t = u @ strip_front ps t" by auto
    with t Some have "s = (p @ u) @ strip_front ps s"
      by (simp add: strip_front.simps [of ps "p @ t"])
    then show ?thesis by blast
  qed
qed

lemma strip_front_fixed:
  "find (\<lambda>p. p \<noteq> [] \<and> has_prefix (strip_front ps s) p) ps = None"
proof (induction ps s rule: strip_front.induct)
  case (1 ps s)
  then show ?case
    by (cases "find (\<lambda>p. p \<noteq> [] \<and> has_prefix s p) ps") (simp_all add: strip_front.simps [of ps s])
qed

lemma strip_front_id:
  "find (\<lambda>p. p \<noteq> [] \<and> has_prefix s p) ps = None \<Longrightarrow> strip_front ps s = s"
  by (simp add: strip_front.simps)

lemma strip_front_idem [simp]: "strip_front ps (strip_front ps s) = strip_front ps s"
  by (rule strip_front_id) (rule strip_front_fixed)

lemma strip_front_prefix:
  assumes "strip_front ps (v @ w) = v @ w"
  shows "strip_front ps v = v"
proof (rule strip_front_id)
  have "find (\<lambda>p. p \<noteq> [] \<and> has_prefix (v @ w) p) ps = None"
    using strip_front_fixed [of ps "v @ w"] assms by simp
  then show "find (\<lambda>p. p \<noteq> [] \<and> has_prefix v p) ps = None"
    by (auto simp: find_None_iff has_prefix_iff)
qed

lemma trim_space_idem [simp]: "trim_space (trim_space s) = trim_space s"
proof -
  let ?f = "strip_front space_seqs s" and ?r = "map rev space_seqs"
  let ?b = "strip_front ?r (rev ?f)"
  obtain u where "rev ?f = u @ ?b" using strip_front_suffix by blast
  then have "?f = rev ?b @ rev u" by (metis rev_append rev_rev_ident)
  then have "strip_front space_seqs (rev ?b) = rev ?b"
    by (metis strip_front_idem strip_front_prefix)
  then show ?thesis by (simp add: trim_space_def)
qed

lemma trim_space_Nil [simp]: "trim_space [] = []"
  by (simp add: trim_space_def space_seqs_def strip_front.simps)

section \<open>Nulls\<close>

text \<open>SQL's \<open>COALESCE(x,'')\<close> and \<open>NULLIF(x,'')\<close>.\<close>

definition coalesce :: "string option \<Rightarrow> string" where
  "coalesce x = (case x of None \<Rightarrow> [] | Some v \<Rightarrow> v)"

definition nullif :: "string \<Rightarrow> string option" where
  "nullif s = (if s = [] then None else Some s)"

lemma coalesce_simps [simp]: "coalesce None = []" "coalesce (Some v) = v"
  by (simp_all add: coalesce_def)

lemma coalesce_nullif [simp]: "coalesce (nullif s) = s"
  by (simp add: nullif_def)

lemma nullif_Some [simp]: "nullif s = Some t \<longleftrightarrow> s = t \<and> t \<noteq> []"
  by (auto simp: nullif_def)

section \<open>Machine integers\<close>

text \<open>Go's \<open>int\<close> is 64 bits wide; \<open>wrap64\<close> is the value an arithmetic result is stored as.\<close>

definition wrap64 :: "int \<Rightarrow> int" where
  "wrap64 i = sint (word_of_int i :: 64 word)"

definition int4 :: "int \<Rightarrow> bool" where
  "int4 i \<longleftrightarrow> - (2 ^ 31) \<le> i \<and> i < 2 ^ 31"

definition int8 :: "int \<Rightarrow> bool" where
  "int8 i \<longleftrightarrow> - (2 ^ 63) \<le> i \<and> i < 2 ^ 63"

lemma wrap64_id: "int8 i \<Longrightarrow> wrap64 i = i"
  by (simp add: wrap64_def int8_def sint_sbintrunc' signed_take_bit_int_eq_self_iff)

lemma wrap64_range: "int8 (wrap64 i)"
  using sint_greater_eq [of "word_of_int i :: 64 word"] sint_less [of "word_of_int i :: 64 word"]
  by (simp add: wrap64_def int8_def)

section \<open>Tables\<close>

text \<open>
  A table is the list of its rows.  \<open>update_where\<close> is \<open>UPDATE ... WHERE\<close>, \<open>delete_where\<close> is
  \<open>DELETE ... WHERE\<close>; a single-row query takes the first row \<open>find\<close> meets.
\<close>

definition update_where :: "('r \<Rightarrow> bool) \<Rightarrow> ('r \<Rightarrow> 'r) \<Rightarrow> 'r list \<Rightarrow> 'r list" where
  "update_where p f rs = map (\<lambda>r. if p r then f r else r) rs"

definition delete_where :: "('r \<Rightarrow> bool) \<Rightarrow> 'r list \<Rightarrow> 'r list" where
  "delete_where p rs = filter (\<lambda>r. \<not> p r) rs"

lemma update_where_Nil [simp]: "update_where p f [] = []"
  by (simp add: update_where_def)

lemma update_where_Cons [simp]:
  "update_where p f (r # rs) = (if p r then f r else r) # update_where p f rs"
  by (simp add: update_where_def)

lemma set_update_where: "set (update_where p f rs) = (\<lambda>r. if p r then f r else r) ` set rs"
  by (simp add: update_where_def)

lemma length_update_where [simp]: "length (update_where p f rs) = length rs"
  by (simp add: update_where_def)

text \<open>An update that keeps a column keeps its projection of the table.\<close>

lemma map_update_where:
  "(\<And>r. p r \<Longrightarrow> k (f r) = k r) \<Longrightarrow> map k (update_where p f rs) = map k rs"
  by (simp add: update_where_def)

lemma image_update_where:
  assumes "\<And>r. p r \<Longrightarrow> k (f r) = k r"
  shows "k ` set (update_where p f rs) = k ` set rs"
  using map_update_where [of p k f rs, OF assms] by (metis set_map)

lemma update_where_none: "(\<And>r. r \<in> set rs \<Longrightarrow> \<not> p r) \<Longrightarrow> update_where p f rs = rs"
  by (induction rs) auto

lemma find_update_where:
  assumes "\<And>r. p r \<Longrightarrow> q (f r) = q r"
  shows "find q (update_where p f rs)
    = map_option (\<lambda>r. if p r then f r else r) (find q rs)"
  using assms by (induction rs) auto

lemma find_append:
  "find p (xs @ ys) = (case find p xs of None \<Rightarrow> find p ys | Some x \<Rightarrow> Some x)"
  by (induction xs) auto

lemma find_delete_where:
  "(\<And>r. q r \<Longrightarrow> \<not> p r) \<Longrightarrow> find q (delete_where p rs) = find q rs"
  by (induction rs) (auto simp: delete_where_def)

lemma find_delete_same [simp]: "find p (delete_where p rs) = None"
  by (simp add: delete_where_def find_None_iff)

lemma set_delete_where [simp]: "set (delete_where p rs) = {r \<in> set rs. \<not> p r}"
  by (auto simp: delete_where_def)

lemma distinct_map_delete_where:
  "distinct (map k rs) \<Longrightarrow> distinct (map k (delete_where p rs))"
  by (simp add: delete_where_def distinct_map_filter)

lemma find_SomeD: "find p xs = Some x \<Longrightarrow> p x \<and> x \<in> set xs"
  by (auto simp: find_Some_iff)

text \<open>With a key that is distinct over the table, the row found by key is the only one.\<close>

lemma find_key_unique:
  "distinct (map k rs) \<Longrightarrow> r \<in> set rs \<Longrightarrow> find (\<lambda>x. k x = k r) rs = Some r"
  by (induction rs) force+

lemmas [table_simps] = find_update_where find_append find_delete_where map_update_where

end
