(* ===== verification/Store_Iface.thy ===== *)
theory Store_Iface
  imports Gateway_Prelude
begin

text \<open>
  The data of \<open>internal/store/memory.go\<close> (\<open>Session\<close>, \<open>Message\<close>, \<open>PendingJob\<close>) and the Go interface
  \<open>Store\<close>, as a record of operations over a state type: a value of type \<open>'st store\<close> is what an
  interface value of type \<open>store.Store\<close> is.  The locales state what the clients (the session
  manager, the queue worker, the HTTP handlers) rely on; \<open>Memory_Store\<close> and \<open>Postgres_Store\<close>
  interpret them on the two implementations.
\<close>

record session =
  s_ID :: string
  s_SessionID :: string
  s_Status :: string
  s_Method :: string
  s_PhoneNumber :: string
  s_QRCode :: string
  s_PairingCode :: string
  s_QRExpiresAt :: "time option"
  s_WAJID :: string
  s_MessageCount :: int
  s_CreatedAt :: time
  s_UpdatedAt :: time

record message =
  m_ID :: string
  m_JobID :: string
  m_SessionID :: string
  m_To :: string
  m_Type :: string
  m_Content :: string
  m_Status :: string
  m_WAID :: string
  m_Error :: string
  m_ReferenceID :: string
  m_SourceType :: string
  m_SourceID :: string
  m_TemplateID :: string
  m_URL :: string
  m_Filename :: string
  m_MIMEType :: string
  m_Priority :: int
  m_Delay :: int
  m_IdempotencyScope :: string
  m_IdempotencyKeyHash :: string
  m_IdempotencyFingerprint :: string
  m_CreatedAt :: time

text \<open>Go's zero value \<open>Message{}\<close>.\<close>

definition zero_message :: message where
  "zero_message = \<lparr>m_ID = [], m_JobID = [], m_SessionID = [], m_To = [], m_Type = [],
     m_Content = [], m_Status = [], m_WAID = [], m_Error = [], m_ReferenceID = [],
     m_SourceType = [], m_SourceID = [], m_TemplateID = [], m_URL = [], m_Filename = [],
     m_MIMEType = [], m_Priority = 0, m_Delay = 0, m_IdempotencyScope = [],
     m_IdempotencyKeyHash = [], m_IdempotencyFingerprint = [], m_CreatedAt = 0\<rparr>"

record pending_job =
  pj_JobID :: string
  pj_Data :: json

text \<open>\<open>queueName\<close>, which the packages store and queue both define.\<close>

definition queueName :: "int \<Rightarrow> string" where
  "queueName priority =
     (if priority > 0 then ''messages_high''
      else if priority < 0 then ''messages_low''
      else ''messages'')"

text \<open>
  The interface.  A method that only reads returns its result, one that writes returns the error, if
  any, and the new state.  \<open>(Session, bool, error)\<close> is an error or an optional session.
\<close>

record 'st store =
  ListSessions :: "ctx \<Rightarrow> 'st \<Rightarrow> err + session list"
  GetSession :: "ctx \<Rightarrow> string \<Rightarrow> 'st \<Rightarrow> err + session option"
  PutSession :: "ctx \<Rightarrow> session \<Rightarrow> 'st \<Rightarrow> err option \<times> 'st"
  PutMessage :: "ctx \<Rightarrow> message \<Rightarrow> 'st \<Rightarrow> err option \<times> 'st"
  ListMessages :: "ctx \<Rightarrow> 'st \<Rightarrow> err + message list"
  UpdateSession :: "ctx \<Rightarrow> string \<Rightarrow> string \<Rightarrow> string \<Rightarrow> string \<Rightarrow> string \<Rightarrow> 'st \<Rightarrow> err option \<times> 'st"
  SetSessionQRExpiry :: "ctx \<Rightarrow> string \<Rightarrow> time option \<Rightarrow> 'st \<Rightarrow> err option \<times> 'st"
  UpdateMessageStatus :: "ctx \<Rightarrow> string \<Rightarrow> string \<Rightarrow> string \<Rightarrow> string \<Rightarrow> 'st \<Rightarrow> err option \<times> 'st"
  SetSessionIdentity :: "ctx \<Rightarrow> string \<Rightarrow> string \<Rightarrow> string \<Rightarrow> 'st \<Rightarrow> err option \<times> 'st"
  UpdateMessageReceipt :: "ctx \<Rightarrow> string \<Rightarrow> string \<Rightarrow> string \<Rightarrow> time \<Rightarrow> 'st \<Rightarrow> err option \<times> 'st"
  UpdateQueueJob :: "ctx \<Rightarrow> string \<Rightarrow> string \<Rightarrow> string \<Rightarrow> 'st \<Rightarrow> err option \<times> 'st"
  ListPendingQueueJobs :: "ctx \<Rightarrow> 'st \<Rightarrow> err + pending_job list"
  GetMessageByWAID :: "ctx \<Rightarrow> string \<Rightarrow> string \<Rightarrow> 'st \<Rightarrow> err + message option"

section \<open>What clients rely on: sessions\<close>

text \<open>
  \<open>view st i\<close> is the session \<open>i\<close> as a client sees it, \<open>ok\<close> the implementation's own invariant.  Every
  write acts on the one session it names, and a write that reports an error has no effect.  A
  successful write to an absent session has no effect either (Postgres), or cannot occur (Memory).
\<close>

locale session_store =
  fixes S :: "'st store" and ok :: "'st \<Rightarrow> bool" and view :: "'st \<Rightarrow> string \<Rightarrow> session option"
  assumes get_view: "ok st \<Longrightarrow> GetSession S c i st = Inr r \<Longrightarrow> r = view st i"
    and update_ok: "ok st \<Longrightarrow> ok (snd (UpdateSession S c i a q p h st))"
    and update_fail: "UpdateSession S c i a q p h st = (Some e, st') \<Longrightarrow> st' = st"
    and update_view: "ok st \<Longrightarrow> UpdateSession S c i a q p h st = (None, st') \<Longrightarrow>
      view st' j = (if j = i
        then map_option (\<lambda>v. v\<lparr>s_Status := a, s_QRCode := q, s_PairingCode := p,
          s_PhoneNumber := h, s_QRExpiresAt := (if q = [] then None else s_QRExpiresAt v),
          s_UpdatedAt := c_now c\<rparr>) (view st i)
        else view st j)"
    and identity_ok: "ok st \<Longrightarrow> ok (snd (SetSessionIdentity S c i w h st))"
    and identity_fail: "SetSessionIdentity S c i w h st = (Some e, st') \<Longrightarrow> st' = st"
    and identity_view: "ok st \<Longrightarrow> SetSessionIdentity S c i w h st = (None, st') \<Longrightarrow>
      view st' j = (if j = i
        then map_option (\<lambda>v. v\<lparr>s_WAJID := w, s_PhoneNumber := h, s_UpdatedAt := c_now c\<rparr>)
          (view st i)
        else view st j)"
    and expiry_ok: "ok st \<Longrightarrow> ok (snd (SetSessionQRExpiry S c i x st))"
    and expiry_fail: "SetSessionQRExpiry S c i x st = (Some e, st') \<Longrightarrow> st' = st"
    and expiry_view: "ok st \<Longrightarrow> SetSessionQRExpiry S c i x st = (None, st') \<Longrightarrow>
      (\<exists>t. view st' i = map_option (\<lambda>v. v\<lparr>s_QRExpiresAt := x, s_UpdatedAt := t\<rparr>) (view st i))
      \<and> (j \<noteq> i \<longrightarrow> view st' j = view st j)"
    and put_ok: "ok st \<Longrightarrow> ok (snd (PutSession S c v st))"
    and put_fail: "PutSession S c v st = (Some e, st') \<Longrightarrow> st' = st"
    and put_view: "ok st \<Longrightarrow> PutSession S c v st = (None, st') \<Longrightarrow>
      \<exists>v'. view st' (s_SessionID v) = Some v' \<and> s_Status v' = s_Status v
        \<and> s_Method v' = s_Method v \<and> s_PhoneNumber v' = s_PhoneNumber v
        \<and> s_UpdatedAt v' = s_UpdatedAt v \<and> s_SessionID v' = s_SessionID v"
    and put_frame: "ok st \<Longrightarrow> PutSession S c v st = (None, st') \<Longrightarrow> j \<noteq> s_SessionID v \<Longrightarrow>
      view st' j = view st j"
begin

text \<open>The status a client reads.\<close>

lemma update_status:
  assumes "ok st" "UpdateSession S c i a q p h st = (None, st')" "view st i = Some v"
  shows "\<exists>v'. view st' i = Some v' \<and> s_Status v' = a \<and> s_QRCode v' = q \<and> s_PairingCode v' = p
    \<and> s_PhoneNumber v' = h \<and> s_WAJID v' = s_WAJID v \<and> s_Method v' = s_Method v
    \<and> (q = [] \<longrightarrow> s_QRExpiresAt v' = None)"
  using update_view [OF assms(1,2), of i] assms(3) by simp

lemma update_dom: "ok st \<Longrightarrow> UpdateSession S c i a q p h st = (r, st') \<Longrightarrow>
    (view st' j = None) = (view st j = None)"
  by (cases r) (auto simp: update_view dest: update_fail)

lemma write_frame:
  assumes "ok st" "j \<noteq> i"
  shows "view (snd (UpdateSession S c i a q p h st)) j = view st j"
    and "view (snd (SetSessionIdentity S c i w h st)) j = view st j"
    and "view (snd (SetSessionQRExpiry S c i x st)) j = view st j"
proof -
  show "view (snd (UpdateSession S c i a q p h st)) j = view st j"
    using assms by (cases "UpdateSession S c i a q p h st"; cases "fst (UpdateSession S c i a q p h st)")
      (auto dest: update_fail simp: update_view)
  show "view (snd (SetSessionIdentity S c i w h st)) j = view st j"
    using assms by (cases "SetSessionIdentity S c i w h st"; cases "fst (SetSessionIdentity S c i w h st)")
      (auto dest: identity_fail simp: identity_view)
  show "view (snd (SetSessionQRExpiry S c i x st)) j = view st j"
    using assms by (cases "SetSessionQRExpiry S c i x st"; cases "fst (SetSessionQRExpiry S c i x st)")
      (auto dest: expiry_fail expiry_view)
qed

end

section \<open>What clients rely on: messages\<close>

text \<open>
  \<open>mview st i\<close> is the message a client reaches by the identifier \<open>i\<close>; two identifiers may name the
  same message (PostgreSQL reads a \<open>uuid\<close> in several spellings), so the frame is stated by the
  message's own identifier.
\<close>

locale message_store =
  fixes S :: "'st store" and ok :: "'st \<Rightarrow> bool" and mview :: "'st \<Rightarrow> string \<Rightarrow> message option"
  assumes status_ok: "ok st \<Longrightarrow> ok (snd (UpdateMessageStatus S c i a w e st))"
    and status_fail: "UpdateMessageStatus S c i a w e st = (Some x, st') \<Longrightarrow> st' = st"
    and status_view: "ok st \<Longrightarrow> UpdateMessageStatus S c i a w e st = (None, st') \<Longrightarrow>
      mview st i = Some m \<Longrightarrow>
      mview st' i = Some (m\<lparr>m_Status := a, m_WAID := w, m_Error := e\<rparr>)"
    and status_frame: "ok st \<Longrightarrow> UpdateMessageStatus S c i a w e st = (r, st') \<Longrightarrow>
      mview st j = Some m' \<Longrightarrow> (\<forall>m. mview st i = Some m \<longrightarrow> m_ID m \<noteq> m_ID m') \<Longrightarrow>
      mview st' j = Some m'"
    and job_ok: "ok st \<Longrightarrow> ok (snd (UpdateQueueJob S c i a e st))"
    and job_view: "mview (snd (UpdateQueueJob S c i a e st)) j = mview st j"
    and waid_get: "ok st \<Longrightarrow> fair_order c \<Longrightarrow> GetMessageByWAID S c i w st = Inr (Some m) \<Longrightarrow>
      \<exists>j m'. mview st j = Some m' \<and> m_ID m' = m_ID m \<and> m_SessionID m' = i \<and> m_WAID m' = w
        \<and> m_Status m' = m_Status m"
    and receipt_ok: "ok st \<Longrightarrow> fair_order c \<Longrightarrow> ok (snd (UpdateMessageReceipt S c i w a t st))"
    and receipt_fail: "UpdateMessageReceipt S c i w a t st = (Some x, st') \<Longrightarrow> st' = st"
    and receipt_view: "ok st \<Longrightarrow> fair_order c \<Longrightarrow> UpdateMessageReceipt S c i w a t st = (None, st') \<Longrightarrow>
      mview st' j = mview st j
      \<or> (\<exists>m. mview st j = Some m \<and> m_SessionID m = i \<and> m_WAID m = w
          \<and> mview st' j = Some (m\<lparr>m_Status := a\<rparr>))"
begin

lemma status_dom: "ok st \<Longrightarrow> UpdateMessageStatus S c i a w e st = (r, st') \<Longrightarrow>
    mview st i = Some m \<Longrightarrow> \<exists>m'. mview st' i = Some m' \<and> m_ID m' = m_ID m"
  by (cases r) (auto dest: status_fail status_view)

lemma receipt_dom: "ok st \<Longrightarrow> fair_order c \<Longrightarrow> UpdateMessageReceipt S c i w a t st = (r, st') \<Longrightarrow>
    mview st j = Some m \<Longrightarrow>
    \<exists>s. mview st' j = Some (m\<lparr>m_Status := s\<rparr>) \<and> (s = m_Status m \<or> s = a)"
proof (cases r)
  case None
  assume "ok st" "fair_order c" "UpdateMessageReceipt S c i w a t st = (r, st')" "mview st j = Some m"
  with None receipt_view [of st c i w a t st' j] show ?thesis by force
qed (auto dest!: receipt_fail intro!: exI [of _ "m_Status m"])

end

end
