(* ===== verification/Queue_Model.thy ===== *)
theory Queue_Model
  imports Store_Iface
begin

text \<open>
  \<open>internal/queue/queue.go\<close>: the job a message becomes, its JSON form, the enqueueing side
  (\<open>Asynq.Enqueue\<close>, \<open>Asynq.Recover\<close>, \<open>Nop\<close>) and the handler the worker runs for each task.  The
  asynq library is outside: a successful \<open>EnqueueContext\<close> is a task added to the list of tasks handed
  to it, and its errors come from the environment of the call.  The worker's collaborators are Go
  interfaces, here records of operations over an arbitrary world.
\<close>

section \<open>Jobs\<close>

record message_job =
  j_MessageID :: string
  j_SessionID :: string
  j_To :: string
  j_Type :: string
  j_Content :: string
  j_URL :: string
  j_Filename :: string
  j_MIMEType :: string
  j_Priority :: int
  j_Delay :: int

text \<open>The package's own \<open>queueName\<close>.\<close>

definition task_queueName :: "int \<Rightarrow> string" where
  "task_queueName priority = (if priority > 0 then ''messages_high'' else if priority < 0 then ''messages_low'' else ''messages'')"

lemma task_queueName [simp]: "task_queueName = queueName"
  by (simp add: fun_eq_iff task_queueName_def queueName_def)

definition isSupportedMessageType :: "string \<Rightarrow> bool" where
  "isSupportedMessageType typ \<longleftrightarrow> typ \<in> {''text'', ''image'', ''document'', ''pdf''}"

definition isMediaMessageType :: "string \<Rightarrow> bool" where
  "isMediaMessageType typ \<longleftrightarrow> typ = ''image'' \<or> typ = ''document'' \<or> typ = ''pdf''"

text \<open>The struct tags: \<open>omitempty\<close> drops an empty string or a zero.\<close>

definition omit_str :: "string \<Rightarrow> string \<Rightarrow> (string \<times> json) list" where
  "omit_str k s = (if s = [] then [] else [(k, JStr s)])"

definition omit_int :: "string \<Rightarrow> int \<Rightarrow> (string \<times> json) list" where
  "omit_int k i = (if i = 0 then [] else [(k, JInt i)])"

definition encode_job :: "message_job \<Rightarrow> json" where
  "encode_job j = JObj ([(''messageId'', JStr (j_MessageID j)), (''sessionId'', JStr (j_SessionID j)),
     (''to'', JStr (j_To j)), (''type'', JStr (j_Type j))]
     @ omit_str ''content'' (j_Content j) @ omit_str ''url'' (j_URL j)
     @ omit_str ''filename'' (j_Filename j) @ omit_str ''mimeType'' (j_MIMEType j)
     @ omit_int ''priority'' (j_Priority j) @ omit_int ''delay'' (j_Delay j))"

text \<open>\<open>json.Unmarshal\<close> of one field: absent or null leaves the zero value, another type is an error.\<close>

definition unmarshal_error :: err where
  "unmarshal_error = Errorf ''json: cannot unmarshal'' None"

definition str_field :: "string \<Rightarrow> (string \<times> json) list \<Rightarrow> err + string" where
  "str_field k kvs = (case map_of kvs k of None \<Rightarrow> Inr [] | Some JNull \<Rightarrow> Inr []
     | Some (JStr s) \<Rightarrow> Inr s | Some _ \<Rightarrow> Inl unmarshal_error)"

definition int_field :: "string \<Rightarrow> (string \<times> json) list \<Rightarrow> err + int" where
  "int_field k kvs = (case map_of kvs k of None \<Rightarrow> Inr 0 | Some JNull \<Rightarrow> Inr 0
     | Some (JInt i) \<Rightarrow> (if int8 i then Inr i else Inl unmarshal_error)
     | Some _ \<Rightarrow> Inl unmarshal_error)"

definition decode_fields :: "(string \<times> json) list \<Rightarrow> err + message_job" where
  "decode_fields kvs =
     (case (str_field ''messageId'' kvs, str_field ''sessionId'' kvs, str_field ''to'' kvs,
        str_field ''type'' kvs, str_field ''content'' kvs, str_field ''url'' kvs,
        str_field ''filename'' kvs, str_field ''mimeType'' kvs, int_field ''priority'' kvs,
        int_field ''delay'' kvs) of
        (Inr a, Inr b, Inr c, Inr d, Inr e, Inr f, Inr g, Inr h, Inr i, Inr k) \<Rightarrow>
          Inr \<lparr>j_MessageID = a, j_SessionID = b, j_To = c, j_Type = d, j_Content = e, j_URL = f,
            j_Filename = g, j_MIMEType = h, j_Priority = i, j_Delay = k\<rparr>
      | _ \<Rightarrow> Inl unmarshal_error)"

definition decode_job :: "json \<Rightarrow> err + message_job" where
  "decode_job v = (case v of JObj kvs \<Rightarrow> decode_fields kvs | JNull \<Rightarrow> decode_fields []
     | _ \<Rightarrow> Inl unmarshal_error)"

section \<open>Enqueueing\<close>

definition MessageTask :: string where
  "MessageTask = ''wa:send-message''"

record task =
  tk_type :: string
  tk_payload :: json
  tk_id :: string
  tk_queue :: string
  tk_max_retry :: nat
  tk_process_in :: "time option"

record 'q queue =
  Enqueue :: "ctx \<Rightarrow> message_job \<Rightarrow> string \<Rightarrow> 'q \<Rightarrow> err option \<times> 'q"

text \<open>
  \<open>NewFromURL\<close>: the address of the Redis server the client connects to.  \<open>url_host\<close> is the host \<open>url.Parse\<close> finds, or
  nothing when it fails.
\<close>

definition url_error :: err where
  "url_error = Errorf ''parse: invalid URL'' None"

definition NewFromURL :: "(string \<Rightarrow> string option) \<Rightarrow> string \<Rightarrow> err + string" where
  "NewFromURL url_host raw = (case url_host raw of None \<Rightarrow> Inl url_error
     | Some host \<Rightarrow> Inr (if host = [] then trim_prefix raw ''redis://'' else host))"

text \<open>
  \<open>Asynq.Enqueue\<close>.  \<open>time.Duration(job.Delay)*time.Millisecond\<close> is a 64-bit product.
\<close>

definition task_of :: "message_job \<Rightarrow> string \<Rightarrow> task" where
  "task_of job jobID = \<lparr>tk_type = MessageTask, tk_payload = encode_job job, tk_id = jobID,
     tk_queue = task_queueName (j_Priority job), tk_max_retry = 3,
     tk_process_in = (if j_Delay job > 0 then Some (wrap64 (j_Delay job * millisecond)) else None)\<rparr>"

definition asynq_Enqueue :: "ctx \<Rightarrow> message_job \<Rightarrow> string \<Rightarrow> task list \<Rightarrow> err option \<times> task list" where
  "asynq_Enqueue c job jobID q = (case c_fault c 0 of Some e \<Rightarrow> (Some e, q)
     | None \<Rightarrow> (None, q @ [task_of job jobID]))"

definition asynq_queue :: "task list queue" where
  "asynq_queue = \<lparr>Enqueue = asynq_Enqueue\<rparr>"

definition Nop_Enqueue :: "ctx \<Rightarrow> message_job \<Rightarrow> string \<Rightarrow> task list \<Rightarrow> err option \<times> task list" where
  "Nop_Enqueue c job jobID q = (None, q)"

definition nop_queue :: "task list queue" where
  "nop_queue = \<lparr>Enqueue = Nop_Enqueue\<rparr>"

text \<open>
  \<open>Asynq.Recover\<close>: the \<open>n\<close>-th pending job is enqueued in the environment \<open>E n\<close>.  The loop stops at the
  first error, except for a conflict of task identifiers.
\<close>

definition task_conflict :: "err \<Rightarrow> bool" where
  "task_conflict e \<longleftrightarrow> contains_sub (err_text e) ''task ID conflicts''"

fun Recover :: "(nat \<Rightarrow> ctx) \<Rightarrow> nat \<Rightarrow> pending_job list \<Rightarrow> task list \<Rightarrow> err option \<times> task list" where
  "Recover E n [] q = (None, q)"
| "Recover E n (p # ps) q =
     (case decode_job (pj_Data p) of
        Inl e \<Rightarrow> (Some e, q)
      | Inr job \<Rightarrow>
         (case asynq_Enqueue (E n) job (pj_JobID p) q of
            (None, q') \<Rightarrow> Recover E (Suc n) ps q'
          | (Some e, q') \<Rightarrow>
              if task_conflict e then Recover E (Suc n) ps q' else (Some e, q')))"

section \<open>The worker\<close>

record 'w sender =
  SendText :: "ctx \<Rightarrow> string \<Rightarrow> string \<Rightarrow> 'w \<Rightarrow> (err + string) \<times> 'w"
  SendMedia :: "(ctx \<Rightarrow> string \<Rightarrow> string \<Rightarrow> string \<Rightarrow> string \<Rightarrow> string \<Rightarrow> 'w \<Rightarrow> (err + string) \<times> 'w) option"

record 'w throttle =
  th_Wait :: "ctx \<Rightarrow> string \<Rightarrow> 'w \<Rightarrow> err option \<times> 'w"
  th_RecordFailure :: "ctx \<Rightarrow> string \<Rightarrow> 'w \<Rightarrow> err option \<times> 'w"
  th_RecordSuccess :: "ctx \<Rightarrow> string \<Rightarrow> 'w \<Rightarrow> err option \<times> 'w"

text \<open>The arguments of \<open>NewWorker\<close>: data store, client look-up, dispatcher and limiter.\<close>

record 'w worker =
  wk_UpdateMessageStatus :: "ctx \<Rightarrow> string \<Rightarrow> string \<Rightarrow> string \<Rightarrow> string \<Rightarrow> 'w \<Rightarrow> err option \<times> 'w"
  wk_UpdateQueueJob :: "ctx \<Rightarrow> string \<Rightarrow> string \<Rightarrow> string \<Rightarrow> 'w \<Rightarrow> err option \<times> 'w"
  wk_lookup :: "string \<Rightarrow> 'w \<Rightarrow> 'w sender option"
  wk_dispatcher :: "'w dispatch option"
  wk_limiter :: "'w throttle option"

text \<open>
  \<open>NewWorker\<close> as a server of asynq: its address, read from the URL once more, the number of tasks at a time, the queues with
  their weights, and the kind of task its multiplexer knows.
\<close>

record worker_conf =
  wf_addr :: string
  wf_concurrency :: nat
  wf_queues :: "(string \<times> nat) list"
  wf_task :: string

definition NewWorker :: "(string \<Rightarrow> string option) \<Rightarrow> string \<Rightarrow> err + worker_conf" where
  "NewWorker url_host raw = (case url_host raw of None \<Rightarrow> Inl url_error
     | Some host \<Rightarrow> Inr \<lparr>wf_addr = (if host = [] then trim_prefix raw ''redis://'' else host), wf_concurrency = 10,
         wf_queues = [(''messages_high'', 10), (''messages'', 5), (''messages_low'', 1)], wf_task = MessageTask\<rparr>)"

text \<open>Worker and client meet: the same server, and every task goes into a queue the worker reads and to a handler it has.\<close>

definition serves :: "worker_conf \<Rightarrow> task \<Rightarrow> bool" where
  "serves W t \<longleftrightarrow> (\<exists>n \<in> set (map snd (filter (\<lambda>q. fst q = tk_queue t) (wf_queues W))). n > 0) \<and> tk_type t = wf_task W"

lemma NewWorker_serves:
  assumes "NewWorker url_host raw = Inr W"
  shows "NewFromURL url_host raw = Inr (wf_addr W)" "serves W (task_of job i)"
  using assms by (auto simp: NewWorker_def NewFromURL_def serves_def task_of_def queueName_def split: option.splits)

lemma NewWorker_total: "NewFromURL url_host raw = Inr a \<Longrightarrow> \<exists>W. NewWorker url_host raw = Inr W \<and> wf_addr W = a"
  by (auto simp: NewWorker_def NewFromURL_def split: option.splits)

text \<open>\<open>if dispatcher != nil { _ = dispatcher.Dispatch(...) }\<close>: an error is dropped, a panic is not.\<close>

definition opt_dispatch :: "'w dispatch option \<Rightarrow> 'w dispatch" where
  "opt_dispatch D c event payload w = (case D of None \<Rightarrow> (None, w)
     | Some d \<Rightarrow> (case d c event payload w of (r, w') \<Rightarrow> (if panicked r then r else None, w')))"

definition recordFailure :: "'w worker \<Rightarrow> ctx \<Rightarrow> message_job \<Rightarrow> 'w \<Rightarrow> 'w" where
  "recordFailure W c job w = (case wk_limiter W of None \<Rightarrow> w
     | Some l \<Rightarrow> snd (th_RecordFailure l c (j_SessionID job) w))"

definition recordSuccess :: "'w worker \<Rightarrow> ctx \<Rightarrow> message_job \<Rightarrow> 'w \<Rightarrow> 'w" where
  "recordSuccess W c job w = (case wk_limiter W of None \<Rightarrow> w
     | Some l \<Rightarrow> snd (th_RecordSuccess l c (j_SessionID job) w))"

definition failed_payload :: "message_job \<Rightarrow> string \<Rightarrow> json" where
  "failed_payload job text = JObj [(''messageId'', JStr (j_MessageID job)),
     (''sessionId'', JStr (j_SessionID job)), (''to'', JStr (j_To job)), (''error'', JStr text)]"

definition sent_payload :: "message_job \<Rightarrow> string \<Rightarrow> json" where
  "sent_payload job waID = JObj [(''messageId'', JStr (j_MessageID job)),
     (''sessionId'', JStr (j_SessionID job)), (''to'', JStr (j_To job)), (''waMessageId'', JStr waID)]"

text \<open>
  The four effects of a failed job, whose errors are all dropped: both failure branches of the
  handler are this sequence.
\<close>

definition report_failure :: "'w worker \<Rightarrow> (nat \<Rightarrow> ctx) \<Rightarrow> message_job \<Rightarrow> string \<Rightarrow> 'w \<Rightarrow> err option \<times> 'w" where
  "report_failure W E job text w =
     (let w1 = recordFailure W (E 2) job w;
          w2 = snd (wk_UpdateMessageStatus W (E 3) (j_MessageID job) ''failed'' [] text w1);
          w3 = snd (wk_UpdateQueueJob W (E 4) (j_MessageID job) ''failed'' text w2)
      in opt_dispatch (wk_dispatcher W) (E 5) ''message.failed'' (failed_payload job text) w3)"

text \<open>The \<open>switch\<close> on the job's type.\<close>

definition send_job :: "'w sender \<Rightarrow> ctx \<Rightarrow> message_job \<Rightarrow> 'w \<Rightarrow> (err + string) \<times> 'w" where
  "send_job S c job w =
     (if j_Type job = ''text'' then SendText S c (j_To job) (j_Content job) w
      else if isMediaMessageType (j_Type job) then
        (if trim_space (j_URL job) = []
         then (Inl (Errorf (''media URL is required for message type '' @ j_Type job) None), w)
         else case SendMedia S of
             None \<Rightarrow> (Inl (Errorf ''media sending is not supported'' None), w)
           | Some f \<Rightarrow> f c (j_To job) (j_Type job) (j_URL job) (j_Filename job) (j_Content job) w)
      else if \<not> isSupportedMessageType (j_Type job)
        then (Inl (Errorf (''unsupported message type '' @ j_Type job) None), w)
      else (Inr [], w))"

definition timelock_marker :: string where
  "timelock_marker = ''WhatsApp reach-out timelock (error 463)''"

definition process_job :: "'w worker \<Rightarrow> (nat \<Rightarrow> ctx) \<Rightarrow> message_job \<Rightarrow> 'w \<Rightarrow> err option \<times> 'w" where
  "process_job W E job w =
     (case (case wk_limiter W of None \<Rightarrow> (None, w) | Some l \<Rightarrow> th_Wait l (E 0) (j_SessionID job) w) of
        (Some e, w1) \<Rightarrow> (Some e, w1)
      | (None, w1) \<Rightarrow>
     (case wk_lookup W (j_SessionID job) w1 of
        None \<Rightarrow>
          (case report_failure W E job ''session client unavailable'' w1 of
             (None, w2) \<Rightarrow> (Some (Errorf (''session client unavailable: '' @ j_SessionID job) None), w2)
           | (Some p, w2) \<Rightarrow> (Some p, w2))
      | Some S \<Rightarrow>
     (case send_job S (E 1) job w1 of
        (Inl e, w2) \<Rightarrow>
          (case report_failure W E job (err_text e) w2 of
             (None, w3) \<Rightarrow> (if contains_sub (err_text e) timelock_marker then None else Some e, w3)
           | (Some p, w3) \<Rightarrow> (Some p, w3))
      | (Inr waID, w2) \<Rightarrow>
     (case wk_UpdateMessageStatus W (E 3) (j_MessageID job) ''sent'' waID [] w2 of
        (Some e, w3) \<Rightarrow> (Some e, w3)
      | (None, w3) \<Rightarrow>
         (let w4 = recordSuccess W (E 2) job w3;
              w5 = snd (wk_UpdateQueueJob W (E 4) (j_MessageID job) ''completed'' [] w4)
          in opt_dispatch (wk_dispatcher W) (E 5) ''message.sent'' (sent_payload job waID) w5)))))"

text \<open>
  The function registered for \<open>MessageTask\<close>.  asynq recovers a panic of the handler and treats it as an
  error of the task.
\<close>

definition handle_task :: "'w worker \<Rightarrow> (nat \<Rightarrow> ctx) \<Rightarrow> json \<Rightarrow> 'w \<Rightarrow> err option \<times> 'w" where
  "handle_task W E payload w = (case decode_job payload of Inl e \<Rightarrow> (Some e, w)
     | Inr job \<Rightarrow> process_job W E job w)"

section \<open>Round trips and bounds\<close>

lemma map_of_omit [simp]:
  "map_of (omit_str k s) k' = (if k' = k \<and> s \<noteq> [] then Some (JStr s) else None)"
  "map_of (omit_int k i) k' = (if k' = k \<and> i \<noteq> 0 then Some (JInt i) else None)"
  by (auto simp: omit_str_def omit_int_def)

lemma decode_fields_Inr:
  assumes "str_field ''messageId'' kvs = Inr (j_MessageID j)"
    "str_field ''sessionId'' kvs = Inr (j_SessionID j)" "str_field ''to'' kvs = Inr (j_To j)"
    "str_field ''type'' kvs = Inr (j_Type j)" "str_field ''content'' kvs = Inr (j_Content j)"
    "str_field ''url'' kvs = Inr (j_URL j)" "str_field ''filename'' kvs = Inr (j_Filename j)"
    "str_field ''mimeType'' kvs = Inr (j_MIMEType j)"
    "int_field ''priority'' kvs = Inr (j_Priority j)" "int_field ''delay'' kvs = Inr (j_Delay j)"
  shows "decode_fields kvs = Inr j"
  using assms by (simp add: decode_fields_def)

lemma decode_encode_job:
  assumes "int8 (j_Priority j)" "int8 (j_Delay j)"
  shows "decode_job (encode_job j) = Inr j"
  unfolding decode_job_def encode_job_def json.case
  by (rule decode_fields_Inr) (simp_all add: str_field_def int_field_def map_add_def assms)

text \<open>A delay that fits the database's integer type is never wrapped.\<close>

lemma task_delay_exact:
  assumes "int4 (j_Delay job)" "0 < j_Delay job"
  shows "tk_process_in (task_of job i) = Some (j_Delay job * millisecond)"
proof -
  have "int8 (j_Delay job * millisecond)" using assms by (simp add: int4_def int8_def)
  then show ?thesis using assms by (simp add: task_of_def wrap64_id)
qed

section \<open>Recovery\<close>

text \<open>The tasks recovery may hand to the queue: one per pending job, under the job's own identifier.\<close>

definition recovery_task :: "pending_job \<Rightarrow> task option" where
  "recovery_task p = (case decode_job (pj_Data p) of Inl e \<Rightarrow> None
     | Inr job \<Rightarrow> Some (task_of job (pj_JobID p)))"

lemma asynq_Enqueue_cases:
  "asynq_Enqueue c job i q = (None, q') \<longleftrightarrow> c_fault c 0 = None \<and> q' = q @ [task_of job i]"
  "asynq_Enqueue c job i q = (Some e, q') \<longleftrightarrow> c_fault c 0 = Some e \<and> q' = q"
  by (auto simp: asynq_Enqueue_def split: option.splits)

lemma Recover_appends:
  "Recover E n ps q = (r, q') \<Longrightarrow> \<exists>ts. q' = q @ ts \<and> set (map Some ts) \<subseteq> set (map recovery_task ps)
     \<and> length ts \<le> length ps"
proof (induction ps arbitrary: n q)
  case Nil
  then show ?case by simp
next
  case (Cons p ps)
  show ?case
  proof (cases "decode_job (pj_Data p)")
    case (Inl e)
    with Cons.prems show ?thesis by auto
  next
    case (Inr job)
    then have rt: "recovery_task p = Some (task_of job (pj_JobID p))" by (simp add: recovery_task_def)
    show ?thesis
    proof (cases "c_fault (E n) 0")
      case None
      with Cons.prems Inr have "Recover E (Suc n) ps (q @ [task_of job (pj_JobID p)]) = (r, q')"
        by (simp add: asynq_Enqueue_def)
      from Cons.IH [OF this] obtain ts where "q' = q @ task_of job (pj_JobID p) # ts"
        "set (map Some ts) \<subseteq> set (map recovery_task ps)" "length ts \<le> length ps" by auto
      with rt show ?thesis by (intro exI [of _ "task_of job (pj_JobID p) # ts"]) auto
    next
      case (Some e)
      show ?thesis
      proof (cases "task_conflict e")
        case True
        with Some Cons.prems Inr have "Recover E (Suc n) ps q = (r, q')" by (simp add: asynq_Enqueue_def)
        from Cons.IH [OF this] obtain ts where "q' = q @ ts"
          "set (map Some ts) \<subseteq> set (map recovery_task ps)" "length ts \<le> length ps" by auto
        then show ?thesis by (intro exI [of _ ts]) (simp add: subset_insertI2)
      next
        case False
        with Some Cons.prems Inr show ?thesis by (auto simp: asynq_Enqueue_def)
      qed
    qed
  qed
qed

text \<open>When every job decodes and nothing but conflicts fails, recovery runs to the end.\<close>

lemma Recover_total:
  assumes "\<And>p. p \<in> set ps \<Longrightarrow> recovery_task p \<noteq> None"
    and "\<And>k e. c_fault (E k) 0 = Some e \<Longrightarrow> task_conflict e"
  shows "\<exists>ts. Recover E n ps q = (None, q @ ts)
    \<and> ts = map (the \<circ> recovery_task) (map fst (filter (\<lambda>(p, k). c_fault (E k) 0 = None) (zip ps [n..<n + length ps])))"
  using assms(1)
proof (induction ps arbitrary: n q)
  case (Cons p ps)
  from Cons.prems [of p] obtain job where job: "decode_job (pj_Data p) = Inr job"
    by (auto simp: recovery_task_def split: sum.splits)
  have up: "[n..<n + length (p # ps)] = n # [Suc n..<Suc n + length ps]"
    by (simp add: upt_conv_Cons del: upt_Suc)
  show ?case
  proof (cases "c_fault (E n) 0")
    case None
    with job Cons.IH [of "Suc n" "q @ [task_of job (pj_JobID p)]"] Cons.prems up show ?thesis
      by (simp add: asynq_Enqueue_def recovery_task_def del: upt_Suc)
  next
    case (Some e)
    with job Cons.IH [of "Suc n" q] Cons.prems up assms(2) [OF Some] show ?thesis
      by (simp add: asynq_Enqueue_def del: upt_Suc)
  qed
qed simp

section \<open>What the worker relies on, and what it guarantees\<close>

text \<open>
  What a write of the status leaves of a message: the new status, WhatsApp identifier and error, or the
  message as it was when the database refused the write.
\<close>

definition recorded :: "ctx \<Rightarrow> string \<Rightarrow> string \<Rightarrow> string \<Rightarrow> message \<Rightarrow> message option" where
  "recorded c status waID text m = Some (if c_fault c 0 = None then m\<lparr>m_Status := status, m_WAID := waID, m_Error := text\<rparr> else m)"

text \<open>
  \<open>mv w i\<close> is the message a client reaches by the identifier \<open>i\<close>.  Only \<open>UpdateMessageStatus\<close> writes
  messages; the limiter, the senders, the dispatcher and the queue-job log leave them alone.
\<close>

locale job_worker =
  fixes W :: "'w worker" and ok :: "'w \<Rightarrow> bool" and mv :: "'w \<Rightarrow> string \<Rightarrow> message option"
  assumes status_ok: "ok w \<Longrightarrow> ok (snd (wk_UpdateMessageStatus W c i a x e w))"
    and status_fail: "wk_UpdateMessageStatus W c i a x e w = (Some y, w') \<Longrightarrow> mv w' = mv w"
    and status_view: "ok w \<Longrightarrow> wk_UpdateMessageStatus W c i a x e w = (None, w') \<Longrightarrow>
      mv w i = Some m \<Longrightarrow> mv w' i = Some (m\<lparr>m_Status := a, m_WAID := x, m_Error := e\<rparr>)"
    and status_frame: "ok w \<Longrightarrow> wk_UpdateMessageStatus W c i a x e w = (r, w') \<Longrightarrow>
      mv w j = Some m' \<Longrightarrow> (\<forall>m. mv w i = Some m \<longrightarrow> m_ID m \<noteq> m_ID m') \<Longrightarrow> mv w' j = Some m'"
    and status_result: "mv w i = Some m \<Longrightarrow> fst (wk_UpdateMessageStatus W c i a x e w) = c_fault c 0"
    and job_ok: "ok w \<Longrightarrow> ok (snd (wk_UpdateQueueJob W c i a e w))"
    and job_view: "mv (snd (wk_UpdateQueueJob W c i a e w)) = mv w"
    and limiter_ok: "ok w \<Longrightarrow> wk_limiter W = Some l \<Longrightarrow> ok (snd (th_Wait l c s w))
      \<and> ok (snd (th_RecordFailure l c s w)) \<and> ok (snd (th_RecordSuccess l c s w))"
    and limiter_view: "wk_limiter W = Some l \<Longrightarrow> mv (snd (th_Wait l c s w)) = mv w
      \<and> mv (snd (th_RecordFailure l c s w)) = mv w \<and> mv (snd (th_RecordSuccess l c s w)) = mv w"
    and text_ok: "ok w \<Longrightarrow> wk_lookup W s w = Some S \<Longrightarrow> ok (snd (SendText S c t b w))"
    and text_view: "wk_lookup W s w = Some S \<Longrightarrow> mv (snd (SendText S c t b w)) = mv w"
    and media_ok: "ok w \<Longrightarrow> wk_lookup W s w = Some S \<Longrightarrow> SendMedia S = Some f \<Longrightarrow>
      ok (snd (f c t k u n b w))"
    and media_view: "wk_lookup W s w = Some S \<Longrightarrow> SendMedia S = Some f \<Longrightarrow>
      mv (snd (f c t k u n b w)) = mv w"
    and dispatch_ok: "ok w \<Longrightarrow> wk_dispatcher W = Some d \<Longrightarrow> ok (snd (d c ev p w))"
    and dispatch_view: "wk_dispatcher W = Some d \<Longrightarrow> mv (snd (d c ev p w)) = mv w"
begin

lemma record_ok: "ok w \<Longrightarrow> ok (recordFailure W c job w) \<and> ok (recordSuccess W c job w)"
  by (auto simp: recordFailure_def recordSuccess_def limiter_ok split: option.splits)

lemma record_view: "mv (recordFailure W c job w) = mv w" "mv (recordSuccess W c job w) = mv w"
  by (auto simp: recordFailure_def recordSuccess_def limiter_view split: option.splits)

lemma opt_dispatch_ok: "ok w \<Longrightarrow> ok (snd (opt_dispatch (wk_dispatcher W) c ev p w))"
  by (auto simp: opt_dispatch_def split_beta dispatch_ok split: option.splits)

lemma opt_dispatch_view: "mv (snd (opt_dispatch (wk_dispatcher W) c ev p w)) = mv w"
  by (auto simp: opt_dispatch_def split_beta dispatch_view split: option.splits)

lemma opt_dispatch_result: "fst (opt_dispatch D c ev p w) = None \<or> panicked (fst (opt_dispatch D c ev p w))"
  by (auto simp: opt_dispatch_def split_beta split: option.splits)

lemmas frame_views = record_view opt_dispatch_view job_view

lemma send_job_ok: "ok w \<Longrightarrow> wk_lookup W s w = Some S \<Longrightarrow> ok (snd (send_job S c job w))"
  by (auto simp: send_job_def text_ok media_ok split: option.splits)

lemma send_job_view: "wk_lookup W s w = Some S \<Longrightarrow> mv (snd (send_job S c job w)) = mv w"
  by (auto simp: send_job_def text_view media_view split: option.splits)

lemma report_failure_ok: "ok w \<Longrightarrow> ok (snd (report_failure W E job t w))"
  by (simp add: report_failure_def Let_def opt_dispatch_ok job_ok status_ok record_ok)

text \<open>A failure is recorded on the job's message, or the write was refused and nothing changed.\<close>

lemma status_recorded:
  assumes "ok w" "mv w i = Some m"
  shows "mv (snd (wk_UpdateMessageStatus W c i a x e w)) i = recorded c a x e m"
proof -
  obtain r w' where w': "wk_UpdateMessageStatus W c i a x e w = (r, w')" by fastforce
  then have "r = c_fault c 0" using status_result [OF assms(2), of c a x e] by simp
  then show ?thesis using w' assms status_view [OF assms(1), of c i a x e w' m] status_fail [of c i a x e w]
    by (cases r) (auto simp: recorded_def)
qed

lemma report_failure_view:
  assumes "ok w" "mv w (j_MessageID job) = Some m"
  shows "mv (snd (report_failure W E job t w)) (j_MessageID job) = recorded (E 3) ''failed'' [] t m"
  using assms by (simp add: report_failure_def Let_def frame_views status_recorded record_ok)

lemma report_failure_result: "fst (report_failure W E job t w) = None \<or> panicked (fst (report_failure W E job t w))"
  by (simp add: report_failure_def Let_def opt_dispatch_result)

lemma report_failure_frame:
  assumes "ok w" "mv w j = Some m'" "\<And>m. mv w (j_MessageID job) = Some m \<Longrightarrow> m_ID m \<noteq> m_ID m'"
  shows "mv (snd (report_failure W E job t w)) j = Some m'"
proof -
  let ?w1 = "recordFailure W (E 2) job w"
  obtain r w2 where w2: "wk_UpdateMessageStatus W (E 3) (j_MessageID job) ''failed'' [] t ?w1 = (r, w2)"
    by fastforce
  have "mv w2 j = Some m'"
    using status_frame [OF _ w2, of j m'] assms record_ok by (simp add: record_view)
  then show ?thesis by (simp add: report_failure_def Let_def frame_views w2)
qed

text \<open>The first step, waiting for the limiter, changes no message.\<close>

definition limiter_wait :: "(nat \<Rightarrow> ctx) \<Rightarrow> message_job \<Rightarrow> 'w \<Rightarrow> err option \<times> 'w" where
  "limiter_wait E job w = (case wk_limiter W of None \<Rightarrow> (None, w)
     | Some l \<Rightarrow> th_Wait l (E 0) (j_SessionID job) w)"

lemma limiter_wait_ok: "ok w \<Longrightarrow> ok (snd (limiter_wait E job w))"
  by (auto simp: limiter_wait_def limiter_ok split: option.splits)

lemma limiter_wait_view: "mv (snd (limiter_wait E job w)) = mv w"
  by (auto simp: limiter_wait_def limiter_view split: option.splits)

text \<open>The ways a job can end.\<close>

lemma process_job_cases:
  obtains (refused) e w1 where "process_job W E job w = (Some e, w1)" "limiter_wait E job w = (Some e, w1)"
  | (failed) w2 t r where "process_job W E job w = (r, snd (report_failure W E job t w2))"
      "mv w2 = mv w" "ok w \<Longrightarrow> ok w2" "r = None \<Longrightarrow> contains_sub t timelock_marker"
  | (unrecorded) w2 w3 x e where "process_job W E job w = (Some e, w3)" "mv w2 = mv w" "ok w \<Longrightarrow> ok w2"
      "wk_UpdateMessageStatus W (E 3) (j_MessageID job) ''sent'' x [] w2 = (Some e, w3)"
  | (sent) w2 w3 x where "process_job W E job w = opt_dispatch (wk_dispatcher W) (E 5)
        ''message.sent'' (sent_payload job x) (snd (wk_UpdateQueueJob W (E 4) (j_MessageID job)
          ''completed'' [] (recordSuccess W (E 2) job w3)))" "mv w2 = mv w" "ok w \<Longrightarrow> ok w2"
      "wk_UpdateMessageStatus W (E 3) (j_MessageID job) ''sent'' x [] w2 = (None, w3)"
proof -
  obtain r1 w1 where w1: "limiter_wait E job w = (r1, w1)" by fastforce
  have v1: "mv w1 = mv w" and o1: "ok w \<Longrightarrow> ok w1"
    using limiter_wait_view [of E job w] limiter_wait_ok [of w E job] w1 by simp_all
  note unf = process_job_def limiter_wait_def [symmetric] w1
  show ?thesis
  proof (cases r1)
    case (Some e)
    then show ?thesis using refused [of e w1] by (simp add: unf)
  next
    case r1: None
    show ?thesis
    proof (cases "wk_lookup W (j_SessionID job) w1")
      case None
      then show ?thesis using r1 v1 o1
        by (intro failed [of "fst (process_job W E job w)" "''session client unavailable''" w1])
          (auto simp: unf split: prod.splits option.splits)
    next
      case (Some S)
      obtain q w2 where w2: "send_job S (E 1) job w1 = (q, w2)" by fastforce
      have v2: "mv w2 = mv w" and o2: "ok w \<Longrightarrow> ok w2"
        using send_job_view [OF Some, of "E 1" job] send_job_ok [OF _ Some, of "E 1" job] w2 v1 o1
        by simp_all
      show ?thesis
      proof (cases q)
        case (Inl e)
        then show ?thesis using r1 Some w2 v2 o2
          by (intro failed [of "fst (process_job W E job w)" "err_text e" w2])
            (auto simp: unf split: if_splits prod.splits option.splits)
      next
        case (Inr x)
        obtain y w3 where w3: "wk_UpdateMessageStatus W (E 3) (j_MessageID job) ''sent'' x [] w2 = (y, w3)"
          by fastforce
        show ?thesis
        proof (cases y)
          case None
          with r1 Some w2 Inr w3 v2 o2 show ?thesis by (intro sent [of x w3 w2]) (simp_all add: unf Let_def)
        next
          case (Some z)
          with r1 \<open>wk_lookup W (j_SessionID job) w1 = _\<close> w2 Inr w3 v2 o2 show ?thesis
            by (intro unrecorded [of z w3 w2 x]) (simp_all add: unf)
        qed
      qed
    qed
  qed
qed

lemma process_job_ok: "ok w \<Longrightarrow> ok (snd (process_job W E job w))"
proof -
  assume ok: "ok w"
  show ?thesis
  proof (cases rule: process_job_cases [of E job w])
    case (refused e w1)
    then show ?thesis using limiter_wait_ok [OF ok, of E job] by simp
  next
    case (failed w2 t r)
    then show ?thesis using ok by (simp add: report_failure_ok)
  next
    case (unrecorded w2 w3 x e)
    then show ?thesis using ok status_ok [of w2 "E 3" "j_MessageID job" "''sent''" x "[]"] by simp
  next
    case (sent w2 w3 x)
    then show ?thesis using ok status_ok [of w2 "E 3" "j_MessageID job" "''sent''" x "[]"]
      by (simp add: opt_dispatch_ok job_ok record_ok)
  qed
qed

text \<open>The result of a run and what it leaves on the job's own message, branch by branch.\<close>

lemma outcome_refused:
  "limiter_wait E job w = (Some e, w1) \<Longrightarrow> process_job W E job w = (Some e, w1)"
  by (simp add: process_job_def limiter_wait_def [symmetric])

lemma outcome_unavailable:
  assumes "limiter_wait E job w = (None, w1)" "wk_lookup W (j_SessionID job) w1 = None"
    and "ok w1" "mv w1 (j_MessageID job) = Some m"
  shows "fst (process_job W E job w) \<noteq> None"
    and "mv (snd (process_job W E job w)) (j_MessageID job) = recorded (E 3) ''failed'' [] ''session client unavailable'' m"
  using assms report_failure_view [OF assms(3,4), of E "''session client unavailable''"]
  by (auto simp: process_job_def limiter_wait_def [symmetric] split: prod.splits option.splits)

lemma outcome_failed:
  assumes "limiter_wait E job w = (None, w1)" "wk_lookup W (j_SessionID job) w1 = Some S"
    and "send_job S (E 1) job w1 = (Inl e, w2)" "ok w2" "mv w2 (j_MessageID job) = Some m"
  shows "panicked (fst (process_job W E job w))
      \<or> fst (process_job W E job w) = (if contains_sub (err_text e) timelock_marker then None else Some e)"
    and "mv (snd (process_job W E job w)) (j_MessageID job) = recorded (E 3) ''failed'' [] (err_text e) m"
  using assms report_failure_view [OF assms(4,5), of E "err_text e"] report_failure_result [of E job "err_text e" w2]
  by (auto simp: process_job_def limiter_wait_def [symmetric] split: prod.splits option.splits)

lemma outcome_sent:
  assumes "limiter_wait E job w = (None, w1)" "wk_lookup W (j_SessionID job) w1 = Some S"
    and "send_job S (E 1) job w1 = (Inr x, w2)" "ok w2" "mv w2 (j_MessageID job) = Some m"
  shows "case c_fault (E 3) 0 of None \<Rightarrow> fst (process_job W E job w) = None \<or> panicked (fst (process_job W E job w))
      | Some e \<Rightarrow> fst (process_job W E job w) = Some e"
    and "mv (snd (process_job W E job w)) (j_MessageID job) = recorded (E 3) ''sent'' x [] m"
proof -
  obtain y w3 where w3: "wk_UpdateMessageStatus W (E 3) (j_MessageID job) ''sent'' x [] w2 = (y, w3)" by fastforce
  have y: "y = c_fault (E 3) 0" and v: "mv w3 (j_MessageID job) = recorded (E 3) ''sent'' x [] m"
    using status_result [OF assms(5), of "E 3" "''sent''" x "[]"] status_recorded [OF assms(4,5), of "E 3" "''sent''" x "[]"] w3
    by simp_all
  show "case c_fault (E 3) 0 of None \<Rightarrow> fst (process_job W E job w) = None \<or> panicked (fst (process_job W E job w))
      | Some e \<Rightarrow> fst (process_job W E job w) = Some e"
    using assms w3 y opt_dispatch_result [of "wk_dispatcher W" "E 5" "''message.sent''" "sent_payload job x"]
    by (auto simp: process_job_def limiter_wait_def [symmetric] Let_def split: option.split)
  show "mv (snd (process_job W E job w)) (j_MessageID job) = recorded (E 3) ''sent'' x [] m"
    using assms w3 v by (auto simp: process_job_def limiter_wait_def [symmetric] Let_def frame_views split: option.split)
qed

lemma process_job_outcome:
  assumes "ok w" "mv w (j_MessageID job) = Some m" "process_job W E job w = (r, w')"
  shows "case limiter_wait E job w of
      (Some e, w1) \<Rightarrow> r = Some e \<and> mv w' (j_MessageID job) = Some m
    | (None, w1) \<Rightarrow> (case wk_lookup W (j_SessionID job) w1 of
        None \<Rightarrow> r \<noteq> None \<and> mv w' (j_MessageID job) = recorded (E 3) ''failed'' [] ''session client unavailable'' m
      | Some S \<Rightarrow> (case fst (send_job S (E 1) job w1) of
          Inl e \<Rightarrow> (panicked r \<or> r = (if contains_sub (err_text e) timelock_marker then None else Some e))
            \<and> mv w' (j_MessageID job) = recorded (E 3) ''failed'' [] (err_text e) m
        | Inr x \<Rightarrow> (case c_fault (E 3) 0 of None \<Rightarrow> r = None \<or> panicked r | Some e \<Rightarrow> r = Some e)
            \<and> mv w' (j_MessageID job) = recorded (E 3) ''sent'' x [] m))"
proof -
  obtain r1 w1 where w1: "limiter_wait E job w = (r1, w1)" by fastforce
  have s1: "ok w1" "mv w1 (j_MessageID job) = Some m"
    using limiter_wait_view [of E job w] limiter_wait_ok [OF assms(1), of E job] w1 assms(2) by simp_all
  have res: "r = fst (process_job W E job w)" "w' = snd (process_job W E job w)" using assms(3) by simp_all
  have s2: "ok w2" "mv w2 (j_MessageID job) = Some m"
    if "wk_lookup W (j_SessionID job) w1 = Some S" "send_job S (E 1) job w1 = (q, w2)" for S q w2
    using send_job_ok [OF s1(1) that(1), of "E 1" job] send_job_view [OF that(1), of "E 1" job] s1(2) that(2) by simp_all
  show ?thesis
  proof (cases r1)
    case (Some e)
    then show ?thesis using w1 s1 assms(3) outcome_refused [of E job w e w1] by (auto simp: Some)
  next
    case r1: None
    show ?thesis
    proof (cases "wk_lookup W (j_SessionID job) w1")
      case None
      then show ?thesis using r1 w1 s1 outcome_unavailable [of E job w w1 m] by (simp add: res)
    next
      case (Some S)
      obtain q w2 where w2: "send_job S (E 1) job w1 = (q, w2)" by fastforce
      then show ?thesis using r1 w1 Some s2 [OF Some w2] outcome_failed [of E job w w1 S _ w2 m]
          outcome_sent [of E job w w1 S _ w2 m] by (cases q) (simp_all add: res split: option.splits)
    qed
  qed
qed

text \<open>A run leaves every other message as it was.\<close>

lemma process_job_frame:
  assumes "ok w" "mv w j = Some m'" "\<And>m. mv w (j_MessageID job) = Some m \<Longrightarrow> m_ID m \<noteq> m_ID m'"
  shows "mv (snd (process_job W E job w)) j = Some m'"
proof (cases rule: process_job_cases [of E job w])
  case (refused e w1)
  then show ?thesis using assms limiter_wait_view [of E job w] by simp
next
  case (failed w2 t r)
  then show ?thesis using assms report_failure_frame [of w2 j m' job E t] by simp
next
  case (unrecorded w2 w3 x e)
  then show ?thesis using assms status_frame [OF _ unrecorded(4), of j m'] by simp
next
  case (sent w2 w3 x)
  then show ?thesis using assms status_frame [OF _ sent(4), of j m'] by (simp add: frame_views)
qed

end

end
