(* ===== verification/Wa_Client.thy ===== *)
theory Wa_Client
  imports Queue_Model
begin

text \<open>
  \<open>internal/whatsapp/errors.go\<close> and \<open>client.go\<close>: the classification of WhatsApp's reach-out error, the
  sending operations of \<open>WhatsMeowClient\<close>, its status field and the map \<open>Manager\<close>.  The whatsmeow library is
  outside: its answers are the \<open>c_wa\<close> of the call, and what it is asked to send is returned as a list.
\<close>

section \<open>Errors\<close>

definition is_reachout :: "sentinel \<Rightarrow> bool" where
  "is_reachout s \<longleftrightarrow> s = ReachoutTimelock"

definition is_server_returned :: "sentinel \<Rightarrow> bool" where
  "is_server_returned s \<longleftrightarrow> (case s of ServerReturned t \<Rightarrow> True | _ \<Rightarrow> False)"

definition IsReachoutTimelockError :: "err option \<Rightarrow> bool" where
  "IsReachoutTimelockError e = (case e of None \<Rightarrow> False
     | Some x \<Rightarrow> errors_is x is_reachout
         \<or> (errors_is x is_server_returned \<and> has_suffix (err_text x) '' 463''))"

definition normalizeWhatsAppError :: "err option \<Rightarrow> err option" where
  "normalizeWhatsAppError e = (if \<not> IsReachoutTimelockError e then e
     else Some (Errorf (reachout_text @ '': '' @ err_text (the e)) (Some (Sentinel ReachoutTimelock))))"

section \<open>Destinations\<close>

text \<open>\<open>regexp.MustCompile(`\\D`).ReplaceAllString(s, "")\<close>.\<close>

definition digits :: "string \<Rightarrow> string" where
  "digits s = filter (\<lambda>c. c \<in> set ''0123456789'') s"

definition NormalizePhone :: "string \<Rightarrow> string" where
  "NormalizePhone s = trim_space (digits s)"

section \<open>Sending\<close>

text \<open>
  The part of a media message the code chooses: the uploaded bytes, the MIME type, caption or title, and
  the file name.
\<close>

datatype wa_message = Conversation string
  | ImageMessage string string string
  | DocumentMessage string string string string

record outgoing =
  og_user :: string
  og_message :: wa_message

definition wa_SendText :: "ctx \<Rightarrow> string \<Rightarrow> string \<Rightarrow> (err + string) \<times> outgoing list" where
  "wa_SendText c to message =
     (let phone = digits to in
      if phone = [] then (Inl (Errorf ''invalid WhatsApp destination'' None), [])
      else case c_wa c 0 of
          Inl e \<Rightarrow> (Inl (the (normalizeWhatsAppError (Some e))), [\<lparr>og_user = phone, og_message = Conversation message\<rparr>])
        | Inr i \<Rightarrow> (Inr i, [\<lparr>og_user = phone, og_message = Conversation message\<rparr>]))"

definition media_limit :: nat where
  "media_limit = 25 * 2 ^ 20"

definition media_message :: "string \<Rightarrow> string \<Rightarrow> string \<Rightarrow> string \<Rightarrow> string \<Rightarrow> wa_message" where
  "media_message kind data mime filename caption =
     (if kind = ''image'' then ImageMessage data mime caption else DocumentMessage data mime caption filename)"

text \<open>\<open>url_valid\<close> is the acceptance of a URL by \<open>http.NewRequest\<close>.  The first answer of the library is the upload.\<close>

definition wa_SendMedia ::
  "(string \<Rightarrow> bool) \<Rightarrow> ctx \<Rightarrow> string \<Rightarrow> string \<Rightarrow> string \<Rightarrow> string \<Rightarrow> string \<Rightarrow> (err + string) \<times> outgoing list" where
  "wa_SendMedia url_valid c to kind rawURL filename caption =
     (if \<not> url_valid rawURL then (Inl (Errorf ''net/url: invalid'' None), [])
      else
     (case c_http c 0 of Inl e \<Rightarrow> (Inl e, [])
      | Inr resp \<Rightarrow>
         if ha_code resp < 200 \<or> ha_code resp \<ge> 300
         then (Inl (Errorf (''media download returned '' @ ha_status resp) None), [])
         else
     (case ha_body resp of Inl e \<Rightarrow> (Inl e, [])
      | Inr body \<Rightarrow>
         let data = take media_limit body;
             mime = (if ha_type resp = [] then ''application/octet-stream'' else ha_type resp) in
     (case c_wa c 0 of Inl e \<Rightarrow> (Inl e, [])
      | Inr upload \<Rightarrow>
         let out = [\<lparr>og_user = digits to, og_message = media_message kind data mime filename caption\<rparr>] in
     (case c_wa c 1 of Inl e \<Rightarrow> (Inl (the (normalizeWhatsAppError (Some e))), out)
      | Inr i \<Rightarrow> (Inr i, out))))))"

section \<open>The client\<close>

text \<open>
  What \<open>NewWhatsMeowClient\<close> sets up: the properties of the linked device and the client's own field, its status.
  A yes/no answer of the library is a text that is empty for no.
\<close>

record wm_client =
  wm_platform :: string
  wm_os :: "string \<times> nat list"
  wm_status :: string

definition NewWhatsMeowClient :: wm_client where
  "NewWhatsMeowClient = \<lparr>wm_platform = ''CHROME'', wm_os = (''Linux'', [1, 0, 0]), wm_status = ''disconnected''\<rparr>"

definition wa_yes :: "ctx \<Rightarrow> nat \<Rightarrow> bool" where
  "wa_yes c k \<longleftrightarrow> (case c_wa c k of Inr s \<Rightarrow> s \<noteq> [] | Inl e \<Rightarrow> False)"

text \<open>The calls that are passed on to the library; \<open>client_JID\<close> is given \<open>client.Store.ID\<close>.\<close>

definition client_IsLoggedIn :: "ctx \<Rightarrow> bool" where
  [simp]: "client_IsLoggedIn c = wa_yes c 0"

definition client_QRChannel :: "ctx \<Rightarrow> err + string" where
  [simp]: "client_QRChannel c = c_wa c 1"

definition client_PairPhone :: "ctx \<Rightarrow> nat \<Rightarrow> err + string" where
  [simp]: "client_PairPhone c attempt = c_wa c attempt"

definition client_JID :: "string option \<Rightarrow> string" where
  "client_JID storeID = (case storeID of None \<Rightarrow> [] | Some jid \<Rightarrow> jid)"

definition client_Status :: "wm_client \<Rightarrow> string" where
  "client_Status w = wm_status w"

text \<open>\<open>Connect\<close> passes through \<open>connecting\<close>; its result is the status it leaves.\<close>

definition client_Connect :: "ctx \<Rightarrow> err option \<times> string" where
  "client_Connect c = (case c_wa c 0 of Inl e \<Rightarrow> (Some e, ''failed'') | Inr _ \<Rightarrow> (None, ''connected''))"

definition client_Disconnect :: "err option \<times> string" where
  "client_Disconnect = (None, ''disconnected'')"

definition client_Logout :: "ctx \<Rightarrow> err option \<times> string" where
  "client_Logout c = (case c_wa c 0 of Inl e \<Rightarrow> (Some e, ''logged_out'') | Inr _ \<Rightarrow> (None, ''logged_out''))"

section \<open>Manager\<close>

definition NewManager :: "string \<Rightarrow> 'c option" where
  "NewManager = (\<lambda>_. None)"

definition Manager_Put :: "string \<Rightarrow> 'c \<Rightarrow> (string \<Rightarrow> 'c option) \<Rightarrow> (string \<Rightarrow> 'c option)" where
  "Manager_Put sessionID client m = m(sessionID \<mapsto> client)"

definition Manager_Get :: "string \<Rightarrow> (string \<Rightarrow> 'c option) \<Rightarrow> 'c option" where
  "Manager_Get sessionID m = m sessionID"

definition Manager_Delete :: "string \<Rightarrow> (string \<Rightarrow> 'c option) \<Rightarrow> (string \<Rightarrow> 'c option)" where
  "Manager_Delete sessionID m = m(sessionID := None)"

section \<open>The reach-out restriction\<close>

lemma has_suffix_iff: "has_suffix s p \<longleftrightarrow> (\<exists>t. s = t @ p)"
  by (auto simp: has_suffix_def has_prefix_iff rev_swap intro: exI [of _ "rev _"])

lemma contains_sub_iff: "contains_sub s p \<longleftrightarrow> (\<exists>a b. s = a @ p @ b)"
proof (induction s)
  case (Cons c s)
  show ?case
  proof
    assume "contains_sub (c # s) p"
    then consider "has_prefix (c # s) p" | "contains_sub s p" by auto
    then show "\<exists>a b. c # s = a @ p @ b"
    proof cases
      case 1
      then show ?thesis by (metis append_Nil has_prefix_iff)
    next
      case 2
      then show ?thesis using Cons.IH by (metis append_Cons)
    qed
  next
    assume "\<exists>a b. c # s = a @ p @ b"
    then obtain a b where ab: "c # s = a @ p @ b" by blast
    show "contains_sub (c # s) p"
    proof (cases a)
      case Nil
      then have "has_prefix (c # s) p" using ab by (simp add: has_prefix_iff)
      then show ?thesis by simp
    next
      case (Cons x a')
      then have "s = a' @ p @ b" using ab by simp
      then show ?thesis using Cons.IH by auto
    qed
  qed
qed simp

lemma normalize_marked:
  assumes "IsReachoutTimelockError (Some e)"
  shows "contains_sub (err_text (the (normalizeWhatsAppError (Some e)))) timelock_marker"
proof -
  have "err_text (the (normalizeWhatsAppError (Some e)))
      = [] @ timelock_marker @ '': establish a conversation with the recipient first, then retry: '' @ err_text e"
    using assms by (simp add: normalizeWhatsAppError_def reachout_text_def timelock_marker_def)
  then show ?thesis unfolding contains_sub_iff by blast
qed

text \<open>What the last word of a text is does not depend on how the text is split.\<close>

lemma last_word:
  assumes "t @ CHR '' '' # ds = u @ CHR '' '' # ds'" "CHR '' '' \<notin> set ds" "CHR '' '' \<notin> set ds'"
  shows "ds = ds'"
proof -
  have last: "takeWhile (\<lambda>c. c \<noteq> CHR '' '') (rev (t @ CHR '' '' # ds)) = rev ds" if "CHR '' '' \<notin> set ds" for t ds
  proof -
    have "takeWhile (\<lambda>c. c \<noteq> CHR '' '') (rev ds @ CHR '' '' # rev t) = rev ds @ takeWhile (\<lambda>c. c \<noteq> CHR '' '') (CHR '' '' # rev t)"
      by (rule takeWhile_append2) (use that in auto)
    then show ?thesis by simp
  qed
  show ?thesis using last [OF assms(2), of t] last [OF assms(3), of u] assms(1) by simp
qed

text \<open>
  The error whatsmeow returns for an error code of the server: \<open>fmt.Errorf("%w %d", ErrServerReturnedError, code)\<close>,
  with the code as its decimal digits.
\<close>

definition server_error :: "string \<Rightarrow> string \<Rightarrow> err" where
  "server_error t code = Errorf (t @ '' '' @ code) (Some (Sentinel (ServerReturned t)))"

lemma server_error_463:
  assumes "set code \<subseteq> set ''0123456789''"
  shows "IsReachoutTimelockError (Some (server_error t code)) \<longleftrightarrow> code = ''463''"
proof -
  have "has_suffix (t @ '' '' @ code) '' 463'' \<longleftrightarrow> code = ''463''"
    using last_word [of t code _ "''463''"] assms by (auto simp: has_suffix_iff)
  then show ?thesis
    by (simp add: IsReachoutTimelockError_def server_error_def is_reachout_def is_server_returned_def)
qed

text \<open>
  The moments at which a call of \<open>SendText\<close> or \<open>SendMedia\<close> hands the message to whatsmeow and gets the error \<open>e\<close>; before
  that, \<open>SendMedia\<close> has downloaded and uploaded the file.
\<close>

definition send_failed ::
  "(string \<Rightarrow> bool) \<Rightarrow> ctx \<Rightarrow> err \<Rightarrow> string \<Rightarrow> string \<Rightarrow> string \<Rightarrow> string \<Rightarrow> string \<Rightarrow> string \<Rightarrow> (err + string) \<Rightarrow> bool" where
  "send_failed url_valid c e to body kind url filename caption res \<longleftrightarrow>
     digits to \<noteq> [] \<and> c_wa c 0 = Inl e \<and> res = fst (wa_SendText c to body)
     \<or> url_valid url \<and> (\<exists>resp data upload. c_http c 0 = Inr resp \<and> 200 \<le> ha_code resp \<and> ha_code resp < 300
          \<and> ha_body resp = Inr data \<and> c_wa c 0 = Inr upload) \<and> c_wa c 1 = Inl e
        \<and> res = fst (wa_SendMedia url_valid c to kind url filename caption)"

lemma send_failed_result:
  "send_failed url_valid c e to body kind url filename caption res \<Longrightarrow> res = Inl (the (normalizeWhatsAppError (Some e)))"
  by (auto simp: send_failed_def wa_SendText_def wa_SendMedia_def Let_def)

text \<open>
  C38.  Error 463 reaches the worker.  When whatsmeow refuses to send a text or a media message, then: for an
  error code of the server, the error \<open>SendText\<close> or \<open>SendMedia\<close> returns is the restriction with the
  marker the worker looks for (\<open>WhatsApp reach-out timelock (error 463)\<close>) exactly when the code is 463, and is
  the error itself for every other code; an error that wraps \<open>ErrReachoutTimelock\<close> is marked as
  well; an error that wraps neither sentinel is returned unchanged.
\<close>

theorem reachout_error_marked:
  assumes "send_failed url_valid c e to body kind url filename caption res"
  shows "(\<forall>t code. e = server_error t code \<longrightarrow> set code \<subseteq> set ''0123456789'' \<longrightarrow>
       (if code = ''463''
        then \<exists>e'. res = Inl e' \<and> contains_sub (err_text e') ''WhatsApp reach-out timelock (error 463)''
               \<and> errors_is e' (\<lambda>s. s = ReachoutTimelock)
        else res = Inl e))
    \<and> (errors_is e (\<lambda>s. s = ReachoutTimelock) \<longrightarrow>
        (\<exists>e'. res = Inl e' \<and> contains_sub (err_text e') ''WhatsApp reach-out timelock (error 463)''
               \<and> errors_is e' (\<lambda>s. s = ReachoutTimelock)))
    \<and> (\<not> errors_is e (\<lambda>s. s = ReachoutTimelock) \<longrightarrow> \<not> errors_is e (\<lambda>s. \<exists>t. s = ServerReturned t) \<longrightarrow> res = Inl e)"
proof -
  note res = send_failed_result [OF assms]
  have marked: "\<exists>e'. res = Inl e' \<and> contains_sub (err_text e') ''WhatsApp reach-out timelock (error 463)''
      \<and> errors_is e' (\<lambda>s. s = ReachoutTimelock)" if "IsReachoutTimelockError (Some e)"
    using normalize_marked [OF that] that res
    by (simp add: timelock_marker_def normalizeWhatsAppError_def)
  have same: "res = Inl e" if "\<not> IsReachoutTimelockError (Some e)"
    using res that by (simp add: normalizeWhatsAppError_def)
  have wrapped: "IsReachoutTimelockError (Some e)" if "errors_is e (\<lambda>s. s = ReachoutTimelock)"
    using that by (simp add: IsReachoutTimelockError_def is_reachout_def [abs_def])
  have "is_server_returned = (\<lambda>s. \<exists>t. s = ServerReturned t)"
    by (auto simp: is_server_returned_def fun_eq_iff split: sentinel.splits)
  then have other: "\<not> IsReachoutTimelockError (Some e)"
    if "\<not> errors_is e (\<lambda>s. s = ReachoutTimelock)" "\<not> errors_is e (\<lambda>s. \<exists>t. s = ServerReturned t)"
    using that by (simp add: IsReachoutTimelockError_def is_reachout_def [abs_def])
  show ?thesis using marked same wrapped other server_error_463 by auto
qed

definition sample_463 :: err where
  "sample_463 = server_error ''server returned error'' ''463''"

definition sample_media_ctx :: ctx where
  "sample_media_ctx = sample_ctx\<lparr>c_wa := (\<lambda>k. if k = 0 then Inr ''up'' else Inl sample_463),
     c_http := (\<lambda>_. Inr \<lparr>ha_code = 200, ha_status = ''200 OK'', ha_type = ''image/png'', ha_body = Inr ''png''\<rparr>)\<rparr>"

theorem reachout_error_marked_witness:
  "\<exists>e'. fst (wa_SendMedia (\<lambda>_. True) sample_media_ctx ''62812'' ''image'' ''u'' ''f'' ''c'') = Inl e'
    \<and> contains_sub (err_text e') ''WhatsApp reach-out timelock (error 463)''"
proof -
  have "send_failed (\<lambda>_. True) sample_media_ctx sample_463 ''62812'' [] ''image'' ''u'' ''f'' ''c''
      (fst (wa_SendMedia (\<lambda>_. True) sample_media_ctx ''62812'' ''image'' ''u'' ''f'' ''c''))"
    by (simp add: send_failed_def sample_media_ctx_def)
  from reachout_error_marked [OF this, THEN conjunct1, rule_format, of "''server returned error''" "''463''"]
  show ?thesis by (auto simp: sample_463_def)
qed

text \<open>A text goes to a number of one or more decimal digits, and at most one message leaves per call.\<close>

lemma SendText_destination:
  assumes "o' \<in> set (snd (wa_SendText c to body))"
  shows "og_user o' \<noteq> [] \<and> set (og_user o') \<subseteq> set ''0123456789'' \<and> og_message o' = Conversation body"
  using assms by (auto simp: wa_SendText_def Let_def digits_def split: sum.splits if_splits)

lemma Send_once: "length (snd (wa_SendText c to body)) \<le> 1" "length (snd (wa_SendMedia v c to k u n b)) \<le> 1"
  by (simp_all add: wa_SendText_def wa_SendMedia_def Let_def split: sum.split)

end
