(* ===== verification/Secret_Model.thy ===== *)
theory Secret_Model
  imports Gateway_Prelude
begin

text \<open>
  \<open>internal/secret/secret.go\<close>: \<open>Encrypt\<close> and \<open>Decrypt\<close>, with the standard base64 encoding written out.
  SHA-256 and AES-GCM are parameters, collected in a \<open>cipher\<close>; \<open>cipher_lawful\<close> states what the code
  relies on.
\<close>

section \<open>Base64\<close>

definition b64_alphabet :: string where
  "b64_alphabet = ''ABCDEFGHIJKLMNOPQRSTUVWXYZabcdefghijklmnopqrstuvwxyz0123456789+/''"

definition b64_char :: "nat \<Rightarrow> char" where
  "b64_char n = b64_alphabet ! n"

definition b64_val :: "char \<Rightarrow> nat option" where
  "b64_val c = map_option fst (find (\<lambda>(i, d). d = c) (enumerate 0 b64_alphabet))"

abbreviation byte :: "char \<Rightarrow> nat" where "byte c \<equiv> of_char c"
abbreviation chr :: "nat \<Rightarrow> char" where "chr n \<equiv> char_of n"

text \<open>The four digits of three bytes.\<close>

definition digit0 :: "nat \<Rightarrow> nat" where "digit0 a = a div 4"
definition digit1 :: "nat \<Rightarrow> nat \<Rightarrow> nat" where "digit1 a b = (a mod 4) * 16 + b div 16"
definition digit2 :: "nat \<Rightarrow> nat \<Rightarrow> nat" where "digit2 b c = (b mod 16) * 4 + c div 64"
definition digit3 :: "nat \<Rightarrow> nat" where "digit3 c = c mod 64"

definition byte0 :: "nat \<Rightarrow> nat \<Rightarrow> nat" where "byte0 w x = w * 4 + x div 16"
definition byte1 :: "nat \<Rightarrow> nat \<Rightarrow> nat" where "byte1 x y = (x mod 16) * 16 + y div 4"
definition byte2 :: "nat \<Rightarrow> nat \<Rightarrow> nat" where "byte2 y z = (y mod 4) * 64 + z"

fun b64_encode :: "string \<Rightarrow> string" where
  "b64_encode [] = []"
| "b64_encode [a] = [b64_char (digit0 (byte a)), b64_char (digit1 (byte a) 0), CHR ''='', CHR ''='']"
| "b64_encode [a, b] = [b64_char (digit0 (byte a)), b64_char (digit1 (byte a) (byte b)),
     b64_char (digit2 (byte b) 0), CHR ''='']"
| "b64_encode (a # b # c # s) = b64_char (digit0 (byte a)) # b64_char (digit1 (byte a) (byte b))
     # b64_char (digit2 (byte b) (byte c)) # b64_char (digit3 (byte c)) # b64_encode s"

text \<open>
  \<open>StdEncoding.DecodeString\<close>: line breaks are skipped, the padding is required and stands at the end
  only, the unused bits of the last digit are not checked.
\<close>

fun b64_decode_quads :: "string \<Rightarrow> string option" where
  "b64_decode_quads [] = Some []"
| "b64_decode_quads (w # x # y # z # s) =
     (case (b64_val w, b64_val x) of
        (Some w', Some x') \<Rightarrow>
          if y = CHR ''='' then
            (if z = CHR ''='' \<and> s = [] then Some [chr (byte0 w' x')] else None)
          else (case b64_val y of None \<Rightarrow> None
            | Some y' \<Rightarrow>
               if z = CHR ''='' then
                 (if s = [] then Some [chr (byte0 w' x'), chr (byte1 x' y')] else None)
               else (case (b64_val z, b64_decode_quads s) of
                   (Some z', Some r) \<Rightarrow> Some (chr (byte0 w' x') # chr (byte1 x' y') # chr (byte2 y' z') # r)
                 | _ \<Rightarrow> None))
      | _ \<Rightarrow> None)"
| "b64_decode_quads _ = None"

definition b64_decode :: "string \<Rightarrow> string option" where
  "b64_decode s = b64_decode_quads (filter (\<lambda>c. c \<noteq> CHR 0x0A \<and> c \<noteq> CHR 0x0D) s)"

section \<open>Encrypt and Decrypt\<close>

record cipher =
  sha256 :: "string \<Rightarrow> string"
  gcm_seal :: "string \<Rightarrow> string \<Rightarrow> string \<Rightarrow> string"
  gcm_open :: "string \<Rightarrow> string \<Rightarrow> string \<Rightarrow> string option"

text \<open>
  What the code relies on: SHA-256 yields 32 bytes, a key length that AES accepts, and opening what
  was sealed under the same key and nonce gives the plain text back.
\<close>

definition cipher_lawful :: "cipher \<Rightarrow> bool" where
  "cipher_lawful G \<longleftrightarrow> (\<forall>x. length (sha256 G x) = 32)
     \<and> (\<forall>k n p. length k = 32 \<longrightarrow> length n = 12 \<longrightarrow> gcm_open G k n (gcm_seal G k n p) = Some p)"

definition nonce_size :: nat where
  "nonce_size = 12"

definition aes_key_error :: "string \<Rightarrow> err option" where
  "aes_key_error k = (if length k = 16 \<or> length k = 24 \<or> length k = 32 then None
     else Some (Errorf ''crypto/aes: invalid key size'' None))"

text \<open>The nonce is the environment's first draw; request 0 is the reading of the random source.\<close>

definition Encrypt :: "cipher \<Rightarrow> ctx \<Rightarrow> string \<Rightarrow> string \<Rightarrow> err + string" where
  "Encrypt G c value key =
     (if value = [] then Inr []
      else let sum = sha256 G key in
       case aes_key_error sum of Some e \<Rightarrow> Inl e
       | None \<Rightarrow> (case c_fault c 0 of Some e \<Rightarrow> Inl e
          | None \<Rightarrow> Inr (b64_encode (c_uuid c 0 @ gcm_seal G sum (c_uuid c 0) value))))"

text \<open>Both results of the Go function: the text, empty on failure, and the error.\<close>

definition Decrypt :: "cipher \<Rightarrow> string \<Rightarrow> string \<Rightarrow> string \<times> err option" where
  "Decrypt G value key =
     (case b64_decode value of None \<Rightarrow> ([], Some (Errorf ''illegal base64 data'' None))
      | Some raw \<Rightarrow>
         let sum = sha256 G key in
         case aes_key_error sum of Some e \<Rightarrow> ([], Some e)
         | None \<Rightarrow>
            if length raw < nonce_size then ([], Some (Errorf ''invalid encrypted secret'' None))
            else case gcm_open G sum (take nonce_size raw) (drop nonce_size raw) of
                None \<Rightarrow> ([], Some (Errorf ''cipher: message authentication failed'' None))
              | Some plain \<Rightarrow> (plain, None))"

section \<open>Round trips\<close>

lemma b64_alphabet_check:
  "list_all (\<lambda>n. b64_val (b64_char n) = Some n \<and> b64_char n \<notin> {CHR ''='', CHR 0x0A, CHR 0x0D}) [0..<64]"
  by code_simp

lemma b64_val_char [simp]: "n < 64 \<Longrightarrow> b64_val (b64_char n) = Some n"
  using b64_alphabet_check by (simp add: list_all_iff)

lemma b64_char_plain [simp]:
  "n < 64 \<Longrightarrow> b64_char n \<noteq> CHR ''=''" "n < 64 \<Longrightarrow> b64_char n \<noteq> CHR 0x0A" "n < 64 \<Longrightarrow> b64_char n \<noteq> CHR 0x0D"
  using b64_alphabet_check by (auto simp: list_all_iff)

lemma byte_less [simp]: "byte c < (256 :: nat)"
  using of_char_mod_256 [of c, where 'a = nat] mod_less_divisor [of 256 "byte c"] by simp

lemma div_small: "b < 256 \<Longrightarrow> b div 16 < (16 :: nat)" "c < 256 \<Longrightarrow> c div 64 < (4 :: nat)"
  by (simp_all add: less_mult_imp_div_less)

lemma digit_less [simp]:
  "a < 256 \<Longrightarrow> digit0 a < 64" "b < 256 \<Longrightarrow> digit1 a b < 64" "c < 256 \<Longrightarrow> digit2 b c < 64" "digit3 c < 64"
  using mod_less_divisor [of 4 a] mod_less_divisor [of 16 b] div_small [of b] div_small [of c]
  unfolding digit0_def digit1_def digit2_def digit3_def by (simp_all add: less_mult_imp_div_less)

lemma digit_bytes [simp]:
  assumes "b < 256" "c < 256"
  shows "byte0 (digit0 a) (digit1 a b) = a" "byte1 (digit1 a b) (digit2 b c) = b"
    "byte2 (digit2 b c) (digit3 c) = c"
  using div_small(1) [OF assms(1)] div_small(2) [OF assms(2)]
  by (simp_all add: byte0_def byte1_def byte2_def digit0_def digit1_def digit2_def digit3_def)

lemma digit_byte0 [simp]: "b < 256 \<Longrightarrow> byte0 (digit0 a) (digit1 a b) = a"
  by (rule digit_bytes(1) [of b 0]) simp_all

lemma b64_no_breaks:
  "filter (\<lambda>c. c \<noteq> CHR 0x0A \<and> c \<noteq> CHR 0x0D) (b64_encode s) = b64_encode s"
  by (induction s rule: b64_encode.induct) simp_all

lemma b64_quads_encode: "b64_decode_quads (b64_encode s) = Some s"
  by (induction s rule: b64_encode.induct) simp_all

lemma b64_decode_encode [simp]: "b64_decode (b64_encode s) = Some s"
  by (simp add: b64_decode_def b64_no_breaks b64_quads_encode)

text \<open>
  A secret that was encrypted is recovered by decryption under the same key, for every value, the
  empty one included: \<open>Encrypt\<close> then returns the empty text, on which \<open>Decrypt\<close> fails and yields the
  empty text its callers use.
\<close>

theorem secret_round_trip:
  assumes "cipher_lawful G" "length (c_uuid c 0) = 12" "Encrypt G c value key = Inr stored"
  shows "fst (Decrypt G stored key) = value \<and> (snd (Decrypt G stored key) = None \<longleftrightarrow> value \<noteq> [])"
proof (cases "value = []")
  case True
  then have "stored = []" using assms(3) by (simp add: Encrypt_def)
  then show ?thesis using True assms(1)
    by (simp add: Decrypt_def b64_decode_def nonce_size_def aes_key_error_def cipher_lawful_def)
next
  case False
  have k: "aes_key_error (sha256 G key) = None" using assms(1) by (simp add: aes_key_error_def cipher_lawful_def)
  with assms(3) False have "stored = b64_encode (c_uuid c 0 @ gcm_seal G (sha256 G key) (c_uuid c 0) value)"
    by (auto simp: Encrypt_def Let_def split: option.splits)
  then show ?thesis using False k assms(1,2) by (simp add: Decrypt_def nonce_size_def cipher_lawful_def)
qed

text \<open>A stand-in for the algorithms: the nonce and the key act as the tag.\<close>

definition sample_cipher :: cipher where
  "sample_cipher = \<lparr>sha256 = (\<lambda>x. take 32 (x @ replicate 32 (CHR 0x00))),
     gcm_seal = (\<lambda>k n p. p @ k @ n),
     gcm_open = (\<lambda>k n s. if has_suffix s (k @ n) then Some (take (length s - length (k @ n)) s) else None)\<rparr>"

lemma sample_cipher_lawful: "cipher_lawful sample_cipher"
  by (auto simp: cipher_lawful_def sample_cipher_def has_suffix_def has_prefix_iff)

theorem secret_round_trip_witness:
  "\<exists>stored. Encrypt sample_cipher (sample_ctx\<lparr>c_uuid := (\<lambda>_. ''0123456789ab'')\<rparr>) ''whsec'' ''key'' = Inr stored
    \<and> fst (Decrypt sample_cipher stored ''key'') = ''whsec''"
  using secret_round_trip [OF sample_cipher_lawful, of "sample_ctx\<lparr>c_uuid := (\<lambda>_. ''0123456789ab'')\<rparr>" "''whsec''" "''key''"]
  by (simp add: Encrypt_def aes_key_error_def sample_cipher_def)

end
