(* ===== verification/Db_Schema.thy ===== *)
theory Db_Schema
  imports Gateway_Prelude
begin

text \<open>
  The PostgreSQL schema of \<open>migrations/*.sql\<close>: one record per table, the database as the record of
  its tables, the constraints the schema declares, and the inserts and deletes that PostgreSQL
  checks against them.  The lemmas show that the statements the components send keep every
  constraint, which is what PostgreSQL guarantees and what the components rely on.
  \<open>messages.variables\<close> is left out: no statement of the program writes or reads it.  Of \<open>audit_logs\<close>, which
  no statement writes, only \<open>created_at\<close> is kept, the column one statement reads.
\<close>

section \<open>Rows\<close>

record session_row =
  sr_id :: string
  sr_session_id :: string
  sr_status :: string
  sr_method :: "string option"
  sr_phone_number :: "string option"
  sr_qr_code :: "string option"
  sr_qr_expires_at :: "time option"
  sr_pairing_code :: "string option"
  sr_min_interval_ms :: int
  sr_jitter_ms :: int
  sr_max_messages_per_minute :: int
  sr_failure_threshold :: int
  sr_pause_duration_ms :: int
  sr_failure_count :: int
  sr_failure_window_started_at :: "time option"
  sr_throttled_until :: "time option"
  sr_created_at :: time
  sr_updated_at :: time
  sr_wa_jid :: "string option"

record message_row =
  mr_id :: string
  mr_job_id :: "string option"
  mr_session_id :: string
  mr_to :: string
  mr_type :: string
  mr_content :: "string option"
  mr_url :: "string option"
  mr_filename :: "string option"
  mr_mime_type :: "string option"
  mr_template_id :: "string option"
  mr_reference_id :: "string option"
  mr_source_type :: "string option"
  mr_source_id :: "string option"
  mr_idempotency_key_hash :: "string option"
  mr_idempotency_scope :: "string option"
  mr_idempotency_fingerprint :: "string option"
  mr_status :: string
  mr_error :: "string option"
  mr_wa_message_id :: "string option"
  mr_queued_at :: time
  mr_sent_at :: "time option"
  mr_delivered_at :: "time option"
  mr_read_at :: "time option"
  mr_created_at :: time
  mr_updated_at :: time

record queue_job_row =
  qj_id :: string
  qj_queue_name :: string
  qj_job_id :: string
  qj_name :: string
  qj_data :: json
  qj_status :: string
  qj_priority :: int
  qj_attempts :: int
  qj_max_attempts :: int
  qj_error :: "string option"
  qj_processed_at :: "time option"
  qj_completed_at :: "time option"
  qj_created_at :: time

record user_row =
  ur_id :: string
  ur_username :: string
  ur_password_hash :: string
  ur_refresh_token_hash :: "string option"
  ur_created_at :: time
  ur_updated_at :: time

record api_key_row =
  ak_id :: string
  ak_key_hash :: string
  ak_key_prefix :: string
  ak_name :: string
  ak_allowed_ips :: "string list option"
  ak_rate_limit :: "int option"
  ak_session_id :: "string option"
  ak_is_active :: bool
  ak_created_at :: time
  ak_updated_at :: time

record template_row =
  tr_id :: string
  tr_name :: string
  tr_body :: string
  tr_created_at :: time
  tr_updated_at :: time

record webhook_row =
  wr_id :: string
  wr_url :: string
  wr_events :: "string list"
  wr_secret_encrypted :: "string option"
  wr_session_ids :: "string list option"
  wr_api_key_id :: "string option"
  wr_is_active :: bool
  wr_created_at :: time
  wr_updated_at :: time

record delivery_row =
  dr_id :: string
  dr_webhook_id :: string
  dr_event_id :: string
  dr_event :: string
  dr_payload :: json
  dr_status :: string
  dr_attempts :: int
  dr_max_attempts :: int
  dr_response_status :: "int option"
  dr_error :: "string option"
  dr_queued_at :: time
  dr_delivered_at :: "time option"
  dr_updated_at :: time
  dr_created_at :: time

record db =
  t_users :: "user_row list"
  t_sessions :: "session_row list"
  t_api_keys :: "api_key_row list"
  t_templates :: "template_row list"
  t_messages :: "message_row list"
  t_webhooks :: "webhook_row list"
  t_webhook_deliveries :: "delivery_row list"
  t_queue_jobs :: "queue_job_row list"
  t_audit_logs :: "time list"

definition empty_db :: db where
  "empty_db = \<lparr>t_users = [], t_sessions = [], t_api_keys = [], t_templates = [], t_messages = [],
     t_webhooks = [], t_webhook_deliveries = [], t_queue_jobs = [], t_audit_logs = []\<rparr>"

section \<open>Constraints\<close>

text \<open>
  The partial unique index \<open>messages_idempotency_unique\<close> ranges over the rows in which both
  idempotency columns are set.
\<close>

definition idem_key :: "message_row \<Rightarrow> (string \<times> string) option" where
  "idem_key m =
     (if mr_idempotency_scope m \<noteq> None \<and> mr_idempotency_key_hash m \<noteq> None
      then Some (the (mr_idempotency_scope m), the (mr_idempotency_key_hash m)) else None)"

definition idem_keys :: "message_row list \<Rightarrow> (string \<times> string) list" where
  "idem_keys ms = map the (filter (\<lambda>k. k \<noteq> None) (map idem_key ms))"

definition keys_ok :: "db \<Rightarrow> bool" where
  "keys_ok d \<longleftrightarrow>
     distinct (map ur_id (t_users d)) \<and> distinct (map ur_username (t_users d)) \<and>
     distinct (map sr_id (t_sessions d)) \<and> distinct (map sr_session_id (t_sessions d)) \<and>
     distinct (map ak_id (t_api_keys d)) \<and> distinct (map ak_key_hash (t_api_keys d)) \<and>
     distinct (map tr_id (t_templates d)) \<and> distinct (map tr_name (t_templates d)) \<and>
     distinct (map mr_id (t_messages d)) \<and> distinct (map wr_id (t_webhooks d)) \<and>
     distinct (map dr_id (t_webhook_deliveries d)) \<and>
     distinct (map qj_id (t_queue_jobs d)) \<and> distinct (map qj_job_id (t_queue_jobs d))"

definition idem_ok :: "db \<Rightarrow> bool" where
  "idem_ok d \<longleftrightarrow> distinct (idem_keys (t_messages d))"

text \<open>The non-null values of a nullable column.\<close>

definition refs :: "('r \<Rightarrow> string option) \<Rightarrow> 'r list \<Rightarrow> string set" where
  "refs k rs = {t. Some t \<in> k ` set rs}"

definition refs_ok :: "db \<Rightarrow> bool" where
  "refs_ok d \<longleftrightarrow>
     mr_session_id ` set (t_messages d) \<subseteq> sr_session_id ` set (t_sessions d) \<and>
     refs mr_template_id (t_messages d) \<subseteq> tr_id ` set (t_templates d) \<and>
     dr_webhook_id ` set (t_webhook_deliveries d) \<subseteq> wr_id ` set (t_webhooks d) \<and>
     refs wr_api_key_id (t_webhooks d) \<subseteq> ak_id ` set (t_api_keys d)"

definition db_ok :: "db \<Rightarrow> bool" where
  "db_ok d \<longleftrightarrow> keys_ok d \<and> idem_ok d \<and> refs_ok d"

lemmas db_ok_defs = db_ok_def keys_ok_def idem_ok_def refs_ok_def

lemma refs_Nil [simp]: "refs k [] = {}"
  by (simp add: refs_def)

lemma refs_append [simp]: "refs k (xs @ [x]) = (case k x of None \<Rightarrow> {} | Some t \<Rightarrow> {t}) \<union> refs k xs"
  by (auto simp: refs_def image_iff split: option.splits)

lemma refs_delete_where: "refs k (delete_where p rs) \<subseteq> refs k rs"
  by (auto simp: refs_def image_iff)

lemma refs_update_where: "(\<And>r. p r \<Longrightarrow> k (f r) = k r) \<Longrightarrow> refs k (update_where p f rs) = refs k rs"
  by (simp add: refs_def image_update_where)

lemma db_ok_empty: "db_ok empty_db"
  by (simp add: db_ok_defs empty_db_def idem_keys_def)

lemma idem_keys_Nil [simp]: "idem_keys [] = []"
  by (simp add: idem_keys_def)

lemma idem_keys_Cons [simp]:
  "idem_keys (m # ms) = (case idem_key m of None \<Rightarrow> idem_keys ms | Some k \<Rightarrow> k # idem_keys ms)"
  by (auto simp: idem_keys_def split: option.splits)

lemma idem_keys_append [simp]: "idem_keys (xs @ ys) = idem_keys xs @ idem_keys ys"
  by (simp add: idem_keys_def)

lemma set_idem_keys: "set (idem_keys ms) = {k. \<exists>m \<in> set ms. idem_key m = Some k}"
  by (induction ms) (auto split: option.splits)

lemma idem_keys_update_where:
  "(\<And>r. p r \<Longrightarrow> idem_key (f r) = idem_key r) \<Longrightarrow> idem_keys (update_where p f ms) = idem_keys ms"
  by (simp add: idem_keys_def map_update_where)

lemma distinct_idem_keys_delete_where:
  "distinct (idem_keys ms) \<Longrightarrow> distinct (idem_keys (delete_where p ms))"
proof (induction ms)
  case (Cons m ms)
  then show ?case by (auto simp: delete_where_def set_idem_keys split: option.splits)
qed (simp add: delete_where_def)

text \<open>The uniqueness of the index, read as a statement about two rows.\<close>

lemma idem_keys_unique:
  assumes "distinct (idem_keys ms)" "m1 \<in> set ms" "m2 \<in> set ms"
    and "idem_key m1 = Some k" "idem_key m2 = Some k"
  shows "m1 = m2"
  using assms
proof (induction ms)
  case (Cons m ms)
  then show ?case by (auto simp: set_idem_keys split: option.splits)
qed simp

section \<open>Updates that touch no constrained column\<close>

definition upd_sessions where
  "upd_sessions p f d = d\<lparr>t_sessions := update_where p f (t_sessions d)\<rparr>"
definition upd_messages where
  "upd_messages p f d = d\<lparr>t_messages := update_where p f (t_messages d)\<rparr>"
definition upd_queue_jobs where
  "upd_queue_jobs p f d = d\<lparr>t_queue_jobs := update_where p f (t_queue_jobs d)\<rparr>"
definition upd_deliveries where
  "upd_deliveries p f d = d\<lparr>t_webhook_deliveries := update_where p f (t_webhook_deliveries d)\<rparr>"
definition upd_users where
  "upd_users p f d = d\<lparr>t_users := update_where p f (t_users d)\<rparr>"

lemmas upd_defs = upd_sessions_def upd_messages_def upd_queue_jobs_def upd_deliveries_def
  upd_users_def

lemma upd_select [simp]:
  "t_sessions (upd_sessions p f d) = update_where p f (t_sessions d)"
  "t_messages (upd_sessions p f d) = t_messages d"
  "t_queue_jobs (upd_sessions p f d) = t_queue_jobs d"
  "t_messages (upd_messages q g d) = update_where q g (t_messages d)"
  "t_sessions (upd_messages q g d) = t_sessions d"
  "t_queue_jobs (upd_messages q g d) = t_queue_jobs d"
  "t_queue_jobs (upd_queue_jobs r h d) = update_where r h (t_queue_jobs d)"
  "t_sessions (upd_queue_jobs r h d) = t_sessions d"
  "t_messages (upd_queue_jobs r h d) = t_messages d"
  by (simp_all add: upd_defs)

lemma db_ok_upd_sessions:
  assumes "db_ok d" "\<And>r. p r \<Longrightarrow> sr_id (f r) = sr_id r"
    "\<And>r. p r \<Longrightarrow> sr_session_id (f r) = sr_session_id r"
  shows "db_ok (upd_sessions p f d)"
  using assms by (simp add: db_ok_defs upd_sessions_def map_update_where image_update_where)

lemma db_ok_upd_messages:
  assumes "db_ok d" "\<And>r. p r \<Longrightarrow> mr_id (f r) = mr_id r"
    "\<And>r. p r \<Longrightarrow> mr_session_id (f r) = mr_session_id r"
    "\<And>r. p r \<Longrightarrow> mr_template_id (f r) = mr_template_id r"
    "\<And>r. p r \<Longrightarrow> idem_key (f r) = idem_key r"
  shows "db_ok (upd_messages p f d)"
  using assms by (simp add: db_ok_defs upd_messages_def map_update_where image_update_where
      idem_keys_update_where refs_update_where)

lemma db_ok_upd_queue_jobs:
  assumes "db_ok d" "\<And>r. p r \<Longrightarrow> qj_id (f r) = qj_id r"
    "\<And>r. p r \<Longrightarrow> qj_job_id (f r) = qj_job_id r"
  shows "db_ok (upd_queue_jobs p f d)"
  using assms by (simp add: db_ok_defs upd_queue_jobs_def map_update_where)

lemma db_ok_upd_deliveries:
  assumes "db_ok d" "\<And>r. p r \<Longrightarrow> dr_id (f r) = dr_id r"
    "\<And>r. p r \<Longrightarrow> dr_webhook_id (f r) = dr_webhook_id r"
  shows "db_ok (upd_deliveries p f d)"
  using assms by (simp add: db_ok_defs upd_deliveries_def map_update_where image_update_where)

lemma db_ok_upd_users:
  assumes "db_ok d" "\<And>r. p r \<Longrightarrow> ur_id (f r) = ur_id r"
    "\<And>r. p r \<Longrightarrow> ur_username (f r) = ur_username r"
  shows "db_ok (upd_users p f d)"
  using assms by (simp add: db_ok_defs upd_users_def map_update_where)

section \<open>Inserts and deletes, checked against the constraints\<close>

definition insert_message :: "message_row \<Rightarrow> db \<Rightarrow> err + db" where
  "insert_message m d =
     (if length (coalesce (mr_idempotency_scope m)) > 128
        \<or> length (coalesce (mr_idempotency_key_hash m)) > 64
        \<or> length (coalesce (mr_idempotency_fingerprint m)) > 64
      then Inl string_too_long
      else if mr_id m \<in> mr_id ` set (t_messages d)
        \<or> (idem_key m \<noteq> None \<and> idem_key m \<in> idem_key ` set (t_messages d))
      then Inl unique_violation
      else if mr_session_id m \<notin> sr_session_id ` set (t_sessions d)
        \<or> (mr_template_id m \<noteq> None
            \<and> the (mr_template_id m) \<notin> tr_id ` set (t_templates d))
      then Inl foreign_key_violation
      else Inr (d\<lparr>t_messages := t_messages d @ [m]\<rparr>))"

definition insert_queue_job :: "queue_job_row \<Rightarrow> db \<Rightarrow> err + db" where
  "insert_queue_job j d =
     (if qj_id j \<in> qj_id ` set (t_queue_jobs d) \<or> qj_job_id j \<in> qj_job_id ` set (t_queue_jobs d)
      then Inl unique_violation
      else Inr (d\<lparr>t_queue_jobs := t_queue_jobs d @ [j]\<rparr>))"

definition insert_session :: "session_row \<Rightarrow> db \<Rightarrow> err + db" where
  "insert_session s d =
     (if sr_id s \<in> sr_id ` set (t_sessions d)
        \<or> sr_session_id s \<in> sr_session_id ` set (t_sessions d)
      then Inl unique_violation
      else Inr (d\<lparr>t_sessions := t_sessions d @ [s]\<rparr>))"

definition insert_delivery :: "delivery_row \<Rightarrow> db \<Rightarrow> err + db" where
  "insert_delivery r d =
     (if dr_id r \<in> dr_id ` set (t_webhook_deliveries d) then Inl unique_violation
      else if dr_webhook_id r \<notin> wr_id ` set (t_webhooks d) then Inl foreign_key_violation
      else Inr (d\<lparr>t_webhook_deliveries := t_webhook_deliveries d @ [r]\<rparr>))"

text \<open>\<open>messages.session_id REFERENCES sessions(session_id) ON DELETE RESTRICT\<close>.\<close>

definition delete_session_rows :: "string \<Rightarrow> db \<Rightarrow> err + db" where
  "delete_session_rows i d =
     (if i \<in> sr_session_id ` set (t_sessions d) \<and> i \<in> mr_session_id ` set (t_messages d)
      then Inl foreign_key_violation
      else Inr (d\<lparr>t_sessions := delete_where (\<lambda>s. sr_session_id s = i) (t_sessions d)\<rparr>))"

text \<open>\<open>messages.template_id REFERENCES templates(id)\<close>, with the default action.\<close>

definition delete_template_rows :: "string \<Rightarrow> db \<Rightarrow> err + db" where
  "delete_template_rows i d =
     (if i \<in> tr_id ` set (t_templates d) \<and> Some i \<in> mr_template_id ` set (t_messages d)
      then Inl foreign_key_violation
      else Inr (d\<lparr>t_templates := delete_where (\<lambda>t. tr_id t = i) (t_templates d)\<rparr>))"

text \<open>\<open>webhook_deliveries.webhook_id REFERENCES webhooks(id) ON DELETE CASCADE\<close>.\<close>

definition delete_webhook_rows :: "string \<Rightarrow> db \<Rightarrow> db" where
  "delete_webhook_rows i d =
     d\<lparr>t_webhooks := delete_where (\<lambda>w. wr_id w = i) (t_webhooks d),
       t_webhook_deliveries := delete_where (\<lambda>r. dr_webhook_id r = i) (t_webhook_deliveries d)\<rparr>"

text \<open>\<open>webhooks.api_key_id REFERENCES api_keys(id) ON DELETE SET NULL\<close>.\<close>

definition delete_api_key_rows :: "string \<Rightarrow> db \<Rightarrow> db" where
  "delete_api_key_rows i d =
     d\<lparr>t_api_keys := delete_where (\<lambda>k. ak_id k = i) (t_api_keys d),
       t_webhooks := update_where (\<lambda>w. wr_api_key_id w = Some i)
         (\<lambda>w. w\<lparr>wr_api_key_id := None\<rparr>) (t_webhooks d)\<rparr>"

definition delete_message_rows :: "string \<Rightarrow> db \<Rightarrow> db" where
  "delete_message_rows i d =
     d\<lparr>t_messages := delete_where (\<lambda>m. mr_id m = i) (t_messages d)\<rparr>"

text \<open>When a checked statement succeeds, and what it then does.\<close>

lemma insert_message_Inr:
  "insert_message m d = Inr d' \<longleftrightarrow>
     d' = d\<lparr>t_messages := t_messages d @ [m]\<rparr>
     \<and> length (coalesce (mr_idempotency_scope m)) \<le> 128
     \<and> length (coalesce (mr_idempotency_key_hash m)) \<le> 64
     \<and> length (coalesce (mr_idempotency_fingerprint m)) \<le> 64
     \<and> mr_id m \<notin> mr_id ` set (t_messages d)
     \<and> (\<forall>k. idem_key m = Some k \<longrightarrow> k \<notin> set (idem_keys (t_messages d)))
     \<and> mr_session_id m \<in> sr_session_id ` set (t_sessions d)
     \<and> (\<forall>t. mr_template_id m = Some t \<longrightarrow> t \<in> tr_id ` set (t_templates d))"
proof -
  have "(idem_key m \<noteq> None \<and> idem_key m \<in> idem_key ` set (t_messages d)) \<longleftrightarrow>
      \<not> (\<forall>k. idem_key m = Some k \<longrightarrow> k \<notin> set (idem_keys (t_messages d)))"
    by (cases "idem_key m") (force simp: set_idem_keys image_iff)+
  then show ?thesis
    by (cases "mr_template_id m") (simp_all add: insert_message_def not_less, blast+)
qed

lemma insert_queue_job_Inr:
  "insert_queue_job j d = Inr d' \<longleftrightarrow>
     d' = d\<lparr>t_queue_jobs := t_queue_jobs d @ [j]\<rparr>
     \<and> qj_id j \<notin> qj_id ` set (t_queue_jobs d) \<and> qj_job_id j \<notin> qj_job_id ` set (t_queue_jobs d)"
  by (simp add: insert_queue_job_def) blast

lemma insert_session_Inr:
  "insert_session s d = Inr d' \<longleftrightarrow>
     d' = d\<lparr>t_sessions := t_sessions d @ [s]\<rparr>
     \<and> sr_id s \<notin> sr_id ` set (t_sessions d)
     \<and> sr_session_id s \<notin> sr_session_id ` set (t_sessions d)"
  by (simp add: insert_session_def) blast

lemma insert_delivery_Inr:
  "insert_delivery r d = Inr d' \<longleftrightarrow>
     d' = d\<lparr>t_webhook_deliveries := t_webhook_deliveries d @ [r]\<rparr>
     \<and> dr_id r \<notin> dr_id ` set (t_webhook_deliveries d) \<and> dr_webhook_id r \<in> wr_id ` set (t_webhooks d)"
  by (simp add: insert_delivery_def) blast

lemma delete_session_rows_Inr:
  "delete_session_rows i d = Inr d' \<longleftrightarrow>
     d' = d\<lparr>t_sessions := delete_where (\<lambda>s. sr_session_id s = i) (t_sessions d)\<rparr>
     \<and> (i \<notin> sr_session_id ` set (t_sessions d) \<or> i \<notin> mr_session_id ` set (t_messages d))"
  by (simp add: delete_session_rows_def) blast

lemma delete_template_rows_Inr:
  "delete_template_rows i d = Inr d' \<longleftrightarrow>
     d' = d\<lparr>t_templates := delete_where (\<lambda>t. tr_id t = i) (t_templates d)\<rparr>
     \<and> (i \<notin> tr_id ` set (t_templates d) \<or> Some i \<notin> mr_template_id ` set (t_messages d))"
  by (simp add: delete_template_rows_def) blast

lemmas statement_Inr = insert_message_Inr insert_queue_job_Inr insert_session_Inr
  insert_delivery_Inr delete_session_rows_Inr delete_template_rows_Inr

text \<open>Every statement keeps the constraints.\<close>

lemma insert_message_ok: "db_ok d \<Longrightarrow> insert_message m d = Inr d' \<Longrightarrow> db_ok d'"
  by (simp add: insert_message_Inr db_ok_defs split: option.split)

lemma insert_queue_job_ok: "db_ok d \<Longrightarrow> insert_queue_job j d = Inr d' \<Longrightarrow> db_ok d'"
  by (simp add: insert_queue_job_Inr db_ok_defs)

lemma insert_session_ok: "db_ok d \<Longrightarrow> insert_session s d = Inr d' \<Longrightarrow> db_ok d'"
  by (simp add: insert_session_Inr db_ok_defs subset_insertI2)

lemma insert_delivery_ok: "db_ok d \<Longrightarrow> insert_delivery r d = Inr d' \<Longrightarrow> db_ok d'"
  by (simp add: insert_delivery_Inr db_ok_defs)

text \<open>Deleting the rows of one key keeps the references to the other keys.\<close>

lemma subset_image_delete:
  "A \<subseteq> k ` set rs \<Longrightarrow> i \<notin> A \<Longrightarrow> A \<subseteq> k ` {r \<in> set rs. k r \<noteq> i}"
  by blast

lemma delete_session_rows_ok:
  assumes "db_ok d" "delete_session_rows i d = Inr d'"
  shows "db_ok d'"
proof -
  have "mr_session_id ` set (t_messages d) \<subseteq> sr_session_id ` {s \<in> set (t_sessions d). sr_session_id s \<noteq> i}"
    using assms by (intro subset_image_delete) (auto simp: delete_session_rows_Inr db_ok_defs)
  then show ?thesis
    using assms by (simp add: delete_session_rows_Inr db_ok_defs distinct_map_delete_where)
qed

lemma delete_template_rows_ok:
  assumes "db_ok d" "delete_template_rows i d = Inr d'"
  shows "db_ok d'"
proof -
  have "refs mr_template_id (t_messages d) \<subseteq> tr_id ` {t \<in> set (t_templates d). tr_id t \<noteq> i}"
    using assms by (intro subset_image_delete) (auto simp: delete_template_rows_Inr db_ok_defs refs_def)
  then show ?thesis
    using assms by (simp add: delete_template_rows_Inr db_ok_defs distinct_map_delete_where)
qed

lemma delete_webhook_rows_ok:
  assumes "db_ok d"
  shows "db_ok (delete_webhook_rows i d)"
proof -
  have "dr_webhook_id ` {r \<in> set (t_webhook_deliveries d). dr_webhook_id r \<noteq> i}
      \<subseteq> wr_id ` {w \<in> set (t_webhooks d). wr_id w \<noteq> i}"
    using assms by (intro subset_image_delete) (auto simp: db_ok_defs)
  moreover have "refs wr_api_key_id (delete_where (\<lambda>w. wr_id w = i) (t_webhooks d))
      \<subseteq> ak_id ` set (t_api_keys d)"
    using assms refs_delete_where [of wr_api_key_id "\<lambda>w. wr_id w = i" "t_webhooks d"]
    by (simp add: db_ok_defs) (blast intro: subset_trans)
  ultimately show ?thesis
    using assms by (simp add: delete_webhook_rows_def db_ok_defs distinct_map_delete_where)
qed

lemma delete_api_key_rows_ok:
  assumes "db_ok d"
  shows "db_ok (delete_api_key_rows i d)"
proof -
  let ?w = "update_where (\<lambda>w. wr_api_key_id w = Some i) (\<lambda>w. w\<lparr>wr_api_key_id := None\<rparr>) (t_webhooks d)"
  have "refs wr_api_key_id ?w \<subseteq> refs wr_api_key_id (t_webhooks d) - {i}"
    by (auto simp: refs_def set_update_where image_iff split: if_splits)
  then have "refs wr_api_key_id ?w \<subseteq> ak_id ` {k \<in> set (t_api_keys d). ak_id k \<noteq> i}"
    using assms by (intro subset_image_delete) (auto simp: db_ok_defs)
  then show ?thesis
    using assms by (simp add: delete_api_key_rows_def db_ok_defs distinct_map_delete_where
        map_update_where image_update_where)
qed

lemma delete_message_rows_ok:
  assumes "db_ok d"
  shows "db_ok (delete_message_rows i d)"
proof -
  have "refs mr_template_id (delete_where (\<lambda>m. mr_id m = i) (t_messages d)) \<subseteq> tr_id ` set (t_templates d)"
    using assms refs_delete_where [of mr_template_id "\<lambda>m. mr_id m = i" "t_messages d"]
    by (simp add: db_ok_defs) (blast intro: subset_trans)
  moreover have "mr_session_id ` {m \<in> set (t_messages d). mr_id m \<noteq> i} \<subseteq> sr_session_id ` set (t_sessions d)"
    using assms by (auto simp: db_ok_defs)
  ultimately show ?thesis
    using assms by (simp add: delete_message_rows_def db_ok_defs distinct_map_delete_where
        distinct_idem_keys_delete_where)
qed

lemmas schema_preserved = insert_message_ok insert_queue_job_ok insert_session_ok
  insert_delivery_ok delete_session_rows_ok delete_template_rows_ok delete_webhook_rows_ok
  delete_api_key_rows_ok delete_message_rows_ok db_ok_upd_sessions db_ok_upd_messages
  db_ok_upd_queue_jobs db_ok_upd_deliveries db_ok_upd_users

section \<open>A sample database\<close>

text \<open>One connected session and nothing else, for the concrete examples.\<close>

definition sample_session_row :: session_row where
  "sample_session_row = \<lparr>sr_id = ''r1'', sr_session_id = ''main'', sr_status = ''connected'',
     sr_method = Some ''qr'', sr_phone_number = Some ''628123'', sr_qr_code = None,
     sr_qr_expires_at = None, sr_pairing_code = None, sr_min_interval_ms = 3000,
     sr_jitter_ms = 2000, sr_max_messages_per_minute = 20, sr_failure_threshold = 5,
     sr_pause_duration_ms = 300000, sr_failure_count = 0, sr_failure_window_started_at = None,
     sr_throttled_until = None, sr_created_at = 0, sr_updated_at = 0,
     sr_wa_jid = Some ''628123@s.whatsapp.net''\<rparr>"

definition sample_db :: db where
  "sample_db = empty_db\<lparr>t_sessions := [sample_session_row]\<rparr>"

lemma sample_db_simps [simp]:
  "t_sessions sample_db = [sample_session_row]" "t_messages sample_db = []"
  "t_queue_jobs sample_db = []" "t_templates sample_db = []" "t_webhooks sample_db = []"
  "t_webhook_deliveries sample_db = []" "t_users sample_db = []" "t_api_keys sample_db = []"
  "sr_session_id sample_session_row = ''main''"
  by (simp_all add: sample_db_def empty_db_def sample_session_row_def)

lemma sample_db_ok [simp]: "db_ok sample_db"
  by (simp add: db_ok_defs)

end
