(* ===== verification/Postgres_Store.thy ===== *)
theory Postgres_Store
  imports Store_Iface Db_Schema
begin

text \<open>
  \<open>store.Postgres\<close>: every method as the SQL statements it sends, over the tables of \<open>Db_Schema\<close>.  The
  parameter \<open>uuid_in\<close> is PostgreSQL's input function of the type \<open>uuid\<close>.  The lemmas show that
  every method keeps the schema's constraints, that the store satisfies the interface's laws, that
  \<open>PutMessage\<close> is atomic, and what the upsert of \<open>PutSession\<close> leaves untouched.
\<close>

type_synonym uuid_input = "string \<Rightarrow> string option"

section \<open>Rows as Go values\<close>

definition message_count :: "db \<Rightarrow> string \<Rightarrow> int" where
  "message_count d i = int (length (filter (\<lambda>m. mr_session_id m = i) (t_messages d)))"

definition session_of_row :: "db \<Rightarrow> session_row \<Rightarrow> session" where
  "session_of_row d r = \<lparr>s_ID = sr_id r, s_SessionID = sr_session_id r, s_Status = sr_status r,
     s_Method = coalesce (sr_method r), s_PhoneNumber = coalesce (sr_phone_number r),
     s_QRCode = coalesce (sr_qr_code r), s_PairingCode = coalesce (sr_pairing_code r),
     s_QRExpiresAt = sr_qr_expires_at r, s_WAJID = coalesce (sr_wa_jid r),
     s_MessageCount = message_count d (sr_session_id r),
     s_CreatedAt = sr_created_at r, s_UpdatedAt = sr_updated_at r\<rparr>"

text \<open>The columns \<open>ListMessages\<close> selects; the others keep Go's zero value.\<close>

definition listed_message :: "message_row \<Rightarrow> message" where
  "listed_message r = zero_message\<lparr>m_ID := mr_id r, m_JobID := coalesce (mr_job_id r),
     m_SessionID := mr_session_id r, m_To := mr_to r, m_Type := mr_type r,
     m_Content := coalesce (mr_content r), m_Status := mr_status r,
     m_WAID := coalesce (mr_wa_message_id r), m_Error := coalesce (mr_error r),
     m_CreatedAt := mr_created_at r\<rparr>"

text \<open>The columns \<open>GetMessageByWAID\<close> selects.\<close>

definition receipt_message :: "message_row \<Rightarrow> message" where
  "receipt_message r = zero_message\<lparr>m_ID := mr_id r, m_SessionID := mr_session_id r,
     m_To := mr_to r, m_Type := mr_type r, m_Content := coalesce (mr_content r),
     m_Status := mr_status r, m_ReferenceID := coalesce (mr_reference_id r),
     m_SourceType := coalesce (mr_source_type r), m_SourceID := coalesce (mr_source_id r)\<rparr>"

section \<open>Sessions\<close>

definition pg_ListSessions :: "ctx \<Rightarrow> db \<Rightarrow> err + session list" where
  "pg_ListSessions c d = (case c_fault c 0 of Some e \<Rightarrow> Inl e
     | None \<Rightarrow> Inr (map (session_of_row d) (sort_key (\<lambda>r. - sr_created_at r) (t_sessions d))))"

definition pg_GetSession :: "ctx \<Rightarrow> string \<Rightarrow> db \<Rightarrow> err + session option" where
  "pg_GetSession c i d = (case c_fault c 0 of Some e \<Rightarrow> Inl e
     | None \<Rightarrow> Inr (map_option (session_of_row d) (find (\<lambda>r. sr_session_id r = i) (t_sessions d))))"

text \<open>The row a new session gets: the written columns, and the schema's defaults elsewhere.\<close>

definition new_session_row :: "ctx \<Rightarrow> session \<Rightarrow> session_row" where
  "new_session_row c v = \<lparr>sr_id = c_gen c, sr_session_id = s_SessionID v, sr_status = s_Status v,
     sr_method = Some (s_Method v), sr_phone_number = Some (s_PhoneNumber v), sr_qr_code = None,
     sr_qr_expires_at = None, sr_pairing_code = None, sr_min_interval_ms = 3000,
     sr_jitter_ms = 2000, sr_max_messages_per_minute = 20, sr_failure_threshold = 5,
     sr_pause_duration_ms = 300000, sr_failure_count = 0, sr_failure_window_started_at = None,
     sr_throttled_until = None, sr_created_at = s_CreatedAt v, sr_updated_at = s_UpdatedAt v,
     sr_wa_jid = nullif (s_WAJID v)\<rparr>"

text \<open>The \<open>DO UPDATE SET\<close> of the upsert.\<close>

definition session_put_row :: "session \<Rightarrow> session_row \<Rightarrow> session_row" where
  "session_put_row v r = r\<lparr>sr_status := s_Status v, sr_method := Some (s_Method v),
     sr_phone_number := Some (s_PhoneNumber v), sr_updated_at := s_UpdatedAt v\<rparr>"

definition pg_PutSession :: "ctx \<Rightarrow> session \<Rightarrow> db \<Rightarrow> err option \<times> db" where
  "pg_PutSession c v d = (case c_fault c 0 of Some e \<Rightarrow> (Some e, d)
     | None \<Rightarrow>
        if s_SessionID v \<in> sr_session_id ` set (t_sessions d)
        then (None, upd_sessions (\<lambda>r. sr_session_id r = s_SessionID v) (session_put_row v) d)
        else (case insert_session (new_session_row c v) d of
                Inl e \<Rightarrow> (Some e, d) | Inr d' \<Rightarrow> (None, d')))"

definition session_update_row ::
  "time \<Rightarrow> string \<Rightarrow> string \<Rightarrow> string \<Rightarrow> string \<Rightarrow> session_row \<Rightarrow> session_row" where
  "session_update_row now status qrCode pairingCode phone r = r\<lparr>sr_status := status,
     sr_qr_code := nullif qrCode, sr_pairing_code := nullif pairingCode,
     sr_qr_expires_at := (if qrCode = [] then None else sr_qr_expires_at r),
     sr_phone_number := nullif phone, sr_updated_at := now\<rparr>"

definition pg_UpdateSession ::
  "ctx \<Rightarrow> string \<Rightarrow> string \<Rightarrow> string \<Rightarrow> string \<Rightarrow> string \<Rightarrow> db \<Rightarrow> err option \<times> db" where
  "pg_UpdateSession c i status qrCode pairingCode phone d =
     (case c_fault c 0 of Some e \<Rightarrow> (Some e, d)
      | None \<Rightarrow> (None, upd_sessions (\<lambda>r. sr_session_id r = i)
          (session_update_row (c_now c) status qrCode pairingCode phone) d))"

definition pg_SetSessionQRExpiry :: "ctx \<Rightarrow> string \<Rightarrow> time option \<Rightarrow> db \<Rightarrow> err option \<times> db" where
  "pg_SetSessionQRExpiry c i expiry d = (case c_fault c 0 of Some e \<Rightarrow> (Some e, d)
     | None \<Rightarrow> (None, upd_sessions (\<lambda>r. sr_session_id r = i)
         (\<lambda>r. r\<lparr>sr_qr_expires_at := expiry, sr_updated_at := c_now c\<rparr>) d))"

definition pg_SetSessionIdentity ::
  "ctx \<Rightarrow> string \<Rightarrow> string \<Rightarrow> string \<Rightarrow> db \<Rightarrow> err option \<times> db" where
  "pg_SetSessionIdentity c i jid phone d = (case c_fault c 0 of Some e \<Rightarrow> (Some e, d)
     | None \<Rightarrow> (None, upd_sessions (\<lambda>r. sr_session_id r = i)
         (\<lambda>r. r\<lparr>sr_wa_jid := Some jid, sr_phone_number := nullif phone,
           sr_updated_at := c_now c\<rparr>) d))"

section \<open>Messages\<close>

definition status_row :: "time \<Rightarrow> string \<Rightarrow> string \<Rightarrow> string \<Rightarrow> message_row \<Rightarrow> message_row" where
  "status_row now status waID messageError r = r\<lparr>mr_status := status,
     mr_wa_message_id := nullif waID, mr_error := nullif messageError,
     mr_sent_at := (if status = ''sent'' then Some now else mr_sent_at r), mr_updated_at := now\<rparr>"

definition pg_UpdateMessageStatus ::
  "uuid_input \<Rightarrow> ctx \<Rightarrow> string \<Rightarrow> string \<Rightarrow> string \<Rightarrow> string \<Rightarrow> db \<Rightarrow> err option \<times> db" where
  "pg_UpdateMessageStatus uuid_in c i status waID messageError d =
     (case c_fault c 0 of Some e \<Rightarrow> (Some e, d)
      | None \<Rightarrow> (case uuid_in i of None \<Rightarrow> (Some invalid_text, d)
         | Some u \<Rightarrow> (None, upd_messages (\<lambda>r. mr_id r = u)
             (status_row (c_now c) status waID messageError) d)))"

definition receipt_hit :: "string \<Rightarrow> string \<Rightarrow> message_row \<Rightarrow> bool" where
  "receipt_hit sessionID waID r \<longleftrightarrow> mr_session_id r = sessionID
     \<and> mr_wa_message_id r = Some waID \<and> mr_status r \<in> {''sent'', ''delivered''}"

definition receipt_row :: "string \<Rightarrow> time \<Rightarrow> message_row \<Rightarrow> message_row" where
  "receipt_row status t r = r\<lparr>mr_status := status,
     mr_delivered_at := (if status = ''delivered'' then Some t else mr_delivered_at r),
     mr_read_at := (if status = ''read'' then Some t else mr_read_at r),
     mr_updated_at := t\<rparr>"

definition pg_UpdateMessageReceipt ::
  "ctx \<Rightarrow> string \<Rightarrow> string \<Rightarrow> string \<Rightarrow> time \<Rightarrow> db \<Rightarrow> err option \<times> db" where
  "pg_UpdateMessageReceipt c sessionID waID status occurredAt d =
     (case c_fault c 0 of Some e \<Rightarrow> (Some e, d)
      | None \<Rightarrow> (None, upd_messages (receipt_hit sessionID waID) (receipt_row status occurredAt) d))"

definition pg_GetMessageByWAID ::
  "ctx \<Rightarrow> string \<Rightarrow> string \<Rightarrow> db \<Rightarrow> err + message option" where
  "pg_GetMessageByWAID c sessionID waID d = (case c_fault c 0 of Some e \<Rightarrow> Inl e
     | None \<Rightarrow> Inr (map_option receipt_message
         (find (\<lambda>r. mr_session_id r = sessionID \<and> mr_wa_message_id r = Some waID) (t_messages d))))"

definition pg_ListMessages :: "ctx \<Rightarrow> db \<Rightarrow> err + message list" where
  "pg_ListMessages c d = (case c_fault c 0 of Some e \<Rightarrow> Inl e
     | None \<Rightarrow> Inr (map listed_message
         (take 100 (sort_key (\<lambda>r. - mr_created_at r) (t_messages d)))))"

section \<open>Queue jobs\<close>

definition job_status_row :: "time \<Rightarrow> string \<Rightarrow> string \<Rightarrow> queue_job_row \<Rightarrow> queue_job_row" where
  "job_status_row now status messageError r = r\<lparr>qj_status := status,
     qj_error := nullif messageError, qj_attempts := qj_attempts r + 1,
     qj_processed_at := (if status \<in> {''active'', ''completed'', ''failed''}
       then Some now else qj_processed_at r),
     qj_completed_at := (if status = ''completed'' then Some now else qj_completed_at r)\<rparr>"

definition pg_UpdateQueueJob ::
  "ctx \<Rightarrow> string \<Rightarrow> string \<Rightarrow> string \<Rightarrow> db \<Rightarrow> err option \<times> db" where
  "pg_UpdateQueueJob c jobID status messageError d = (case c_fault c 0 of Some e \<Rightarrow> (Some e, d)
     | None \<Rightarrow> (None, upd_queue_jobs (\<lambda>r. qj_job_id r = jobID)
         (job_status_row (c_now c) status messageError) d))"

definition pg_ListPendingQueueJobs :: "ctx \<Rightarrow> db \<Rightarrow> err + pending_job list" where
  "pg_ListPendingQueueJobs c d = (case c_fault c 0 of Some e \<Rightarrow> Inl e
     | None \<Rightarrow> Inr (map (\<lambda>r. \<lparr>pj_JobID = qj_job_id r, pj_Data = qj_data r\<rparr>)
         (take 1000 (sort_key qj_created_at
           (filter (\<lambda>r. qj_status r \<in> {''waiting'', ''retrying''}) (t_queue_jobs d))))))"

text \<open>
  \<open>PutMessage\<close>: one transaction of two inserts.  \<open>message_row_of\<close> is the first insert's row, with the
  text \<open>NULLIF($10,'')::uuid\<close> already read as \<open>t\<close>; \<open>job_row_of\<close> the second one's, whose \<open>data\<close> is the
  object \<open>jsonb_build_object\<close> builds.
\<close>

definition message_row_of :: "string \<Rightarrow> string option \<Rightarrow> time \<Rightarrow> message \<Rightarrow> message_row" where
  "message_row_of u t now v = \<lparr>mr_id = u, mr_job_id = Some (m_JobID v),
     mr_session_id = m_SessionID v, mr_to = m_To v, mr_type = m_Type v,
     mr_content = Some (m_Content v), mr_url = nullif (m_URL v),
     mr_filename = nullif (m_Filename v), mr_mime_type = nullif (m_MIMEType v),
     mr_template_id = t, mr_reference_id = nullif (m_ReferenceID v),
     mr_source_type = nullif (m_SourceType v), mr_source_id = nullif (m_SourceID v),
     mr_idempotency_key_hash = nullif (m_IdempotencyKeyHash v),
     mr_idempotency_scope = nullif (m_IdempotencyScope v),
     mr_idempotency_fingerprint = nullif (m_IdempotencyFingerprint v),
     mr_status = m_Status v, mr_error = None, mr_wa_message_id = None, mr_queued_at = now,
     mr_sent_at = None, mr_delivered_at = None, mr_read_at = None,
     mr_created_at = m_CreatedAt v, mr_updated_at = m_CreatedAt v\<rparr>"

definition job_data :: "message \<Rightarrow> json" where
  "job_data v = JObj [(''messageId'', JStr (m_ID v)), (''sessionId'', JStr (m_SessionID v)),
     (''to'', JStr (m_To v)), (''type'', JStr (m_Type v)), (''content'', JStr (m_Content v)),
     (''url'', JStr (m_URL v)), (''filename'', JStr (m_Filename v)),
     (''mimeType'', JStr (m_MIMEType v)), (''priority'', JInt (m_Priority v)),
     (''delay'', JInt (m_Delay v))]"

definition job_row_of :: "string \<Rightarrow> time \<Rightarrow> message \<Rightarrow> queue_job_row" where
  "job_row_of g now v = \<lparr>qj_id = g, qj_queue_name = queueName (m_Priority v),
     qj_job_id = m_JobID v, qj_name = ''send-message'', qj_data = job_data v,
     qj_status = ''waiting'', qj_priority = m_Priority v, qj_attempts = 0, qj_max_attempts = 3,
     qj_error = None, qj_processed_at = None, qj_completed_at = None, qj_created_at = now\<rparr>"

definition template_ref :: "uuid_input \<Rightarrow> string \<Rightarrow> err + string option" where
  "template_ref uuid_in t = (if t = [] then Inr None
     else case uuid_in t of None \<Rightarrow> Inl invalid_text | Some u \<Rightarrow> Inr (Some u))"

definition put_message_row :: "uuid_input \<Rightarrow> ctx \<Rightarrow> message \<Rightarrow> db \<Rightarrow> err + db" where
  "put_message_row uuid_in c v d = (case uuid_in (m_ID v) of None \<Rightarrow> Inl invalid_text
     | Some u \<Rightarrow> (case template_ref uuid_in (m_TemplateID v) of Inl e \<Rightarrow> Inl e
        | Inr t \<Rightarrow> insert_message (message_row_of u t (c_now c) v) d))"

definition put_job_row :: "ctx \<Rightarrow> message \<Rightarrow> db \<Rightarrow> err + db" where
  "put_job_row c v d = (if \<not> int4 (m_Priority v) \<or> \<not> int4 (m_Delay v) then Inl out_of_range
     else insert_queue_job (job_row_of (c_gen c) (c_now c) v) d)"

text \<open>Request 0 begins the transaction, 1 and 2 are the inserts, 3 commits.\<close>

definition pg_PutMessage :: "uuid_input \<Rightarrow> ctx \<Rightarrow> message \<Rightarrow> db \<Rightarrow> err option \<times> db" where
  "pg_PutMessage uuid_in c v d =
     (case c_fault c 0 of Some e \<Rightarrow> (Some e, d)
      | None \<Rightarrow>
     (case (case c_fault c 1 of Some e \<Rightarrow> Inl e | None \<Rightarrow> put_message_row uuid_in c v d) of
        Inl e \<Rightarrow> (Some e, d)
      | Inr d1 \<Rightarrow>
     (case (case c_fault c 2 of Some e \<Rightarrow> Inl e | None \<Rightarrow> put_job_row c v d1) of
        Inl e \<Rightarrow> (Some e, d)
      | Inr d2 \<Rightarrow> (case c_fault c 3 of Some e \<Rightarrow> (Some e, d) | None \<Rightarrow> (None, d2)))))"

definition postgres_store :: "uuid_input \<Rightarrow> db store" where
  "postgres_store uuid_in = \<lparr>ListSessions = pg_ListSessions, GetSession = pg_GetSession,
     PutSession = pg_PutSession, PutMessage = pg_PutMessage uuid_in,
     ListMessages = pg_ListMessages, UpdateSession = pg_UpdateSession,
     SetSessionQRExpiry = pg_SetSessionQRExpiry,
     UpdateMessageStatus = pg_UpdateMessageStatus uuid_in,
     SetSessionIdentity = pg_SetSessionIdentity, UpdateMessageReceipt = pg_UpdateMessageReceipt,
     UpdateQueueJob = pg_UpdateQueueJob, ListPendingQueueJobs = pg_ListPendingQueueJobs,
     GetMessageByWAID = pg_GetMessageByWAID\<rparr>"

lemma postgres_store_simps [simp]:
  "ListSessions (postgres_store u) = pg_ListSessions" "GetSession (postgres_store u) = pg_GetSession"
  "PutSession (postgres_store u) = pg_PutSession" "PutMessage (postgres_store u) = pg_PutMessage u"
  "ListMessages (postgres_store u) = pg_ListMessages"
  "UpdateSession (postgres_store u) = pg_UpdateSession"
  "SetSessionQRExpiry (postgres_store u) = pg_SetSessionQRExpiry"
  "UpdateMessageStatus (postgres_store u) = pg_UpdateMessageStatus u"
  "SetSessionIdentity (postgres_store u) = pg_SetSessionIdentity"
  "UpdateMessageReceipt (postgres_store u) = pg_UpdateMessageReceipt"
  "UpdateQueueJob (postgres_store u) = pg_UpdateQueueJob"
  "ListPendingQueueJobs (postgres_store u) = pg_ListPendingQueueJobs"
  "GetMessageByWAID (postgres_store u) = pg_GetMessageByWAID"
  by (simp_all add: postgres_store_def)

lemmas pg_read_defs = pg_ListSessions_def pg_GetSession_def pg_GetMessageByWAID_def
  pg_ListMessages_def pg_ListPendingQueueJobs_def

lemmas pg_write_defs = pg_PutSession_def pg_UpdateSession_def pg_SetSessionQRExpiry_def
  pg_SetSessionIdentity_def pg_UpdateMessageStatus_def pg_UpdateMessageReceipt_def
  pg_UpdateQueueJob_def

lemmas row_defs = session_put_row_def session_update_row_def status_row_def receipt_row_def
  job_status_row_def

section \<open>The schema's constraints are kept\<close>

lemma row_keys [simp]:
  "sr_id (session_put_row v r) = sr_id r" "sr_session_id (session_put_row v r) = sr_session_id r"
  "sr_id (session_update_row n a q p h r) = sr_id r"
  "sr_session_id (session_update_row n a q p h r) = sr_session_id r"
  "mr_id (status_row n a w e m) = mr_id m" "mr_id (receipt_row a t m) = mr_id m"
  "mr_session_id (status_row n a w e m) = mr_session_id m"
  "mr_session_id (receipt_row a t m) = mr_session_id m"
  "mr_template_id (status_row n a w e m) = mr_template_id m"
  "mr_template_id (receipt_row a t m) = mr_template_id m"
  "idem_key (status_row n a w e m) = idem_key m" "idem_key (receipt_row a t m) = idem_key m"
  "qj_id (job_status_row n a e j) = qj_id j" "qj_job_id (job_status_row n a e j) = qj_job_id j"
  by (simp_all add: row_defs idem_key_def)

lemma pg_PutSession_ok: "db_ok d \<Longrightarrow> db_ok (snd (pg_PutSession c v d))"
  by (auto simp: pg_PutSession_def db_ok_upd_sessions split: option.splits sum.splits
      dest: insert_session_ok)

lemma pg_UpdateSession_ok: "db_ok d \<Longrightarrow> db_ok (snd (pg_UpdateSession c i a q p h d))"
  by (simp add: pg_UpdateSession_def db_ok_upd_sessions split: option.split)

lemma pg_SetSessionQRExpiry_ok: "db_ok d \<Longrightarrow> db_ok (snd (pg_SetSessionQRExpiry c i x d))"
  by (simp add: pg_SetSessionQRExpiry_def db_ok_upd_sessions split: option.split)

lemma pg_SetSessionIdentity_ok: "db_ok d \<Longrightarrow> db_ok (snd (pg_SetSessionIdentity c i w h d))"
  by (simp add: pg_SetSessionIdentity_def db_ok_upd_sessions split: option.split)

lemma pg_UpdateMessageStatus_ok: "db_ok d \<Longrightarrow> db_ok (snd (pg_UpdateMessageStatus u c i a w e d))"
  by (simp add: pg_UpdateMessageStatus_def db_ok_upd_messages split: option.split)

lemma pg_UpdateMessageReceipt_ok: "db_ok d \<Longrightarrow> db_ok (snd (pg_UpdateMessageReceipt c i w a t d))"
  by (simp add: pg_UpdateMessageReceipt_def db_ok_upd_messages split: option.split)

lemma pg_UpdateQueueJob_ok: "db_ok d \<Longrightarrow> db_ok (snd (pg_UpdateQueueJob c i a e d))"
  by (simp add: pg_UpdateQueueJob_def db_ok_upd_queue_jobs split: option.split)

lemma pg_PutMessage_ok: "db_ok d \<Longrightarrow> db_ok (snd (pg_PutMessage u c v d))"
  by (auto simp: pg_PutMessage_def put_message_row_def put_job_row_def
      split: option.splits sum.splits if_splits dest: insert_message_ok insert_queue_job_ok)

lemmas pg_write_ok = pg_PutSession_ok pg_UpdateSession_ok pg_SetSessionQRExpiry_ok
  pg_SetSessionIdentity_ok pg_UpdateMessageStatus_ok pg_UpdateMessageReceipt_ok
  pg_UpdateQueueJob_ok pg_PutMessage_ok

section \<open>The interface's laws\<close>

definition pg_view :: "db \<Rightarrow> string \<Rightarrow> session option" where
  "pg_view d i = map_option (session_of_row d) (find (\<lambda>r. sr_session_id r = i) (t_sessions d))"

text \<open>All columns of a message row as a Go value; priority and delay are not columns.\<close>

definition message_of_row :: "message_row \<Rightarrow> message" where
  "message_of_row r = \<lparr>m_ID = mr_id r, m_JobID = coalesce (mr_job_id r),
     m_SessionID = mr_session_id r, m_To = mr_to r, m_Type = mr_type r,
     m_Content = coalesce (mr_content r), m_Status = mr_status r,
     m_WAID = coalesce (mr_wa_message_id r), m_Error = coalesce (mr_error r),
     m_ReferenceID = coalesce (mr_reference_id r), m_SourceType = coalesce (mr_source_type r),
     m_SourceID = coalesce (mr_source_id r), m_TemplateID = coalesce (mr_template_id r),
     m_URL = coalesce (mr_url r), m_Filename = coalesce (mr_filename r),
     m_MIMEType = coalesce (mr_mime_type r), m_Priority = 0, m_Delay = 0,
     m_IdempotencyScope = coalesce (mr_idempotency_scope r),
     m_IdempotencyKeyHash = coalesce (mr_idempotency_key_hash r),
     m_IdempotencyFingerprint = coalesce (mr_idempotency_fingerprint r),
     m_CreatedAt = mr_created_at r\<rparr>"

definition message_row_by :: "uuid_input \<Rightarrow> db \<Rightarrow> string \<Rightarrow> message_row option" where
  "message_row_by uuid_in d i = (case uuid_in i of None \<Rightarrow> None
     | Some u \<Rightarrow> find (\<lambda>r. mr_id r = u) (t_messages d))"

definition pg_mview :: "uuid_input \<Rightarrow> db \<Rightarrow> string \<Rightarrow> message option" where
  "pg_mview uuid_in d i = map_option message_of_row (message_row_by uuid_in d i)"

lemma find_session_upd:
  assumes "\<And>r. p r \<Longrightarrow> sr_session_id (f r) = sr_session_id r"
  shows "find (\<lambda>r. sr_session_id r = i) (update_where p f rs)
    = map_option (\<lambda>r. if p r then f r else r) (find (\<lambda>r. sr_session_id r = i) rs)"
  using assms by (simp add: find_update_where)

lemma find_message_upd:
  assumes "\<And>r. p r \<Longrightarrow> mr_id (f r) = mr_id r"
  shows "find (\<lambda>r. mr_id r = i) (update_where p f rs)
    = map_option (\<lambda>r. if p r then f r else r) (find (\<lambda>r. mr_id r = i) rs)"
  using assms by (simp add: find_update_where)

lemma session_of_row_upd [simp]:
  "session_of_row (upd_sessions p f d) = session_of_row d"
  "session_of_row (upd_queue_jobs p' f' d) = session_of_row d"
  by (simp_all add: fun_eq_iff session_of_row_def message_count_def)

text \<open>An update of the session \<open>i\<close>, as its clients see it.\<close>

lemma pg_view_upd:
  assumes "\<And>r. sr_session_id (f r) = sr_session_id r"
    and "\<And>r. session_of_row d (f r) = g (session_of_row d r)"
  shows "pg_view (upd_sessions (\<lambda>r. sr_session_id r = i) f d) j
    = (if j = i then map_option g (pg_view d i) else pg_view d j)"
proof -
  have "find (\<lambda>r. sr_session_id r = j) (t_sessions d) = Some r \<Longrightarrow> sr_session_id r = j" for r
    by (auto dest: find_SomeD)
  then show ?thesis
    using assms
    by (cases "find (\<lambda>r. sr_session_id r = j) (t_sessions d)")
       (auto simp: pg_view_def find_session_upd)
qed

lemma pg_view_update:
  assumes "pg_UpdateSession c i a q p h d = (None, d')"
  shows "pg_view d' j = (if j = i
     then map_option (\<lambda>v. v\<lparr>s_Status := a, s_QRCode := q, s_PairingCode := p, s_PhoneNumber := h,
       s_QRExpiresAt := (if q = [] then None else s_QRExpiresAt v), s_UpdatedAt := c_now c\<rparr>)
       (pg_view d i)
     else pg_view d j)"
proof -
  have "d' = upd_sessions (\<lambda>r. sr_session_id r = i) (session_update_row (c_now c) a q p h) d"
    using assms by (simp add: pg_UpdateSession_def split: option.splits)
  then show ?thesis
    by (simp only:) (rule pg_view_upd; simp add: session_of_row_def session_update_row_def)
qed

lemma pg_view_identity:
  assumes "pg_SetSessionIdentity c i w h d = (None, d')"
  shows "pg_view d' j = (if j = i
     then map_option (\<lambda>v. v\<lparr>s_WAJID := w, s_PhoneNumber := h, s_UpdatedAt := c_now c\<rparr>) (pg_view d i)
     else pg_view d j)"
proof -
  have "d' = upd_sessions (\<lambda>r. sr_session_id r = i)
      (\<lambda>r. r\<lparr>sr_wa_jid := Some w, sr_phone_number := nullif h, sr_updated_at := c_now c\<rparr>) d"
    using assms by (simp add: pg_SetSessionIdentity_def split: option.splits)
  then show ?thesis
    by (simp only:) (rule pg_view_upd; simp add: session_of_row_def)
qed

lemma pg_view_expiry:
  assumes "pg_SetSessionQRExpiry c i x d = (None, d')"
  shows "pg_view d' j = (if j = i
     then map_option (\<lambda>v. v\<lparr>s_QRExpiresAt := x, s_UpdatedAt := c_now c\<rparr>) (pg_view d i)
     else pg_view d j)"
proof -
  have "d' = upd_sessions (\<lambda>r. sr_session_id r = i)
      (\<lambda>r. r\<lparr>sr_qr_expires_at := x, sr_updated_at := c_now c\<rparr>) d"
    using assms by (simp add: pg_SetSessionQRExpiry_def split: option.splits)
  then show ?thesis
    by (simp only:) (rule pg_view_upd; simp add: session_of_row_def)
qed

text \<open>
  The upsert: on a session that exists, only the status, the method, the phone number and the update
  time change.
\<close>

lemma pg_view_None: "pg_view d i = None \<longleftrightarrow> i \<notin> sr_session_id ` set (t_sessions d)"
  by (auto simp: pg_view_def find_None_iff)

lemma pg_view_put_existing:
  assumes "pg_PutSession c v d = (None, d')" "pg_view d (s_SessionID v) \<noteq> None"
  shows "pg_view d' j = (if j = s_SessionID v
     then map_option (\<lambda>w. w\<lparr>s_Status := s_Status v, s_Method := s_Method v,
       s_PhoneNumber := s_PhoneNumber v, s_UpdatedAt := s_UpdatedAt v\<rparr>) (pg_view d (s_SessionID v))
     else pg_view d j)"
proof -
  have "d' = upd_sessions (\<lambda>r. sr_session_id r = s_SessionID v) (session_put_row v) d"
    using assms by (simp add: pg_PutSession_def pg_view_None split: option.splits)
  then show ?thesis
    by (simp only:) (rule pg_view_upd; simp add: session_of_row_def session_put_row_def)
qed

lemma pg_view_put_new:
  assumes "pg_PutSession c v d = (None, d')" "pg_view d (s_SessionID v) = None"
  shows "pg_view d' (s_SessionID v) = Some (session_of_row d (new_session_row c v))"
    and "j \<noteq> s_SessionID v \<Longrightarrow> pg_view d' j = pg_view d j"
proof -
  have new: "s_SessionID v \<notin> sr_session_id ` set (t_sessions d)"
    using assms(2) by (simp add: pg_view_None)
  with assms(1) have d': "d' = d\<lparr>t_sessions := t_sessions d @ [new_session_row c v]\<rparr>"
    by (auto simp: pg_PutSession_def insert_session_Inr split: option.splits sum.splits)
  have same: "session_of_row d' = session_of_row d"
    by (simp add: d' fun_eq_iff session_of_row_def message_count_def)
  have "find (\<lambda>r. sr_session_id r = s_SessionID v) (t_sessions d) = None"
    using new by (force simp: find_None_iff image_iff)
  then show "pg_view d' (s_SessionID v) = Some (session_of_row d (new_session_row c v))"
    by (simp add: pg_view_def same) (simp add: d' find_append new_session_row_def)
  show "j \<noteq> s_SessionID v \<Longrightarrow> pg_view d' j = pg_view d j"
    by (simp add: pg_view_def same)
       (auto simp: d' find_append new_session_row_def split: option.splits)
qed

lemma pg_put_view:
  assumes "pg_PutSession c v d = (None, d')"
  shows "\<exists>v'. pg_view d' (s_SessionID v) = Some v' \<and> s_Status v' = s_Status v
    \<and> s_Method v' = s_Method v \<and> s_PhoneNumber v' = s_PhoneNumber v
    \<and> s_UpdatedAt v' = s_UpdatedAt v \<and> s_SessionID v' = s_SessionID v"
proof (cases "pg_view d (s_SessionID v)")
  case None
  then show ?thesis
    using pg_view_put_new(1) [OF assms] by (simp add: session_of_row_def new_session_row_def)
next
  case (Some w)
  then have "s_SessionID w = s_SessionID v"
    by (auto simp: pg_view_def session_of_row_def dest: find_SomeD)
  then show ?thesis using pg_view_put_existing [OF assms, of "s_SessionID v"] Some by simp
qed

lemma pg_put_frame:
  "pg_PutSession c v d = (None, d') \<Longrightarrow> j \<noteq> s_SessionID v \<Longrightarrow> pg_view d' j = pg_view d j"
  by (cases "pg_view d (s_SessionID v)") (auto simp: pg_view_put_new pg_view_put_existing)

lemma pg_write_fail:
  "pg_PutSession c v d = (Some e, d') \<Longrightarrow> d' = d"
  "pg_UpdateSession c i a q p h d = (Some e, d') \<Longrightarrow> d' = d"
  "pg_SetSessionQRExpiry c i x d = (Some e, d') \<Longrightarrow> d' = d"
  "pg_SetSessionIdentity c i w h d = (Some e, d') \<Longrightarrow> d' = d"
  "pg_UpdateMessageStatus u c i a w y d = (Some e, d') \<Longrightarrow> d' = d"
  "pg_UpdateMessageReceipt c i w a t d = (Some e, d') \<Longrightarrow> d' = d"
  "pg_UpdateQueueJob c i a y d = (Some e, d') \<Longrightarrow> d' = d"
  by (auto simp: pg_write_defs split: option.splits sum.splits if_splits)

interpretation pg_sessions: session_store "postgres_store uuid_in" db_ok pg_view
  for uuid_in :: uuid_input
proof (unfold_locales, goal_cases)
  case 1
  then show ?case by (auto simp: pg_read_defs pg_view_def split: option.splits)
qed (auto simp: pg_write_ok pg_view_update pg_view_identity pg_view_expiry pg_put_view
    pg_put_frame dest: pg_write_fail)

lemma message_of_row_simps [simp]:
  "m_ID (message_of_row r) = mr_id r" "m_Status (message_of_row r) = mr_status r"
  "m_SessionID (message_of_row r) = mr_session_id r"
  "m_WAID (message_of_row r) = coalesce (mr_wa_message_id r)"
  by (simp_all add: message_of_row_def)

lemma message_row_byD: "message_row_by u d i = Some r \<Longrightarrow> u i = Some (mr_id r) \<and> r \<in> set (t_messages d)"
  by (auto simp: message_row_by_def dest: find_SomeD split: option.splits)

lemma message_row_by_upd:
  assumes "\<And>r. p r \<Longrightarrow> mr_id (f r) = mr_id r"
  shows "message_row_by u (upd_messages p f d) i
    = map_option (\<lambda>r. if p r then f r else r) (message_row_by u d i)"
  using assms by (simp add: message_row_by_def find_message_upd split: option.split)

lemma pg_status_row:
  assumes "pg_UpdateMessageStatus u c i a w e d = (None, d')"
  shows "message_row_by u d' j = map_option (\<lambda>r. if u i = Some (mr_id r)
    then status_row (c_now c) a w e r else r) (message_row_by u d j)"
proof -
  obtain v where v: "u i = Some v" "d' = upd_messages (\<lambda>r. mr_id r = v) (status_row (c_now c) a w e) d"
    using assms by (auto simp: pg_UpdateMessageStatus_def split: option.splits)
  then show ?thesis by (auto simp: message_row_by_upd intro!: option.map_cong)
qed

lemma pg_receipt_row:
  assumes "pg_UpdateMessageReceipt c i w a t d = (None, d')"
  shows "message_row_by u d' j = map_option (\<lambda>r. if receipt_hit i w r
    then receipt_row a t r else r) (message_row_by u d j)"
proof -
  have "d' = upd_messages (receipt_hit i w) (receipt_row a t) d"
    using assms by (simp add: pg_UpdateMessageReceipt_def split: option.splits)
  then show ?thesis by (simp add: message_row_by_upd)
qed

text \<open>
  The stored identifiers are in PostgreSQL's output form, which its input function reads as itself.
\<close>

definition pg_ok :: "uuid_input \<Rightarrow> db \<Rightarrow> bool" where
  "pg_ok uuid_in d \<longleftrightarrow> db_ok d \<and> (\<forall>i \<in> mr_id ` set (t_messages d). uuid_in i = Some i)"

lemma pg_ok_db_ok: "pg_ok u d \<Longrightarrow> db_ok d"
  by (simp add: pg_ok_def)

lemma message_row_by_self:
  assumes "pg_ok u d" "r \<in> set (t_messages d)"
  shows "message_row_by u d (mr_id r) = Some r"
  using assms by (simp add: message_row_by_def pg_ok_def db_ok_def keys_ok_def find_key_unique)

lemma pg_ids_kept:
  "mr_id ` set (t_messages (snd (pg_UpdateMessageStatus u c i a w e d))) = mr_id ` set (t_messages d)"
  "mr_id ` set (t_messages (snd (pg_UpdateMessageReceipt c i w a t d))) = mr_id ` set (t_messages d)"
  "mr_id ` set (t_messages (snd (pg_UpdateQueueJob c i a e d))) = mr_id ` set (t_messages d)"
  by (simp_all add: pg_UpdateMessageStatus_def pg_UpdateMessageReceipt_def pg_UpdateQueueJob_def
      image_update_where split: option.split)

lemma pg_ok_writes:
  assumes "pg_ok u d"
  shows "pg_ok u (snd (pg_UpdateMessageStatus u' c i a w e d))"
    and "pg_ok u (snd (pg_UpdateMessageReceipt c i w a t d))"
    and "pg_ok u (snd (pg_UpdateQueueJob c i a e d))"
  using assms unfolding pg_ok_def pg_ids_kept by (simp_all add: pg_write_ok)

lemma pg_queue_job_rows [simp]:
  "message_row_by u (snd (pg_UpdateQueueJob c i a e d)) j = message_row_by u d j"
  by (simp add: message_row_by_def pg_UpdateQueueJob_def split: option.split)

lemma message_of_status_row [simp]:
  "message_of_row (status_row n a w e r) = (message_of_row r)\<lparr>m_Status := a, m_WAID := w, m_Error := e\<rparr>"
  by (simp add: message_of_row_def status_row_def)

lemma message_of_receipt_row [simp]:
  "message_of_row (receipt_row a t r) = (message_of_row r)\<lparr>m_Status := a\<rparr>"
  by (simp add: message_of_row_def receipt_row_def)

interpretation pg_messages: message_store "postgres_store uuid_in" "pg_ok uuid_in" "pg_mview uuid_in"
  for uuid_in :: uuid_input
proof (unfold_locales, goal_cases)
  case (3 st c i a w e st' m)
  then obtain r where "message_row_by uuid_in st i = Some r" "m = message_of_row r"
    by (auto simp: pg_mview_def)
  moreover from this have "uuid_in i = Some (mr_id r)" by (auto dest: message_row_byD)
  ultimately show ?case
    using 3 pg_status_row [of uuid_in c i a w e st st' i] by (simp add: pg_mview_def)
next
  case (4 st c i a w e r st' j m')
  then show ?case
  proof (cases r)
    case None
    obtain x where x: "message_row_by uuid_in st j = Some x" "m' = message_of_row x"
      using 4(3) by (auto simp: pg_mview_def)
    have "uuid_in i \<noteq> Some (mr_id x)"
    proof
      assume "uuid_in i = Some (mr_id x)"
      then have "message_row_by uuid_in st i = Some x"
        using x message_row_byD [OF x(1)] by (simp add: message_row_by_def)
      with 4(4) x show False by (simp add: pg_mview_def)
    qed
    with x None 4(2) pg_status_row [of uuid_in c i a w e st st' j]
    show ?thesis by (simp add: pg_mview_def)
  qed (auto dest: pg_write_fail)
next
  case (7 st c i w m)
  then obtain r where r: "r \<in> set (t_messages st)" "mr_session_id r = i"
      "mr_wa_message_id r = Some w" "m = receipt_message r"
    by (auto simp: pg_GetMessageByWAID_def dest!: find_SomeD split: option.splits)
  then have "pg_mview uuid_in st (mr_id r) = Some (message_of_row r)"
    using 7(1) by (simp add: pg_mview_def message_row_by_self)
  with r show ?case
    by (intro exI [of _ "mr_id r"] exI [of _ "message_of_row r"]) (simp add: receipt_message_def zero_message_def)
next
  case (10 st c i w a t st' j)
  then show ?case
    using pg_receipt_row [of c i w a t st st' uuid_in j]
    by (cases "message_row_by uuid_in st j") (auto simp: pg_mview_def receipt_hit_def)
qed (auto simp: pg_ok_writes pg_mview_def dest: pg_write_fail)

section \<open>PutMessage\<close>

text \<open>The rows a successful \<open>PutMessage\<close> adds.\<close>

lemma pg_PutMessage_None:
  "pg_PutMessage u c v d = (None, d') \<Longrightarrow>
   \<exists>i t. u (m_ID v) = Some i \<and> template_ref u (m_TemplateID v) = Inr t
     \<and> int4 (m_Priority v) \<and> int4 (m_Delay v)
     \<and> insert_message (message_row_of i t (c_now c) v) d
         = Inr (d\<lparr>t_messages := t_messages d @ [message_row_of i t (c_now c) v]\<rparr>)
     \<and> m_JobID v \<notin> qj_job_id ` set (t_queue_jobs d)
     \<and> d' = d\<lparr>t_messages := t_messages d @ [message_row_of i t (c_now c) v],
         t_queue_jobs := t_queue_jobs d @ [job_row_of (c_gen c) (c_now c) v]\<rparr>"
  by (auto simp: pg_PutMessage_def put_message_row_def put_job_row_def job_row_of_def
      insert_queue_job_Inr split: option.splits sum.splits if_splits)
     (auto simp: insert_message_Inr)

lemma pg_PutMessage_Some: "pg_PutMessage u c v d = (Some e, d') \<Longrightarrow> d' = d"
  by (auto simp: pg_PutMessage_def split: option.splits sum.splits)

text \<open>
  C3.  \<open>Postgres.PutMessage\<close> is atomic: when it reports an error the database is unchanged;
  when it succeeds it has added exactly one message row and exactly one \<open>queue_jobs\<close> row, which
  carry the message's job identifier, status \<open>waiting\<close> and the queue of its priority, and every
  constraint of the schema still holds.
\<close>

theorem put_message_atomic:
  assumes "db_ok d" "pg_PutMessage u c v d = (r, d')"
  shows "db_ok d' \<and> (case r of
      Some e \<Rightarrow> d' = d
    | None \<Rightarrow> \<exists>m j. d' = d\<lparr>t_messages := t_messages d @ [m], t_queue_jobs := t_queue_jobs d @ [j]\<rparr>
        \<and> u (m_ID v) = Some (mr_id m) \<and> mr_job_id m = Some (m_JobID v) \<and> qj_job_id j = m_JobID v
        \<and> mr_status m = m_Status v \<and> qj_status j = ''waiting''
        \<and> qj_queue_name j = queueName (m_Priority v) \<and> qj_data j = job_data v)"
proof (cases r)
  case None
  with assms(2) obtain i t where "u (m_ID v) = Some i"
    and d': "d' = d\<lparr>t_messages := t_messages d @ [message_row_of i t (c_now c) v],
      t_queue_jobs := t_queue_jobs d @ [job_row_of (c_gen c) (c_now c) v]\<rparr>"
    by (auto dest: pg_PutMessage_None)
  then have "\<exists>m j. d' = d\<lparr>t_messages := t_messages d @ [m], t_queue_jobs := t_queue_jobs d @ [j]\<rparr>
      \<and> u (m_ID v) = Some (mr_id m) \<and> mr_job_id m = Some (m_JobID v) \<and> qj_job_id j = m_JobID v
      \<and> mr_status m = m_Status v \<and> qj_status j = ''waiting''
      \<and> qj_queue_name j = queueName (m_Priority v) \<and> qj_data j = job_data v"
    by (intro exI conjI) (rule d', simp_all add: message_row_of_def job_row_of_def)
  then show ?thesis using None assms(2) pg_PutMessage_ok [OF assms(1), of u c v] by simp
next
  case (Some e)
  with assms show ?thesis by (auto dest: pg_PutMessage_Some)
qed

definition sample_message :: message where
  "sample_message = zero_message\<lparr>m_ID := ''m1'', m_JobID := ''m1'', m_SessionID := ''main'',
     m_To := ''62811'', m_Type := ''text'', m_Content := ''hi'', m_Status := ''queued'',
     m_Priority := 7\<rparr>"

theorem put_message_atomic_witness:
  "\<exists>d'. pg_PutMessage Some sample_ctx sample_message sample_db = (None, d') \<and> db_ok d'
     \<and> length (t_messages d') = 1 \<and> map qj_queue_name (t_queue_jobs d') = [''messages_high'']"
proof -
  define d' where "d' = snd (pg_PutMessage Some sample_ctx sample_message sample_db)"
  have run: "pg_PutMessage Some sample_ctx sample_message sample_db = (None, d')"
    by (simp add: d'_def pg_PutMessage_def put_message_row_def put_job_row_def template_ref_def
        sample_message_def zero_message_def insert_message_def insert_queue_job_def
        message_row_of_def idem_key_def int4_def nullif_def)
  show ?thesis
    using run put_message_atomic [OF sample_db_ok run]
    by (auto simp: sample_message_def zero_message_def queueName_def)
qed

end
