(* ===== verification/Session_Manager.thy ===== *)
theory Session_Manager
  imports Wa_Client Secret_Model Postgres_Store
begin

text \<open>
  \<open>internal/whatsapp/session_manager.go\<close>.  The manager's own state is the map from sessions to clients (as
  pointers), the status of each client, the event handler registered on it, and the goroutines that were
  started.  Everything else, the data store and whatever the dispatcher feeds, is the state \<open>'st\<close> on which
  the store \<open>S\<close> and the dispatcher \<open>D\<close> act.  The lemmas show that a session has at most one client and a
  client one session, that a replaced client stays replaced, that events touch only their own session,
  that receipts move a message forward and are published once, and that the pairing loop is bounded.
\<close>

section \<open>State\<close>

text \<open>The closures \<open>Create\<close> and \<open>Load\<close> register, with the variables they capture: session and phone.\<close>

datatype handler = CreatedHandler string string | LoadedHandler string string

fun handler_session :: "handler \<Rightarrow> string" where
  "handler_session (CreatedHandler i h) = i"
| "handler_session (LoadedHandler i h) = i"

text \<open>The goroutines: the QR loop (client, session, method, phone) and the connection attempt.\<close>

datatype goroutine = QRLoop nat string string string | ConnectTask nat string string

record manager =
  sm_clients :: "string \<Rightarrow> nat option"
  sm_status :: "nat \<Rightarrow> string"
  sm_handler :: "nat \<Rightarrow> handler option"
  sm_next :: nat
  sm_go :: "goroutine list"

definition NewSessionManager :: manager where
  "NewSessionManager = \<lparr>sm_clients = (\<lambda>_. None), sm_status = (\<lambda>_. []), sm_handler = (\<lambda>_. None),
     sm_next = 0, sm_go = []\<rparr>"

definition new_client :: "handler \<Rightarrow> manager \<Rightarrow> manager" where
  "new_client h m = m\<lparr>sm_clients := (sm_clients m)(handler_session h \<mapsto> sm_next m),
     sm_status := (sm_status m)(sm_next m := client_Status NewWhatsMeowClient),
     sm_handler := (sm_handler m)(sm_next m \<mapsto> h), sm_next := Suc (sm_next m)\<rparr>"

definition set_client_status :: "nat \<Rightarrow> string \<Rightarrow> manager \<Rightarrow> manager" where
  "set_client_status p status m = m\<lparr>sm_status := (sm_status m)(p := status)\<rparr>"

definition spawn :: "goroutine list \<Rightarrow> manager \<Rightarrow> manager" where
  "spawn gs m = m\<lparr>sm_go := sm_go m @ gs\<rparr>"

definition isCurrentClient :: "string \<Rightarrow> nat \<Rightarrow> manager \<Rightarrow> bool" where
  "isCurrentClient i p m \<longleftrightarrow> sm_clients m i = Some p"

section \<open>Publishing a status\<close>

definition expiry_json :: "time option \<Rightarrow> json" where
  "expiry_json t = (case t of None \<Rightarrow> JNull | Some x \<Rightarrow> JTime x)"

definition status_payload :: "string \<Rightarrow> string \<Rightarrow> string \<Rightarrow> session option \<Rightarrow> json" where
  "status_payload i status phone v = (case v of
       None \<Rightarrow> JObj [(''sessionId'', JStr i), (''status'', JStr status), (''phoneNumber'', JStr phone)]
     | Some s \<Rightarrow> JObj [(''sessionId'', JStr i), (''status'', JStr status),
         (''phoneNumber'', JStr (if s_PhoneNumber s \<noteq> [] then s_PhoneNumber s else phone)),
         (''qrCode'', JStr (s_QRCode s)), (''pairingCode'', JStr (s_PairingCode s)),
         (''qrExpiresAt'', expiry_json (s_QRExpiresAt s))])"

definition dispatchSessionStatus ::
  "'st store \<Rightarrow> 'st dispatch option \<Rightarrow> ctx \<Rightarrow> ctx \<Rightarrow> string \<Rightarrow> string \<Rightarrow> string \<Rightarrow> 'st \<Rightarrow> err option \<times> 'st" where
  "dispatchSessionStatus S D c c' i status phone st =
     (case D of None \<Rightarrow> (None, st)
      | Some d \<Rightarrow> opt_dispatch D c' (''session.'' @ status)
          (status_payload i status phone (case GetSession S c i st of Inr v \<Rightarrow> v | Inl e \<Rightarrow> None)) st)"

text \<open>\<open>_ = m.store.UpdateSession(...)\<close> followed by \<open>m.dispatchSessionStatus(...)\<close>.\<close>

definition report_status ::
  "'st store \<Rightarrow> 'st dispatch option \<Rightarrow> (nat \<Rightarrow> ctx) \<Rightarrow> string \<Rightarrow> string \<Rightarrow> string \<Rightarrow> 'st \<Rightarrow> err option \<times> 'st" where
  "report_status S D E i status phone st =
     dispatchSessionStatus S D (E 1) (E 2) i status phone
       (snd (UpdateSession S (E 0) i status [] [] phone st))"

section \<open>Receipts\<close>

datatype receipt_type = ReceiptTypeDelivered | ReceiptTypeRead | ReceiptTypeOther

definition receipt_status :: "receipt_type \<Rightarrow> string option" where
  "receipt_status t = (case t of ReceiptTypeDelivered \<Rightarrow> Some ''delivered'' | ReceiptTypeRead \<Rightarrow> Some ''read''
     | ReceiptTypeOther \<Rightarrow> None)"

text \<open>The body of the loop up to the dispatch: the message to publish, if any.\<close>

definition receipt_step ::
  "'st store \<Rightarrow> ctx \<Rightarrow> ctx \<Rightarrow> string \<Rightarrow> string \<Rightarrow> string \<Rightarrow> time \<Rightarrow> 'st \<Rightarrow> message option \<times> 'st" where
  "receipt_step S c c' sessionID waID status at st =
     (case GetMessageByWAID S c sessionID waID st of
        Inr (Some msg) \<Rightarrow>
          if (status = ''delivered'' \<and> m_Status msg \<noteq> ''sent'')
            \<or> (status = ''read'' \<and> m_Status msg \<noteq> ''sent'' \<and> m_Status msg \<noteq> ''delivered'')
          then (None, st)
          else (case UpdateMessageReceipt S c' sessionID waID status at st of
              (Some e, st') \<Rightarrow> (None, st') | (None, st') \<Rightarrow> (Some msg, st'))
      | _ \<Rightarrow> (None, st))"

definition receipt_payload :: "(time \<Rightarrow> string) \<Rightarrow> string \<Rightarrow> string \<Rightarrow> time \<Rightarrow> message \<Rightarrow> json" where
  "receipt_payload rfc3339 sessionID waID at msg = JObj [(''messageId'', JStr (m_ID msg)),
     (''sessionId'', JStr sessionID), (''to'', JStr (m_To msg)), (''waMessageId'', JStr waID),
     (''referenceId'', JStr (m_ReferenceID msg)), (''sourceType'', JStr (m_SourceType msg)),
     (''sourceId'', JStr (m_SourceID msg)), (''timestamp'', JStr (rfc3339 at))]"

fun receipt_loop ::
  "'st store \<Rightarrow> 'st dispatch option \<Rightarrow> (time \<Rightarrow> string) \<Rightarrow> (nat \<Rightarrow> ctx) \<Rightarrow> nat \<Rightarrow> string \<Rightarrow> string \<Rightarrow> time \<Rightarrow> string list \<Rightarrow> 'st \<Rightarrow> err option \<times> 'st" where
  "receipt_loop S D fmt E k sessionID status at [] st = (None, st)"
| "receipt_loop S D fmt E k sessionID status at (waID # ids) st =
     (case receipt_step S (E (3 * k)) (E (3 * k + 1)) sessionID waID status at st of
        (None, st1) \<Rightarrow> receipt_loop S D fmt E (Suc k) sessionID status at ids st1
      | (Some msg, st1) \<Rightarrow>
         (case opt_dispatch D (E (3 * k + 2)) (''message.'' @ status) (receipt_payload fmt sessionID waID at msg) st1 of
            (Some p, st2) \<Rightarrow> (Some p, st2)
          | (None, st2) \<Rightarrow> receipt_loop S D fmt E (Suc k) sessionID status at ids st2))"

definition handleReceipt ::
  "'st store \<Rightarrow> 'st dispatch option \<Rightarrow> (time \<Rightarrow> string) \<Rightarrow> (nat \<Rightarrow> ctx) \<Rightarrow> string \<Rightarrow> receipt_type \<Rightarrow> string list \<Rightarrow> time \<Rightarrow> 'st \<Rightarrow> err option \<times> 'st" where
  "handleReceipt S D fmt E sessionID t ids at st = (case receipt_status t of None \<Rightarrow> (None, st)
     | Some status \<Rightarrow> receipt_loop S D fmt E 0 sessionID status at ids st)"

section \<open>Event handlers\<close>

text \<open>\<open>PairSuccess\<close> carries the identity as text and its user part.\<close>

datatype wa_event = PairSuccess string string | Connected | Disconnected | LoggedOut
  | Receipt receipt_type "string list" time | OtherEvent

fun handle_event ::
  "'st store \<Rightarrow> 'st dispatch option \<Rightarrow> (time \<Rightarrow> string) \<Rightarrow> (nat \<Rightarrow> ctx) \<Rightarrow> handler \<Rightarrow> wa_event \<Rightarrow> 'st \<Rightarrow> err option \<times> 'st" where
  "handle_event S D fmt E (CreatedHandler i phone) (PairSuccess jid user) st =
     (let st1 = snd (SetSessionIdentity S (E 3) i jid user st)
      in report_status S D E i ''connecting'' user st1)"
| "handle_event S D fmt E (LoadedHandler i phone) (PairSuccess jid user) st =
     (let st1 = snd (SetSessionIdentity S (E 3) i jid user st)
      in dispatchSessionStatus S D (E 1) (E 2) i ''connecting'' user st1)"
| "handle_event S D fmt E (CreatedHandler i phone) Connected st =
     (let connectedPhone = (if phone \<noteq> [] then phone
         else case GetSession S (E 3) i st of Inr (Some v) \<Rightarrow> s_PhoneNumber v | _ \<Rightarrow> phone)
      in report_status S D E i ''connected'' connectedPhone st)"
| "handle_event S D fmt E (LoadedHandler i phone) Connected st = report_status S D E i ''connected'' phone st"
| "handle_event S D fmt E (CreatedHandler i phone) Disconnected st = report_status S D E i ''disconnected'' phone st"
| "handle_event S D fmt E (LoadedHandler i phone) Disconnected st = report_status S D E i ''disconnected'' phone st"
| "handle_event S D fmt E (CreatedHandler i phone) LoggedOut st = report_status S D E i ''logged_out'' phone st"
| "handle_event S D fmt E (LoadedHandler i phone) LoggedOut st = report_status S D E i ''logged_out'' phone st"
| "handle_event S D fmt E h (Receipt t ids at) st = handleReceipt S D fmt E (handler_session h) t ids at st"
| "handle_event S D fmt E h OtherEvent st = (None, st)"

section \<open>The QR loop\<close>

definition isPairingRateLimited :: "(string \<Rightarrow> string) \<Rightarrow> err option \<Rightarrow> bool" where
  "isPairingRateLimited lower e = (case e of None \<Rightarrow> False
     | Some x \<Rightarrow> contains_sub (lower (err_text x)) ''rate-overlimit'' \<or> contains_sub (lower (err_text x)) ''status 429'')"

text \<open>
  \<open>for attempt := 0; attempt < 5; attempt++\<close>, with \<open>n\<close> attempts left and the outcome of the last one: the
  final outcome and the pauses slept.
\<close>

fun pair_loop :: "(string \<Rightarrow> string) \<Rightarrow> ctx \<Rightarrow> nat \<Rightarrow> nat \<Rightarrow> err + string \<Rightarrow> (err + string) \<times> time list" where
  "pair_loop lower c attempt 0 prev = (prev, [])"
| "pair_loop lower c attempt (Suc n) prev =
     (case client_PairPhone c attempt of Inr code \<Rightarrow> (Inr code, [])
      | Inl e \<Rightarrow> if isPairingRateLimited lower (Some e) then (Inl e, [])
          else (case pair_loop lower c (Suc attempt) n (Inl e) of (r, ps) \<Rightarrow> (r, (int attempt + 1) * second # ps)))"

record qr_item =
  qi_Event :: string
  qi_Code :: string
  qi_Timeout :: time

text \<open>The answer of the QR library: the PNG image of a code.\<close>

definition qr_value :: "(string \<Rightarrow> err + string) \<Rightarrow> string \<Rightarrow> string" where
  "qr_value png code = (case png code of Inr img \<Rightarrow> ''data:image/png;base64,'' @ b64_encode img | Inl e \<Rightarrow> code)"

text \<open>Store the code, its expiry, and publish \<open>connecting\<close>.\<close>

definition offer_code ::
  "'st store \<Rightarrow> 'st dispatch option \<Rightarrow> (nat \<Rightarrow> ctx) \<Rightarrow> string \<Rightarrow> string \<Rightarrow> string \<Rightarrow> string \<Rightarrow> time \<Rightarrow> 'st \<Rightarrow> err option \<times> 'st" where
  "offer_code S D E i qr code phone valid st =
     (let st1 = snd (UpdateSession S (E 0) i ''connecting'' qr code phone st);
          st2 = snd (SetSessionQRExpiry S (E 3) i (Some (c_now (E 3) + valid)) st1)
      in dispatchSessionStatus S D (E 1) (E 2) i ''connecting'' phone st2)"

text \<open>
  The two goroutines, one statement at a time, so that other goroutines can run in between.  \<open>Head\<close> is the
  check at the head of the QR loop, \<open>Request\<close> the pairing requests or the encoding of the image, \<open>Dial\<close> the
  call of \<open>client.Connect\<close>, \<open>Check\<close> the check of \<open>isCurrentClient\<close> before a write, \<open>Commit\<close> the
  write and its publication, \<open>Idle\<close> the wait for the next item of the channel, \<open>Over\<close> the end.
\<close>

datatype go_plan = Offer string string time | Failed

datatype go_pc = Head qr_item | Request qr_item | Dial | Check go_plan | Commit go_plan | Idle | Over

fun go_client :: "goroutine \<Rightarrow> nat" where
  "go_client (QRLoop p i method phone) = p"
| "go_client (ConnectTask p i phone) = p"

fun go_session :: "goroutine \<Rightarrow> string" where
  "go_session (QRLoop p i method phone) = i"
| "go_session (ConnectTask p i phone) = i"

fun go_phone :: "goroutine \<Rightarrow> string" where
  "go_phone (QRLoop p i method phone) = phone"
| "go_phone (ConnectTask p i phone) = phone"

fun go_pairing :: "goroutine \<Rightarrow> bool" where
  "go_pairing (QRLoop p i method phone) \<longleftrightarrow> method = ''pairing'' \<and> phone \<noteq> []"
| "go_pairing (ConnectTask p i phone) \<longleftrightarrow> False"

text \<open>
  One statement; \<open>cur\<close> is what \<open>isCurrentClient\<close> answers at that moment.  The result is the next
  statement, a panic of the dispatcher if there is one, and the state.
\<close>

fun go_step ::
  "'st store \<Rightarrow> 'st dispatch option \<Rightarrow> (string \<Rightarrow> err + string) \<Rightarrow> (string \<Rightarrow> string) \<Rightarrow> (nat \<Rightarrow> ctx) \<Rightarrow> goroutine \<Rightarrow>
   bool \<Rightarrow> go_pc \<Rightarrow> 'st \<Rightarrow> go_pc \<times> err option \<times> 'st" where
  "go_step S D png lower E g cur (Head item) st =
     (if \<not> cur then Over
      else if qi_Event item = ''timeout'' then Commit Failed
      else if qi_Event item = ''code'' then Request item
      else Idle, None, st)"
| "go_step S D png lower E g cur (Request item) st =
     (Check (if go_pairing g
        then (case fst (pair_loop lower (E 4) 0 5 (Inr [])) of
            Inr code \<Rightarrow> Offer [] code (160 * second) | Inl e \<Rightarrow> Failed)
        else Offer (qr_value png (qi_Code item)) [] (qi_Timeout item)), None, st)"
| "go_step S D png lower E g cur Dial st =
     (if fst (client_Connect (E 3)) \<noteq> None then Check Failed else Over, None, st)"
| "go_step S D png lower E g cur (Check plan) st = (if \<not> cur then Over else Commit plan, None, st)"
| "go_step S D png lower E g cur (Commit (Offer qr code valid)) st =
     (Idle, offer_code S D E (go_session g) qr code (go_phone g) valid st)"
| "go_step S D png lower E g cur (Commit Failed) st =
     (Idle, report_status S D E (go_session g) ''failed'' (go_phone g) st)"
| "go_step S D png lower E g cur Idle st = (Idle, None, st)"
| "go_step S D png lower E g cur Over st = (Over, None, st)"

text \<open>Several statements, with the answer of \<open>isCurrentClient\<close> at each; a panic ends the run.\<close>

fun go_run ::
  "'st store \<Rightarrow> 'st dispatch option \<Rightarrow> (string \<Rightarrow> err + string) \<Rightarrow> (string \<Rightarrow> string) \<Rightarrow> (nat \<Rightarrow> ctx) \<Rightarrow> goroutine \<Rightarrow>
   bool list \<Rightarrow> go_pc \<Rightarrow> 'st \<Rightarrow> go_pc \<times> err option \<times> 'st" where
  "go_run S D png lower E g [] pc st = (pc, None, st)"
| "go_run S D png lower E g (cur # curs) pc st =
     (case go_step S D png lower E g cur pc st of
        (pc', Some e, st') \<Rightarrow> (pc', Some e, st')
      | (pc', None, st') \<Rightarrow> go_run S D png lower E g curs pc' st')"

text \<open>
  One item of the channel from its head check to the next wait.  \<open>cur1\<close> and \<open>cur2\<close> are the answers of
  \<open>isCurrentClient\<close> at the head of the loop and before the write; the flag says whether the loop goes on.
\<close>

definition qr_step ::
  "'st store \<Rightarrow> 'st dispatch option \<Rightarrow> (string \<Rightarrow> err + string) \<Rightarrow> (string \<Rightarrow> string) \<Rightarrow> (nat \<Rightarrow> ctx) \<Rightarrow> bool \<Rightarrow> bool \<Rightarrow>
   string \<Rightarrow> string \<Rightarrow> string \<Rightarrow> qr_item \<Rightarrow> 'st \<Rightarrow> bool \<times> err option \<times> 'st" where
  "qr_step S D png lower E cur1 cur2 i method phone item st =
     (case go_run S D png lower E (QRLoop 0 i method phone) [cur1, cur2, cur2, cur2] (Head item) st of
        (pc, r, st') \<Rightarrow> (pc = Idle, r, st'))"

section \<open>Operations on the clients\<close>

text \<open>The library's answers 0 and 1: \<open>IsLoggedIn\<close> and the QR channel.\<close>

definition sm_Create :: "ctx \<Rightarrow> string \<Rightarrow> string \<Rightarrow> string \<Rightarrow> manager \<Rightarrow> err option \<times> manager" where
  "sm_Create c i method phone m =
     (case sm_clients m i of Some p \<Rightarrow> (None, m)
      | None \<Rightarrow>
         let p = sm_next m; m1 = new_client (CreatedHandler i phone) m in
         if \<not> client_IsLoggedIn c then
           (case client_QRChannel c of Inl e \<Rightarrow> (Some e, m1)
            | Inr _ \<Rightarrow> (None, spawn [QRLoop p i method phone, ConnectTask p i phone] m1))
         else (None, spawn [ConnectTask p i phone] m1))"

text \<open>The goroutine around \<open>client.Connect\<close>; \<open>cur\<close> is the answer of \<open>isCurrentClient\<close> after a failure.\<close>

definition run_connect ::
  "'st store \<Rightarrow> 'st dispatch option \<Rightarrow> (nat \<Rightarrow> ctx) \<Rightarrow> bool \<Rightarrow> nat \<Rightarrow> string \<Rightarrow> string \<Rightarrow> manager \<times> 'st \<Rightarrow> err option \<times> manager \<times> 'st" where
  "run_connect S D E cur p i phone ms = (case ms of (m, st) \<Rightarrow>
     (case client_Connect (E 3) of (r, status) \<Rightarrow>
       let m1 = set_client_status p status m in
       if r \<noteq> None \<and> cur then (case report_status S D E i ''failed'' phone st of (e, st') \<Rightarrow> (e, m1, st'))
       else (None, m1, st)))"

text \<open>\<open>known\<close> is the acceptance of an identity by \<open>types.ParseJID\<close>; the device of the \<open>k\<close>-th session is answer \<open>k\<close>.\<close>

fun load_loop :: "(string \<Rightarrow> bool) \<Rightarrow> ctx \<Rightarrow> nat \<Rightarrow> session list \<Rightarrow> manager \<Rightarrow> manager" where
  "load_loop known c k [] m = m"
| "load_loop known c k (v # vs) m =
     load_loop known c (Suc k) vs
       (if s_WAJID v = [] \<or> \<not> known (s_WAJID v) \<or> \<not> wa_yes c k then m
        else spawn [ConnectTask (sm_next m) (s_SessionID v) (s_PhoneNumber v)]
          (new_client (LoadedHandler (s_SessionID v) (s_PhoneNumber v)) m))"

definition sm_Load :: "'st store \<Rightarrow> (string \<Rightarrow> bool) \<Rightarrow> ctx \<Rightarrow> 'st \<Rightarrow> manager \<Rightarrow> err option \<times> manager" where
  "sm_Load S known c st m = (case ListSessions S c st of Inl e \<Rightarrow> (Some e, m)
     | Inr vs \<Rightarrow> (None, load_loop known c 0 vs m))"

definition drop_client :: "string \<Rightarrow> manager \<Rightarrow> manager" where
  "drop_client i m = m\<lparr>sm_clients := (sm_clients m)(i := None)\<rparr>"

definition recreate :: "'st store \<Rightarrow> (nat \<Rightarrow> ctx) \<Rightarrow> string \<Rightarrow> 'st \<Rightarrow> manager \<Rightarrow> err option \<times> manager" where
  "recreate S E i st m = (case GetSession S (E 1) i st of Inl e \<Rightarrow> (Some e, m)
     | Inr None \<Rightarrow> (Some (Errorf (''session '' @ i @ '' not found'') None), m)
     | Inr (Some v) \<Rightarrow> sm_Create (E 2) i (s_Method v) (s_PhoneNumber v) m)"

definition sm_Reconnect :: "'st store \<Rightarrow> (nat \<Rightarrow> ctx) \<Rightarrow> string \<Rightarrow> 'st \<Rightarrow> manager \<Rightarrow> err option \<times> manager" where
  "sm_Reconnect S E i st m = (case sm_clients m i of
       Some p \<Rightarrow> if \<not> client_IsLoggedIn (E 0)
         then recreate S E i st (drop_client i (set_client_status p (snd client_Disconnect) m))
         else (None, spawn [ConnectTask p i []] m)
     | None \<Rightarrow> recreate S E i st m)"

definition not_loaded :: "string \<Rightarrow> err" where
  "not_loaded i = Errorf (''session '' @ i @ '' not loaded'') None"

definition sm_Disconnect :: "string \<Rightarrow> manager \<Rightarrow> err option \<times> manager" where
  "sm_Disconnect i m = (case sm_clients m i of None \<Rightarrow> (Some (not_loaded i), m)
     | Some p \<Rightarrow> (fst client_Disconnect, set_client_status p (snd client_Disconnect) m))"

definition sm_Logout :: "ctx \<Rightarrow> string \<Rightarrow> manager \<Rightarrow> err option \<times> manager" where
  "sm_Logout c i m = (case sm_clients m i of None \<Rightarrow> (Some (not_loaded i), m)
     | Some p \<Rightarrow> (fst (client_Logout c), drop_client i (set_client_status p (snd (client_Logout c)) m)))"

definition sm_Close :: "manager \<Rightarrow> manager" where
  "sm_Close m = m\<lparr>sm_status := (\<lambda>p. if \<exists>i. sm_clients m i = Some p then ''disconnected'' else sm_status m p)\<rparr>"

section \<open>A whole item and a whole attempt\<close>

lemma qr_step_cases:
  "qr_step S D png lower E cur1 cur2 i method phone item st =
     (if \<not> cur1 then (False, None, st)
      else if qi_Event item = ''timeout'' then (True, report_status S D E i ''failed'' phone st)
      else if qi_Event item = ''code'' then
        (if \<not> cur2 then (False, None, st)
         else if method = ''pairing'' \<and> phone \<noteq> [] then
           (case fst (pair_loop lower (E 4) 0 5 (Inr [])) of
              Inr code \<Rightarrow> (True, offer_code S D E i [] code phone (160 * second) st)
            | Inl e \<Rightarrow> (True, report_status S D E i ''failed'' phone st))
         else (True, offer_code S D E i (qr_value png (qi_Code item)) [] phone (qi_Timeout item) st))
      else (True, None, st))"
  by (auto simp: qr_step_def split: prod.splits option.splits sum.splits)

lemma run_connect_go:
  "run_connect S D E cur p i phone (m, st) =
     (case go_run S D png lower E (ConnectTask p i phone) [b, cur, cur] Dial st of
        (pc, r, st') \<Rightarrow> (r, set_client_status p (snd (client_Connect (E 3))) m, st'))"
  by (auto simp: run_connect_def Let_def split: prod.splits option.splits)

section \<open>One client per session\<close>

text \<open>
  What can happen to the manager's state: its operations, a client's status, the end of a goroutine.
  \<open>Logout\<close> and \<open>Reconnect\<close> look the client up, talk to the library and delete the entry in separate critical
  sections; \<open>Status\<close> and \<open>Removed\<close> are those sections on their own, whatever happened in between.
\<close>

inductive mgr_step :: "'st store \<Rightarrow> (string \<Rightarrow> bool) \<Rightarrow> manager \<Rightarrow> manager \<Rightarrow> bool" for S known where
  Create: "mgr_step S known m (snd (sm_Create c i method phone m))"
| Reconnect: "mgr_step S known m (snd (sm_Reconnect S E i st m))"
| Disconnect: "mgr_step S known m (snd (sm_Disconnect i m))"
| Logout: "mgr_step S known m (snd (sm_Logout c i m))"
| Load: "mgr_step S known m (snd (sm_Load S known c st m))"
| Close: "mgr_step S known m (sm_Close m)"
| Status: "mgr_step S known m (set_client_status p status m)"
| Removed: "mgr_step S known m (drop_client i m)"
| Finished: "mgr_step S known m (m\<lparr>sm_go := remove1 g (sm_go m)\<rparr>)"

inductive_cases mgr_stepE: "mgr_step S known m m'"

definition mgr_ok :: "manager \<Rightarrow> bool" where
  "mgr_ok m \<longleftrightarrow> (\<forall>i p. sm_clients m i = Some p \<longrightarrow>
     p < sm_next m \<and> (\<exists>h. sm_handler m p = Some h \<and> handler_session h = i))"

text \<open>The clients made before stay as they are: none comes back into the map, none changes its handler.\<close>

definition mgr_extends :: "manager \<Rightarrow> manager \<Rightarrow> bool" where
  "mgr_extends m m' \<longleftrightarrow> sm_next m \<le> sm_next m' \<and> (\<forall>p < sm_next m. sm_handler m' p = sm_handler m p)
     \<and> (\<forall>i p. p < sm_next m \<longrightarrow> sm_clients m' i = Some p \<longrightarrow> sm_clients m i = Some p)"

lemma mgr_extends_refl [simp]: "mgr_extends m m"
  by (simp add: mgr_extends_def)

lemma mgr_extends_trans: "mgr_extends m m' \<Longrightarrow> mgr_extends m' m'' \<Longrightarrow> mgr_extends m m''"
  by (auto simp: mgr_extends_def)

lemma mgr_simple [simp]:
  "mgr_ok (set_client_status p s m) = mgr_ok m" "mgr_ok (spawn gs m) = mgr_ok m" "mgr_ok (sm_Close m) = mgr_ok m"
  "mgr_ok (m\<lparr>sm_go := gs\<rparr>) = mgr_ok m" "mgr_ok m \<Longrightarrow> mgr_ok (drop_client i m)"
  "mgr_extends m (set_client_status p s m')= mgr_extends m m'" "mgr_extends m (spawn gs m') = mgr_extends m m'"
  "mgr_extends m (sm_Close m') = mgr_extends m m'" "mgr_extends m (m'\<lparr>sm_go := gs\<rparr>) = mgr_extends m m'"
  "mgr_extends m m' \<Longrightarrow> mgr_extends m (drop_client i m')"
  by (auto simp: mgr_ok_def mgr_extends_def set_client_status_def spawn_def sm_Close_def drop_client_def)

lemma new_client_ok: "mgr_ok m \<Longrightarrow> mgr_ok (new_client h m)"
  by (auto simp: mgr_ok_def new_client_def less_Suc_eq split: if_splits)

lemma new_client_extends: "mgr_extends m (new_client h m)"
  by (auto simp: mgr_extends_def new_client_def split: if_splits)

lemma sm_Create_ok: "mgr_ok m \<Longrightarrow> mgr_ok (snd (sm_Create c i me ph m)) \<and> mgr_extends m (snd (sm_Create c i me ph m))"
  by (simp add: sm_Create_def Let_def new_client_ok new_client_extends split: option.split sum.split)

text \<open>A \<open>Create\<close> that fails leaves its client behind: nothing connects it, and every later \<open>Create\<close> is content with it.\<close>

lemma create_error_keeps_client:
  assumes "sm_Create c i method phone m = (Some e, m')"
  shows "sm_clients m' i \<noteq> None" "sm_go m' = sm_go m" "sm_Create c' i method' phone' m' = (None, m')"
  using assms by (auto simp: sm_Create_def new_client_def Let_def split: option.splits sum.splits if_splits)

lemma recreate_ok: "mgr_ok m \<Longrightarrow> mgr_ok (snd (recreate S E i st m)) \<and> mgr_extends m (snd (recreate S E i st m))"
  by (simp add: recreate_def sm_Create_ok split: option.split sum.split)

lemma sm_Reconnect_ok:
  assumes "mgr_ok m"
  shows "mgr_ok (snd (sm_Reconnect S E i st m)) \<and> mgr_extends m (snd (sm_Reconnect S E i st m))"
proof -
  let ?d = "\<lambda>p. drop_client i (set_client_status p (snd client_Disconnect) m)"
  have "mgr_extends m (?d p)" "mgr_ok (?d p)" for p using assms by simp_all
  then have "mgr_ok (snd (recreate S E i st (?d p))) \<and> mgr_extends m (snd (recreate S E i st (?d p)))" for p
    using recreate_ok [of "?d p" S E i st] mgr_extends_trans by blast
  then show ?thesis using assms recreate_ok [OF assms, of S E i st] by (simp add: sm_Reconnect_def split: option.split)
qed

lemma load_loop_ok: "mgr_ok m \<Longrightarrow> mgr_ok (load_loop known c k vs m) \<and> mgr_extends m (load_loop known c k vs m)"
proof (induction vs arbitrary: k m)
  case (Cons v vs)
  let ?m = "spawn [ConnectTask (sm_next m) (s_SessionID v) (s_PhoneNumber v)]
      (new_client (LoadedHandler (s_SessionID v) (s_PhoneNumber v)) m)"
  have "mgr_ok ?m" "mgr_extends m ?m" using Cons.prems by (simp_all add: new_client_ok new_client_extends)
  then show ?case using Cons.IH Cons.prems mgr_extends_trans by (auto simp del: mgr_simple)
qed simp

lemma mgr_step_ok: "mgr_step S known m m' \<Longrightarrow> mgr_ok m \<Longrightarrow> mgr_ok m' \<and> mgr_extends m m'"
proof (induction rule: mgr_step.induct)
  case (Load m c st)
  then show ?case by (simp add: sm_Load_def load_loop_ok split: sum.split)
qed (simp_all add: sm_Create_ok sm_Reconnect_ok sm_Disconnect_def sm_Logout_def split: option.split)

lemma mgr_steps_ok: "(mgr_step S known)\<^sup>*\<^sup>* m m' \<Longrightarrow> mgr_ok m \<Longrightarrow> mgr_ok m' \<and> mgr_extends m m'"
proof (induction rule: rtranclp_induct)
  case (step y z)
  then show ?case using mgr_step_ok mgr_extends_trans by blast
qed simp

lemma NewSessionManager_ok: "mgr_ok NewSessionManager"
  by (simp add: mgr_ok_def NewSessionManager_def)

text \<open>A client that is not current any more is current in no later state and under no session.\<close>

lemma not_current_again:
  assumes "mgr_ok m" "sm_clients m i = Some p" "(mgr_step S known)\<^sup>*\<^sup>* m m1" "\<not> isCurrentClient i p m1"
    and "(mgr_step S known)\<^sup>*\<^sup>* m1 m2"
  shows "\<not> isCurrentClient j p m2"
proof -
  have p: "p < sm_next m" and own: "\<And>j. sm_clients m j = Some p \<Longrightarrow> j = i"
    using assms(1,2) unfolding mgr_ok_def by (blast, metis option.inject)
  have m1: "mgr_ok m1" "mgr_extends m m1" using mgr_steps_ok [OF assms(3,1)] by simp_all
  have m2: "mgr_extends m1 m2" using mgr_steps_ok [OF assms(5) m1(1)] by simp
  show ?thesis using p own m1(2) m2 assms(4) unfolding mgr_extends_def isCurrentClient_def
    by (metis less_le_trans)
qed

section \<open>Goroutines among the other goroutines\<close>

text \<open>
  A goroutine of a client between other goroutines: its own statements, the next item of the channel, any
  step of the manager, and any write of others to the store.  The counter counts its own statements that
  changed the store.
\<close>

inductive go_among ::
  "'st store \<Rightarrow> 'st dispatch option \<Rightarrow> (string \<Rightarrow> err + string) \<Rightarrow> (string \<Rightarrow> string) \<Rightarrow> (string \<Rightarrow> bool) \<Rightarrow> goroutine \<Rightarrow>
   nat \<times> go_pc \<times> manager \<times> 'st \<Rightarrow> nat \<times> go_pc \<times> manager \<times> 'st \<Rightarrow> bool"
  for S D png lower known g where
  Own: "go_step S D png lower E g (isCurrentClient (go_session g) (go_client g) m) pc st = (pc', r, st') \<Longrightarrow>
    m' = (if pc = Dial then set_client_status (go_client g) (snd (client_Connect (E 3))) m else m) \<Longrightarrow>
    go_among S D png lower known g (n, pc, m, st) (if st' = st then n else Suc n, pc', m', st')"
| Item: "g = QRLoop p i method phone \<Longrightarrow> go_among S D png lower known g (n, Idle, m, st) (n, Head item, m, st)"
| Manager: "mgr_step S known m m' \<Longrightarrow> go_among S D png lower known g (n, pc, m, st) (n, pc, m', st)"
| Others: "go_among S D png lower known g (n, pc, m, st) (n, pc, m, st')"

definition committed :: "go_pc \<Rightarrow> bool" where
  "committed pc \<longleftrightarrow> (case pc of Commit plan \<Rightarrow> True | _ \<Rightarrow> False)"

lemma committed_simps [simp]:
  "committed (Commit plan)" "\<not> committed (Head item)" "\<not> committed (Request item)" "\<not> committed Dial"
  "\<not> committed (Check plan)" "\<not> committed Idle" "\<not> committed Over"
  by (simp_all add: committed_def)

lemma go_step_not_current:
  assumes "go_step S D png lower E g False pc st = (pc', r, st')"
  shows "\<not> committed pc'" "\<not> committed pc \<Longrightarrow> st' = st"
  using assms by (cases pc; auto split: if_splits simp: committed_def elim: go_step.elims)+

text \<open>
  From a state in which the goroutine's client is not current: one write at most, and none when the
  goroutine has not passed its check.
\<close>

lemma go_among_bound:
  assumes "(go_among S D png lower known g)\<^sup>*\<^sup>* (0, pc, m, st) conf"
    and "\<And>m2. (mgr_step S known)\<^sup>*\<^sup>* m m2 \<Longrightarrow> \<not> isCurrentClient (go_session g) (go_client g) m2"
  shows "case conf of (n, pc', m', st') \<Rightarrow> (mgr_step S known)\<^sup>*\<^sup>* m m'
    \<and> n + of_bool (committed pc') \<le> of_bool (committed pc)"
  using assms(1)
proof (induction rule: rtranclp_induct)
  case (step conf conf')
  obtain n pc1 m1 st1 where conf: "conf = (n, pc1, m1, st1)" by (cases conf)
  then have m1: "(mgr_step S known)\<^sup>*\<^sup>* m m1" and n: "n + of_bool (committed pc1) \<le> of_bool (committed pc)"
    using step.IH by simp_all
  note cur = assms(2) [OF m1]
  from step.hyps(2) [unfolded conf] show ?case
  proof cases
    case (Own E pc' r st' m')
    have "(mgr_step S known)\<^sup>*\<^sup>* m m'"
      using Own m1 by (auto intro: rtranclp.rtrancl_into_rtrancl mgr_step.Status)
    moreover have step: "go_step S D png lower E g False pc1 st1 = (pc', r, st')" using Own(2) cur by simp
    note go_step_not_current(1) [OF step]
    moreover have "\<not> committed pc1 \<Longrightarrow> st' = st1" by (rule go_step_not_current(2) [OF step])
    ultimately show ?thesis using n Own(1) by (cases "committed pc1") auto
  qed (use m1 n in \<open>auto intro: rtranclp.rtrancl_into_rtrancl\<close>)
qed simp



section \<open>The pairing loop is bounded\<close>

lemma pair_loop_pauses:
  "length (snd (pair_loop lower c a n prev)) \<le> n
   \<and> sum_list (snd (pair_loop lower c a n prev)) \<le> (\<Sum>k<n. (int (a + k) + 1) * second)
   \<and> (\<forall>t \<in> set (snd (pair_loop lower c a n prev)). 0 \<le> t)"
proof (induction n arbitrary: a prev)
  case (Suc n)
  have sum: "(\<Sum>k<Suc n. (int (a + k) + 1) * second) = (int a + 1) * second + (\<Sum>k<n. (int (Suc a + k) + 1) * second)"
    by (subst sum.lessThan_Suc_shift) (simp add: algebra_simps)
  have nonneg: "0 \<le> (\<Sum>k<n. (int (Suc a + k) + 1) * second)" by (rule sum_nonneg) simp
  show ?case
  proof (cases "c_wa c a")
    case (Inr code)
    then show ?thesis unfolding sum using nonneg by simp
  next
    case (Inl e)
    then show ?thesis unfolding sum using Suc.IH [of "Suc a" "Inl e"] nonneg by (simp add: split_beta)
  qed
qed simp

lemma pair_loop_result:
  assumes "pair_loop lower c a n prev = (r, ps)" "0 < n"
  shows "\<exists>k. a \<le> k \<and> k < a + n \<and> r = c_wa c k
    \<and> (\<forall>j. a \<le> j \<longrightarrow> j < k \<longrightarrow> (\<exists>e. c_wa c j = Inl e \<and> \<not> isPairingRateLimited lower (Some e)))
    \<and> (\<forall>e. r = Inl e \<longrightarrow> k = a + n - 1 \<or> isPairingRateLimited lower (Some e))"
  using assms
proof (induction n arbitrary: a prev ps)
  case (Suc n)
  show ?case
  proof (cases "\<exists>e. c_wa c a = Inl e \<and> \<not> isPairingRateLimited lower (Some e) \<and> 0 < n")
    case False
    then show ?thesis using Suc.prems(1)
      by (intro exI [of _ a]) (cases n, auto split: sum.splits if_splits)
  next
    case True
    then obtain e where e: "c_wa c a = Inl e" "\<not> isPairingRateLimited lower (Some e)" "0 < n" by blast
    then obtain ps' where "pair_loop lower c (Suc a) n (Inl e) = (r, ps')"
      using Suc.prems(1) by (auto split: prod.splits)
    from Suc.IH [OF this e(3)] obtain k where k: "Suc a \<le> k" "k < Suc a + n" "r = c_wa c k"
      "\<forall>j. Suc a \<le> j \<longrightarrow> j < k \<longrightarrow> (\<exists>e. c_wa c j = Inl e \<and> \<not> isPairingRateLimited lower (Some e))"
      "\<forall>e. r = Inl e \<longrightarrow> k = Suc a + n - 1 \<or> isPairingRateLimited lower (Some e)" by blast
    have "\<exists>e. c_wa c j = Inl e \<and> \<not> isPairingRateLimited lower (Some e)" if "a \<le> j" "j < k" for j
      using that e k(4) by (cases "j = a") auto
    with k show ?thesis by (intro exI [of _ k]) auto
  qed
qed simp

text \<open>
  C39.  Requesting a pairing code ends: the library is asked at most five times, the pauses in between are
  at most 15 seconds in all, a code is the answer to the first request that succeeded, and a failure is
  reported only after the fifth request or after one that WhatsApp refused for its rate.
\<close>

theorem pairing_bounded:
  "\<exists>k < 5. fst (pair_loop lower c 0 5 (Inr [])) = c_wa c k
    \<and> (\<forall>j < k. \<exists>e. c_wa c j = Inl e \<and> \<not> isPairingRateLimited lower (Some e))
    \<and> (\<forall>e. c_wa c k = Inl e \<longrightarrow> k = 4 \<or> isPairingRateLimited lower (Some e))
    \<and> length (snd (pair_loop lower c 0 5 (Inr []))) \<le> 5
    \<and> sum_list (snd (pair_loop lower c 0 5 (Inr []))) \<le> 15 * second"
proof -
  obtain r ps where l: "pair_loop lower c 0 5 (Inr []) = (r, ps)" by fastforce
  have "(\<Sum>k<(5::nat). (int (0 + k) + 1) * second) = 15 * second" by code_simp
  then have "length ps \<le> 5" "sum_list ps \<le> 15 * second"
    using pair_loop_pauses [of lower c 0 5 "Inr []"] l by simp_all
  then show ?thesis using pair_loop_result [OF l] unfolding l fst_conv snd_conv by fastforce
qed

theorem pairing_bounded_witness:
  "fst (pair_loop (\<lambda>s. s) (sample_ctx\<lparr>c_wa := (\<lambda>k. if k = 0 then Inl (Errorf ''websocket not ready'' None) else Inr ''ABCD-1234'')\<rparr>) 0 5 (Inr []))
     = Inr ''ABCD-1234''"
proof -
  let ?c = "sample_ctx\<lparr>c_wa := (\<lambda>k. if k = 0 then Inl (Errorf ''websocket not ready'' None) else Inr ''ABCD-1234'')\<rparr>"
  obtain k where "k < 5" "fst (pair_loop (\<lambda>s. s) ?c 0 5 (Inr [])) = c_wa ?c k"
    "\<forall>e. c_wa ?c k = Inl e \<longrightarrow> k = 4 \<or> isPairingRateLimited (\<lambda>s. s) (Some e)"
    using pairing_bounded [of "\<lambda>s. s" ?c] by blast
  moreover have "\<not> isPairingRateLimited (\<lambda>s. s) (Some (Errorf ''websocket not ready'' None))" by code_simp
  ultimately show ?thesis by (auto split: if_splits)
qed

section \<open>Receipts move forward and are published once\<close>

definition status_rank :: "string \<Rightarrow> nat" where
  "status_rank s = (if s = ''read'' then 3 else if s = ''delivered'' then 2 else if s = ''sent'' then 1 else 0)"

abbreviation waid_row :: "string \<Rightarrow> string \<Rightarrow> db \<Rightarrow> message_row option" where
  "waid_row i w d \<equiv> find (\<lambda>r. mr_session_id r = i \<and> mr_wa_message_id r = Some w) (t_messages d)"

lemma pg_receipt_step:
  assumes "receipt_step (postgres_store u) c c' i w status at d = (Some msg, d')" "receipt_status t = Some status"
  obtains r where "waid_row i w d = Some r" "msg = receipt_message r" "receipt_hit i w r"
    "status_rank (mr_status r) < status_rank status"
    "d' = upd_messages (receipt_hit i w) (receipt_row status at) d"
proof -
  from assms(1) obtain r where r: "waid_row i w d = Some r" "msg = receipt_message r"
    and d': "d' = upd_messages (receipt_hit i w) (receipt_row status at) d"
    and g: "\<not> (status = ''delivered'' \<and> m_Status msg \<noteq> ''sent'')"
      "\<not> (status = ''read'' \<and> m_Status msg \<noteq> ''sent'' \<and> m_Status msg \<noteq> ''delivered'')"
    by (auto simp: receipt_step_def pg_GetMessageByWAID_def pg_UpdateMessageReceipt_def split: sum.splits option.splits if_splits)
  have st: "m_Status msg = mr_status r" by (simp add: r(2) receipt_message_def zero_message_def)
  have status: "status = ''delivered'' \<or> status = ''read''" using assms(2) by (cases t) (auto simp: receipt_status_def)
  have "receipt_hit i w r" using r(1) g status st by (auto simp: receipt_hit_def dest: find_SomeD)
  moreover have "status_rank (mr_status r) < status_rank status" using g status st by (auto simp: status_rank_def)
  ultimately show thesis using that r d' by blast
qed

lemma pg_receipt_db:
  "snd (receipt_step (postgres_store u) c c' i w status at d) \<in> {d, upd_messages (receipt_hit i w) (receipt_row status at) d}"
  by (auto simp: receipt_step_def pg_UpdateMessageReceipt_def split: sum.splits option.splits)

lemma waid_row_receipt:
  "find (\<lambda>r. mr_session_id r = i \<and> mr_wa_message_id r = Some w) (update_where (receipt_hit i w) (receipt_row status at) rs)
   = map_option (\<lambda>r. if receipt_hit i w r then receipt_row status at r else r)
      (find (\<lambda>r. mr_session_id r = i \<and> mr_wa_message_id r = Some w) rs)"
  by (rule find_update_where) (simp add: receipt_row_def)

text \<open>A row that did not move backwards, and did not change at all unless it is one the receipt names.\<close>

definition receipt_forward :: "string \<Rightarrow> string \<Rightarrow> message_row \<Rightarrow> message_row \<Rightarrow> bool" where
  "receipt_forward i w r r' \<longleftrightarrow> mr_id r' = mr_id r \<and> status_rank (mr_status r) \<le> status_rank (mr_status r')
     \<and> (mr_session_id r \<noteq> i \<or> mr_wa_message_id r \<noteq> Some w \<longrightarrow> r' = r)"

lemma receipt_row_forward:
  assumes "status = ''delivered'' \<or> status = ''read''" "receipt_hit i w r"
  shows "receipt_forward i w r (receipt_row status at r)"
  using assms by (auto simp: receipt_forward_def receipt_hit_def receipt_row_def status_rank_def)

lemma receipts_forward:
  assumes "status = ''delivered'' \<or> status = ''read''"
  shows "list_all2 (receipt_forward i w) rs (update_where (receipt_hit i w) (receipt_row status at) rs)"
proof (induction rs)
  case (Cons r rs)
  have "receipt_forward i w r r" by (simp add: receipt_forward_def)
  then show ?case using Cons receipt_row_forward [OF assms] by simp
qed simp

text \<open>
  C11.  Receipts.  With the PostgreSQL store, processing one identifier of a delivery or read receipt never
  moves a message backwards and touches no message but those of that session and WhatsApp identifier;
  it is published only when the stored status was behind; and once it was, the same receipt, delivered
  again after any number of changes that leave the messages alone, is not published a second time.
\<close>

theorem receipts_forward_once:
  assumes "receipt_status t = Some status" "receipt_step (postgres_store u) c c' i w status at d = (published, d')"
  shows "list_all2 (receipt_forward i w) (t_messages d) (t_messages d')
    \<and> (\<forall>msg. published = Some msg \<longrightarrow> status_rank (m_Status msg) < status_rank status
        \<and> (\<forall>d'' c1 c2 at'. t_messages d'' = t_messages d' \<longrightarrow>
            receipt_step (postgres_store u) c1 c2 i w status at' d'' = (None, d'')))"
proof -
  have status: "status = ''delivered'' \<or> status = ''read''" using assms(1) by (cases t) (auto simp: receipt_status_def)
  have "d' \<in> {d, upd_messages (receipt_hit i w) (receipt_row status at) d}"
    using pg_receipt_db [of u c c' i w status at d] assms(2) by simp
  then have mono: "list_all2 (receipt_forward i w) (t_messages d) (t_messages d')"
    using receipts_forward [OF status] by (auto simp: receipt_forward_def list.rel_refl)
  moreover have "status_rank (m_Status msg) < status_rank status
      \<and> receipt_step (postgres_store u) c1 c2 i w status at' d'' = (None, d'')"
    if p: "published = Some msg" and d'': "t_messages d'' = t_messages d'" for msg d'' c1 c2 at'
  proof -
    from assms(2) [unfolded p] obtain r where r: "waid_row i w d = Some r" "msg = receipt_message r" "receipt_hit i w r"
      "status_rank (mr_status r) < status_rank status"
      and d': "d' = upd_messages (receipt_hit i w) (receipt_row status at) d"
      using assms(1) by (rule pg_receipt_step)
    have "waid_row i w d'' = Some (receipt_row status at r)"
      using r by (simp add: d'' d' waid_row_receipt)
    moreover have "m_Status (receipt_message (receipt_row status at r)) = status" "m_Status msg = mr_status r"
      by (simp_all add: r(2) receipt_message_def zero_message_def receipt_row_def)
    ultimately show ?thesis using status r(4)
      by (auto simp: receipt_step_def pg_GetMessageByWAID_def split: option.split)
  qed
  ultimately show ?thesis by blast
qed

definition sample_receipt_db :: db where
  "sample_receipt_db = sample_db\<lparr>t_messages := [(message_row_of ''m1'' None 0 sample_message)
     \<lparr>mr_status := ''sent'', mr_wa_message_id := Some ''3EB0''\<rparr>]\<rparr>"

theorem receipts_forward_once_witness:
  "\<exists>msg d'. receipt_step (postgres_store Some) sample_ctx sample_ctx ''main'' ''3EB0'' ''delivered'' 5 sample_receipt_db = (Some msg, d')
    \<and> receipt_step (postgres_store Some) sample_ctx sample_ctx ''main'' ''3EB0'' ''delivered'' 7 d' = (None, d')"
proof -
  obtain msg d' where r: "receipt_step (postgres_store Some) sample_ctx sample_ctx ''main'' ''3EB0'' ''delivered'' 5 sample_receipt_db = (Some msg, d')"
    by (simp add: receipt_step_def pg_GetMessageByWAID_def pg_UpdateMessageReceipt_def sample_receipt_db_def
        message_row_of_def sample_message_def receipt_message_def zero_message_def)
  then show ?thesis using receipts_forward_once [OF _ r, of ReceiptTypeDelivered] by (auto simp: receipt_status_def)
qed

section \<open>Events act on their own session\<close>

text \<open>
  What the handlers rely on: a store that satisfies \<open>session_store\<close>, whose receipts do not touch the sessions,
  and a dispatcher that leaves the sessions alone.
\<close>

locale session_events = session_store S ok view
  for S :: "'st store" and ok :: "'st \<Rightarrow> bool" and view :: "'st \<Rightarrow> string \<Rightarrow> session option" +
  fixes D :: "'st dispatch option"
  assumes dispatch_ok: "D = Some d \<Longrightarrow> ok st \<Longrightarrow> ok (snd (d c ev p st))"
    and dispatch_view: "D = Some d \<Longrightarrow> ok st \<Longrightarrow> view (snd (d c ev p st)) = view st"
    and receipts_ok: "ok st \<Longrightarrow> fair_order c \<Longrightarrow> ok (snd (UpdateMessageReceipt S c i w a t st))"
    and receipts_view: "ok st \<Longrightarrow> fair_order c \<Longrightarrow> view (snd (UpdateMessageReceipt S c i w a t st)) = view st"
begin

lemma publish_ok: "ok st \<Longrightarrow> ok (snd (opt_dispatch D c ev p st)) \<and> view (snd (opt_dispatch D c ev p st)) = view st"
  by (auto simp: opt_dispatch_def split_beta dispatch_ok dispatch_view split: option.splits)

lemma status_ok: "ok st \<Longrightarrow> ok (snd (dispatchSessionStatus S D c c' i a h st))
    \<and> view (snd (dispatchSessionStatus S D c c' i a h st)) = view st"
  using publish_ok by (auto simp: dispatchSessionStatus_def split: option.splits)

lemma report_ok: "ok st \<Longrightarrow> ok (snd (report_status S D E i a h st))"
  by (simp add: report_status_def status_ok update_ok)

lemma report_view: "ok st \<Longrightarrow> j \<noteq> i \<Longrightarrow> view (snd (report_status S D E i a h st)) j = view st j"
  by (simp add: report_status_def status_ok update_ok write_frame)

text \<open>When the write succeeds, the session shows the new status and no code is left on it.\<close>

lemma report_shows:
  assumes "ok st" "UpdateSession S (E 0) i a [] [] h st = (None, st1)" "view st i = Some v"
  shows "\<exists>v'. view (snd (report_status S D E i a h st)) i = Some v' \<and> s_Status v' = a \<and> s_PhoneNumber v' = h
    \<and> s_QRCode v' = [] \<and> s_PairingCode v' = [] \<and> s_QRExpiresAt v' = None \<and> s_WAJID v' = s_WAJID v"
proof -
  have "ok st1" using update_ok [OF assms(1), of "E 0" i a "[]" "[]" h] assms(2) by simp
  then have "view (snd (report_status S D E i a h st)) = view st1" using assms(2) by (simp add: report_status_def status_ok)
  then show ?thesis using update_status [OF assms] by auto
qed

lemma receipt_step_ok:
  assumes "ok st" "fair_order c'"
  shows "ok (snd (receipt_step S c c' i w a t st)) \<and> view (snd (receipt_step S c c' i w a t st)) = view st"
  using receipts_ok [OF assms, of i w a t] receipts_view [OF assms, of i w a t] assms(1)
  by (auto simp: receipt_step_def split: sum.splits option.splits prod.splits)

lemma receipt_loop_ok:
  "ok st \<Longrightarrow> (\<And>k. fair_order (E k)) \<Longrightarrow> ok (snd (receipt_loop S D fmt E k i a t ids st))
     \<and> view (snd (receipt_loop S D fmt E k i a t ids st)) = view st"
proof (induction ids arbitrary: k st)
  case (Cons w ids)
  obtain r st1 where r: "receipt_step S (E (3 * k)) (E (3 * k + 1)) i w a t st = (r, st1)" by fastforce
  have st1: "ok st1" "view st1 = view st"
    using receipt_step_ok [OF Cons.prems(1) Cons.prems(2) [of "3 * k + 1"], of "E (3 * k)" i w a t] r by simp_all
  show ?case
  proof (cases r)
    case None
    then show ?thesis using r st1 Cons.IH [OF st1(1) Cons.prems(2)] by simp
  next
    case (Some msg)
    obtain q st2 where q: "opt_dispatch D (E (3 * k + 2)) (''message.'' @ a) (receipt_payload fmt i w t msg) st1 = (q, st2)"
      by fastforce
    then have st2: "ok st2" "view st2 = view st"
      using publish_ok [OF st1(1), of "E (3 * k + 2)" "''message.'' @ a" "receipt_payload fmt i w t msg"] st1 by simp_all
    then show ?thesis using r q Some Cons.IH [OF st2(1) Cons.prems(2)] by (cases q) simp_all
  qed
qed simp

lemma handle_event_ok:
  assumes "ok st" "\<And>k. fair_order (E k)"
  shows "ok (snd (handle_event S D fmt E h ev st))"
  using assms by (cases "(S, D, fmt, E, h, ev, st)" rule: handle_event.cases)
    (simp_all add: Let_def report_ok status_ok identity_ok handleReceipt_def receipt_loop_ok split: option.split)

lemma handle_event_frame:
  assumes "ok st" "\<And>k. fair_order (E k)" "j \<noteq> handler_session h"
  shows "view (snd (handle_event S D fmt E h ev st)) j = view st j"
  using assms by (cases "(S, D, fmt, E, h, ev, st)" rule: handle_event.cases)
    (simp_all add: Let_def report_view status_ok identity_ok write_frame handleReceipt_def receipt_loop_ok split: option.split)

lemma offer_code_frame:
  assumes "ok st"
  shows "ok (snd (offer_code S D E i q p h t st))"
    and "j \<noteq> i \<Longrightarrow> view (snd (offer_code S D E i q p h t st)) j = view st j"
  using assms by (simp_all add: offer_code_def Let_def status_ok update_ok expiry_ok write_frame)

lemma qr_step_frame:
  assumes "ok st"
  shows "ok (snd (snd (qr_step S D png lower E b b' i me h item st)))"
    and "j \<noteq> i \<Longrightarrow> view (snd (snd (qr_step S D png lower E b b' i me h item st))) j = view st j"
  using assms offer_code_frame report_ok report_view
  by (simp_all add: qr_step_cases split: sum.split)

end

end
