(* ===== verification/Events_Model.thy ===== *)
theory Events_Model
  imports Queue_Model "HOL-Library.Sublist"
begin

text \<open>
  \<open>internal/events/broker.go\<close>: the fan-out \<open>Multi\<close> and the in-process \<open>Broker\<close> that feeds the
  server-sent-event streams.  A channel is a cell of a heap; sending on a closed channel and closing a
  closed channel are panics of Go, here \<open>None\<close>.  The lemmas show that no sequence of operations
  panics, that no buffer exceeds its capacity, and that a subscriber reads the dispatched events in order,
  each at most once, and all of them as long as its buffer never fills up.
\<close>

section \<open>Multi\<close>

text \<open>
  Every target is called, whatever error the earlier ones return; the first error is the result.  A
  panic of a target unwinds the loop.
\<close>

fun Multi_Dispatch :: "'w dispatch option list \<Rightarrow> 'w dispatch" where
  "Multi_Dispatch [] c name payload w = (None, w)"
| "Multi_Dispatch (None # ts) c name payload w = Multi_Dispatch ts c name payload w"
| "Multi_Dispatch (Some d # ts) c name payload w =
     (case d c name payload w of (r, w1) \<Rightarrow>
       if panicked r then (r, w1) else
       (case Multi_Dispatch ts c name payload w1 of (r', w2) \<Rightarrow>
         (case r of None \<Rightarrow> (r', w2) | Some e \<Rightarrow> (Some e, w2))))"

text \<open>An invariant that every target keeps is kept by the fan-out.\<close>

lemma Multi_Dispatch_preserves:
  assumes "\<And>d w. Some d \<in> set ts \<Longrightarrow> P w \<Longrightarrow> P (snd (d c name payload w))" "P w"
  shows "P (snd (Multi_Dispatch ts c name payload w))"
  using assms
proof (induction ts arbitrary: w)
  case (Cons t ts)
  show ?case
  proof (cases t)
    case (Some d)
    have d: "P (snd (d c name payload w))" using Cons.prems Some by simp
    then have "P (snd (Multi_Dispatch ts c name payload (snd (d c name payload w))))"
      using Cons.IH Cons.prems(1) by simp
    then show ?thesis using Some d by (simp add: split_beta split: option.split)
  qed (use Cons in simp)
qed simp

section \<open>Broker\<close>

record event =
  ev_Name :: string
  ev_Data :: json

record channel =
  ch_buf :: "event list"
  ch_closed :: bool

definition channel_capacity :: nat where
  "channel_capacity = 32"

text \<open>The heap of all channels made so far, and the keys of the map \<open>subscribers\<close>.\<close>

record broker =
  b_heap :: "channel list"
  b_subs :: "nat list"

definition NewBroker :: broker where
  "NewBroker = \<lparr>b_heap = [], b_subs = []\<rparr>"

definition Subscribe :: "broker \<Rightarrow> nat \<times> broker" where
  "Subscribe b = (length (b_heap b),
     \<lparr>b_heap = b_heap b @ [\<lparr>ch_buf = [], ch_closed = False\<rparr>], b_subs = b_subs b @ [length (b_heap b)]\<rparr>)"

definition close_channel :: "nat \<Rightarrow> channel list \<Rightarrow> channel list option" where
  "close_channel ch h = (if ch_closed (h ! ch) then None
     else Some (h[ch := (h ! ch)\<lparr>ch_closed := True\<rparr>]))"

text \<open>The function \<open>Subscribe\<close> returns.\<close>

definition unsubscribe :: "nat \<Rightarrow> broker \<Rightarrow> broker option" where
  "unsubscribe ch b = (if ch \<in> set (b_subs b)
     then (case close_channel ch (b_heap b) of None \<Rightarrow> None
       | Some h \<Rightarrow> Some \<lparr>b_heap = h, b_subs = removeAll ch (b_subs b)\<rparr>)
     else Some b)"

text \<open>\<open>select { case ch <- ev: default: }\<close>.\<close>

definition try_send :: "event \<Rightarrow> channel \<Rightarrow> channel option" where
  "try_send ev c = (if ch_closed c then None
     else if length (ch_buf c) < channel_capacity then Some (c\<lparr>ch_buf := ch_buf c @ [ev]\<rparr>)
     else Some c)"

fun send_all :: "event \<Rightarrow> nat list \<Rightarrow> channel list \<Rightarrow> channel list option" where
  "send_all ev [] h = Some h"
| "send_all ev (ch # chs) h = (case try_send ev (h ! ch) of None \<Rightarrow> None
     | Some c \<Rightarrow> send_all ev chs (h[ch := c]))"

text \<open>\<open>Broker.Dispatch\<close>; a \<open>json\<close> value always marshals, so its error is always nil.\<close>

definition Broker_Dispatch :: "string \<Rightarrow> json \<Rightarrow> broker \<Rightarrow> broker option" where
  "Broker_Dispatch name payload b =
     (case send_all \<lparr>ev_Name = name, ev_Data = payload\<rparr> (b_subs b) (b_heap b) of None \<Rightarrow> None
      | Some h \<Rightarrow> Some (b\<lparr>b_heap := h\<rparr>))"

text \<open>The receiving side of a stream: an event, the end of a closed channel, or nothing yet.\<close>

datatype received = Got event | Closed | Blocked

definition receive :: "nat \<Rightarrow> broker \<Rightarrow> received \<times> broker" where
  "receive ch b = (case ch_buf (b_heap b ! ch) of
       ev # evs \<Rightarrow> (Got ev, b\<lparr>b_heap := (b_heap b)[ch := (b_heap b ! ch)\<lparr>ch_buf := evs\<rparr>]\<rparr>)
     | [] \<Rightarrow> (if ch_closed (b_heap b ! ch) then Closed else Blocked, b))"

section \<open>No panic, bounded buffers\<close>

definition broker_ok :: "broker \<Rightarrow> bool" where
  "broker_ok b \<longleftrightarrow> distinct (b_subs b)
     \<and> (\<forall>ch \<in> set (b_subs b). ch < length (b_heap b) \<and> \<not> ch_closed (b_heap b ! ch))
     \<and> (\<forall>i < length (b_heap b). length (ch_buf (b_heap b ! i)) \<le> channel_capacity)"

text \<open>
  What a broadcast does to each channel, in any order of iteration: the subscribers with room get
  the event.
\<close>

definition offer :: "event \<Rightarrow> channel \<Rightarrow> channel" where
  "offer ev c = (if length (ch_buf c) < channel_capacity then c\<lparr>ch_buf := ch_buf c @ [ev]\<rparr> else c)"

lemma try_send_open: "\<not> ch_closed c \<Longrightarrow> try_send ev c = Some (offer ev c)"
  by (simp add: try_send_def offer_def)

lemma offer_simps [simp]: "ch_closed (offer ev c) = ch_closed c"
  by (simp add: offer_def)

lemma send_all_open:
  assumes "distinct chs" "\<And>ch. ch \<in> set chs \<Longrightarrow> ch < length h \<and> \<not> ch_closed (h ! ch)"
  shows "\<exists>h'. send_all ev chs h = Some h' \<and> length h' = length h
    \<and> (\<forall>i < length h. h' ! i = (if i \<in> set chs then offer ev (h ! i) else h ! i))"
  using assms
proof (induction chs arbitrary: h)
  case (Cons ch chs)
  let ?h = "h[ch := offer ev (h ! ch)]"
  have ch: "ch < length h" "\<not> ch_closed (h ! ch)" using Cons.prems(2) [of ch] by simp_all
  have "\<exists>h'. send_all ev chs ?h = Some h' \<and> length h' = length ?h
    \<and> (\<forall>i < length ?h. h' ! i = (if i \<in> set chs then offer ev (?h ! i) else ?h ! i))"
    by (rule Cons.IH) (use Cons.prems in \<open>auto simp: nth_list_update\<close>)
  then obtain h' where "send_all ev chs ?h = Some h'" "length h' = length h"
    "\<And>i. i < length h \<Longrightarrow> h' ! i = (if i \<in> set chs then offer ev (?h ! i) else ?h ! i)" by auto
  with ch Cons.prems(1) show ?case
    by (auto simp: try_send_open nth_list_update)
qed simp

lemma send_all_order:
  assumes "distinct chs" "set chs' = set chs" "distinct chs'"
    and "\<And>ch. ch \<in> set chs \<Longrightarrow> ch < length h \<and> \<not> ch_closed (h ! ch)"
  shows "send_all ev chs' h = send_all ev chs h"
proof -
  obtain h1 where h1: "send_all ev chs h = Some h1" "length h1 = length h"
    "\<forall>i < length h. h1 ! i = (if i \<in> set chs then offer ev (h ! i) else h ! i)"
    using send_all_open [of chs h ev] assms by blast
  obtain h2 where h2: "send_all ev chs' h = Some h2" "length h2 = length h"
    "\<forall>i < length h. h2 ! i = (if i \<in> set chs' then offer ev (h ! i) else h ! i)"
    using send_all_open [of chs' h ev] assms by blast
  have "h1 = h2" using h1 h2 assms(2) by (intro nth_equalityI) auto
  with h1 h2 show ?thesis by simp
qed

lemma Broker_Dispatch_some:
  assumes "broker_ok b"
  obtains h where "Broker_Dispatch name payload b = Some (b\<lparr>b_heap := h\<rparr>)" "length h = length (b_heap b)"
    "\<And>i. i < length h \<Longrightarrow> h ! i = (if i \<in> set (b_subs b)
       then offer \<lparr>ev_Name = name, ev_Data = payload\<rparr> (b_heap b ! i) else b_heap b ! i)"
proof -
  have "\<exists>h'. send_all \<lparr>ev_Name = name, ev_Data = payload\<rparr> (b_subs b) (b_heap b) = Some h' \<and> length h' = length (b_heap b)
    \<and> (\<forall>i < length (b_heap b). h' ! i = (if i \<in> set (b_subs b)
       then offer \<lparr>ev_Name = name, ev_Data = payload\<rparr> (b_heap b ! i) else b_heap b ! i))"
    using assms by (intro send_all_open) (auto simp: broker_ok_def)
  then show ?thesis using that by (auto simp: Broker_Dispatch_def)
qed

lemma offer_bound: "length (ch_buf c) \<le> channel_capacity \<Longrightarrow> length (ch_buf (offer ev c)) \<le> channel_capacity"
  by (simp add: offer_def)

lemma NewBroker_ok: "broker_ok NewBroker"
  by (simp add: NewBroker_def broker_ok_def)

lemma Subscribe_ok: "broker_ok b \<Longrightarrow> broker_ok (snd (Subscribe b))"
  by (auto simp: Subscribe_def broker_ok_def nth_append)

lemma unsubscribe_ok:
  "broker_ok b \<Longrightarrow> \<exists>b'. unsubscribe ch b = Some b' \<and> broker_ok b' \<and> ch \<notin> set (b_subs b')"
  by (auto simp: unsubscribe_def close_channel_def broker_ok_def nth_list_update removeAll_filter_not_eq)

lemma Broker_Dispatch_ok:
  assumes "broker_ok b"
  shows "\<exists>b'. Broker_Dispatch name payload b = Some b' \<and> broker_ok b'"
proof -
  obtain h where h: "Broker_Dispatch name payload b = Some (b\<lparr>b_heap := h\<rparr>)" "length h = length (b_heap b)"
    "\<And>i. i < length h \<Longrightarrow> h ! i = (if i \<in> set (b_subs b)
       then offer \<lparr>ev_Name = name, ev_Data = payload\<rparr> (b_heap b ! i) else b_heap b ! i)"
    using Broker_Dispatch_some [OF assms] by blast
  have "broker_ok (b\<lparr>b_heap := h\<rparr>)"
    using assms h(2,3) by (simp add: broker_ok_def offer_bound)
  with h show ?thesis by blast
qed

lemma receive_ok: "broker_ok b \<Longrightarrow> broker_ok (snd (receive ch b))"
  by (cases "ch < length (b_heap b)")
    (fastforce simp: receive_def broker_ok_def nth_list_update list_update_beyond split: list.splits)+

section \<open>Sequences of operations\<close>

datatype broker_op = OpSubscribe | OpUnsubscribe nat | OpDispatch string json | OpReceive nat

fun broker_step :: "broker_op \<Rightarrow> broker \<Rightarrow> broker option" where
  "broker_step OpSubscribe b = Some (snd (Subscribe b))"
| "broker_step (OpUnsubscribe ch) b = unsubscribe ch b"
| "broker_step (OpDispatch name payload) b = Broker_Dispatch name payload b"
| "broker_step (OpReceive ch) b = Some (snd (receive ch b))"

fun broker_run :: "broker_op list \<Rightarrow> broker \<Rightarrow> broker option" where
  "broker_run [] b = Some b"
| "broker_run (x # xs) b = (case broker_step x b of None \<Rightarrow> None | Some b' \<Rightarrow> broker_run xs b')"

text \<open>What a step offers to the channel \<open>ch\<close>, and what its reader takes from it.\<close>

fun step_offered :: "nat \<Rightarrow> broker_op \<Rightarrow> broker \<Rightarrow> event list" where
  "step_offered ch (OpDispatch name payload) b =
     (if ch \<in> set (b_subs b) then [\<lparr>ev_Name = name, ev_Data = payload\<rparr>] else [])"
| "step_offered ch _ b = []"

fun step_taken :: "nat \<Rightarrow> broker_op \<Rightarrow> broker \<Rightarrow> event list" where
  "step_taken ch (OpReceive ch') b =
     (if ch' = ch then case fst (receive ch b) of Got ev \<Rightarrow> [ev] | _ \<Rightarrow> [] else [])"
| "step_taken ch _ b = []"

fun along :: "(broker_op \<Rightarrow> broker \<Rightarrow> event list) \<Rightarrow> broker_op list \<Rightarrow> broker \<Rightarrow> event list" where
  "along f [] b = []"
| "along f (x # xs) b = f x b @ (case broker_step x b of None \<Rightarrow> [] | Some b' \<Rightarrow> along f xs b')"

text \<open>Readers hold channels that exist.\<close>

fun op_valid :: "broker_op \<Rightarrow> broker \<Rightarrow> bool" where
  "op_valid (OpReceive ch) b \<longleftrightarrow> ch < length (b_heap b)"
| "op_valid _ b \<longleftrightarrow> True"

fun ops_valid :: "broker_op list \<Rightarrow> broker \<Rightarrow> bool" where
  "ops_valid [] b \<longleftrightarrow> True"
| "ops_valid (x # xs) b \<longleftrightarrow> op_valid x b \<and> (case broker_step x b of None \<Rightarrow> True | Some b' \<Rightarrow> ops_valid xs b')"

definition buf_of :: "nat \<Rightarrow> broker \<Rightarrow> event list" where
  "buf_of ch b = (if ch < length (b_heap b) then ch_buf (b_heap b ! ch) else [])"

lemma broker_step_ok: "broker_ok b \<Longrightarrow> \<exists>b'. broker_step x b = Some b' \<and> broker_ok b'"
  by (cases x) (simp_all add: Subscribe_ok receive_ok Broker_Dispatch_ok, use unsubscribe_ok in blast)

text \<open>One step moves events from the offer through the buffer to the reader, dropping at most the new one.\<close>

lemma broker_step_flow:
  assumes "broker_ok b" "broker_step x b = Some b'" "op_valid x b"
  shows "step_taken ch x b @ buf_of ch b' \<in> {buf_of ch b, buf_of ch b @ step_offered ch x b}
    \<and> (length (buf_of ch b) < channel_capacity \<longrightarrow>
        step_taken ch x b @ buf_of ch b' = buf_of ch b @ step_offered ch x b)"
proof (cases x)
  case OpSubscribe
  then show ?thesis using assms(2) by (auto simp: Subscribe_def buf_of_def nth_append)
next
  case (OpUnsubscribe k)
  then show ?thesis using assms(1,2)
    by (auto simp: unsubscribe_def close_channel_def buf_of_def nth_list_update broker_ok_def split: if_splits)
next
  case (OpDispatch name payload)
  obtain h where h: "Broker_Dispatch name payload b = Some (b\<lparr>b_heap := h\<rparr>)" "length h = length (b_heap b)"
    "\<And>i. i < length h \<Longrightarrow> h ! i = (if i \<in> set (b_subs b)
       then offer \<lparr>ev_Name = name, ev_Data = payload\<rparr> (b_heap b ! i) else b_heap b ! i)"
    using Broker_Dispatch_some [OF assms(1)] by blast
  moreover have "ch \<in> set (b_subs b) \<Longrightarrow> ch < length (b_heap b)" using assms(1) by (simp add: broker_ok_def)
  ultimately show ?thesis using assms(2) OpDispatch by (auto simp: buf_of_def offer_def)
next
  case (OpReceive k)
  then show ?thesis using assms(2,3)
    by (auto simp: receive_def buf_of_def nth_list_update split: list.splits)
qed

lemma broker_flow:
  assumes "broker_ok b" "ops_valid ops b"
  shows "\<exists>b'. broker_run ops b = Some b' \<and> broker_ok b'
    \<and> subseq (along (step_taken ch) ops b @ buf_of ch b') (buf_of ch b @ along (step_offered ch) ops b)
    \<and> (length (buf_of ch b @ along (step_offered ch) ops b) \<le> channel_capacity \<longrightarrow>
        along (step_taken ch) ops b @ buf_of ch b' = buf_of ch b @ along (step_offered ch) ops b)"
  using assms
proof (induction ops arbitrary: b)
  case (Cons x xs)
  obtain b1 where b1: "broker_step x b = Some b1" "broker_ok b1" using broker_step_ok [OF Cons.prems(1)] by blast
  let ?off = "step_offered ch x b" and ?tak = "step_taken ch x b"
  let ?offs = "along (step_offered ch) xs b1" and ?taks = "along (step_taken ch) xs b1"
  have flow: "?tak @ buf_of ch b1 \<in> {buf_of ch b, buf_of ch b @ ?off}"
    "length (buf_of ch b) < channel_capacity \<Longrightarrow> ?tak @ buf_of ch b1 = buf_of ch b @ ?off"
    using broker_step_flow [OF Cons.prems(1) b1(1)] Cons.prems(2) by auto
  from Cons.IH [OF b1(2)] Cons.prems(2) b1(1) obtain b' where b': "broker_run xs b1 = Some b'" "broker_ok b'"
    and sub: "subseq (?taks @ buf_of ch b') (buf_of ch b1 @ ?offs)"
    and eq: "length (buf_of ch b1 @ ?offs) \<le> channel_capacity \<Longrightarrow> ?taks @ buf_of ch b' = buf_of ch b1 @ ?offs"
    by auto
  have "subseq (?tak @ buf_of ch b1) (buf_of ch b @ ?off)" using flow(1) by auto
  then have "subseq ((?tak @ buf_of ch b1) @ ?offs) ((buf_of ch b @ ?off) @ ?offs)"
    by (rule list_emb_append_mono) simp
  moreover have "subseq (?tak @ ?taks @ buf_of ch b') (?tak @ buf_of ch b1 @ ?offs)"
    by (rule list_emb_append_mono [OF _ sub]) simp
  ultimately have "subseq (?tak @ ?taks @ buf_of ch b') (buf_of ch b @ ?off @ ?offs)"
    by (metis append_assoc subseq_order.order_trans)
  moreover have "?tak @ ?taks @ buf_of ch b' = buf_of ch b @ ?off @ ?offs"
    if len: "length (buf_of ch b @ ?off @ ?offs) \<le> channel_capacity"
  proof -
    have e: "?tak @ buf_of ch b1 = buf_of ch b @ ?off"
      using flow len by (cases "?off = []") (auto simp: length_greater_0_conv [symmetric] simp del: length_greater_0_conv)
    from arg_cong [OF e, of length] len have "length (buf_of ch b1 @ ?offs) \<le> channel_capacity" by simp
    from eq [OF this] e show ?thesis by (metis append_assoc)
  qed
  ultimately show ?case using b' b1(1) by auto
qed auto

text \<open>
  C27.  The event stream.  From a new broker, no sequence of subscriptions, cancellations, broadcasts
  and reads panics (no send on a closed channel, no second close) and no buffer exceeds 32 events.
  What a reader took and what still waits in its buffer is, in order and without duplicates, a
  subsequence of the events broadcast while it was subscribed; when those are at most 32, it is all
  of them.
\<close>

theorem broker_delivers_in_order:
  assumes "ops_valid ops NewBroker"
  shows "\<exists>b'. broker_run ops NewBroker = Some b'
    \<and> (\<forall>ch. length (buf_of ch b') \<le> 32
      \<and> subseq (along (step_taken ch) ops NewBroker @ buf_of ch b') (along (step_offered ch) ops NewBroker)
      \<and> (length (along (step_offered ch) ops NewBroker) \<le> 32 \<longrightarrow>
          along (step_taken ch) ops NewBroker @ buf_of ch b' = along (step_offered ch) ops NewBroker))"
proof -
  obtain b' where b': "broker_run ops NewBroker = Some b'" "broker_ok b'"
    using broker_flow [OF NewBroker_ok assms, of 0] by blast
  have buf: "buf_of ch NewBroker = []" for ch by (simp add: buf_of_def NewBroker_def)
  show ?thesis
  proof (intro exI [of _ b'] conjI allI b'(1))
    fix ch
    show "length (buf_of ch b') \<le> 32" using b'(2) by (simp add: broker_ok_def buf_of_def channel_capacity_def)
    show "subseq (along (step_taken ch) ops NewBroker @ buf_of ch b') (along (step_offered ch) ops NewBroker)"
      and "length (along (step_offered ch) ops NewBroker) \<le> 32 \<longrightarrow>
          along (step_taken ch) ops NewBroker @ buf_of ch b' = along (step_offered ch) ops NewBroker"
      using broker_flow [OF NewBroker_ok assms, of ch] b'(1) by (auto simp: buf channel_capacity_def)
  qed
qed

theorem broker_delivers_in_order_witness:
  "\<exists>b'. broker_run [OpSubscribe, OpDispatch ''a'' JNull, OpDispatch ''b'' JNull, OpReceive 0,
      OpUnsubscribe 0, OpUnsubscribe 0, OpDispatch ''c'' JNull] NewBroker = Some b'
    \<and> [\<lparr>ev_Name = ''a'', ev_Data = JNull\<rparr>] @ buf_of 0 b'
       = [\<lparr>ev_Name = ''a'', ev_Data = JNull\<rparr>, \<lparr>ev_Name = ''b'', ev_Data = JNull\<rparr>]"
proof -
  let ?ops = "[OpSubscribe, OpDispatch ''a'' JNull, OpDispatch ''b'' JNull, OpReceive 0,
      OpUnsubscribe 0, OpUnsubscribe 0, OpDispatch ''c'' JNull]"
  have "ops_valid ?ops NewBroker" by code_simp
  moreover have "along (step_taken 0) ?ops NewBroker = [\<lparr>ev_Name = ''a'', ev_Data = JNull\<rparr>]"
    and "along (step_offered 0) ?ops NewBroker
      = [\<lparr>ev_Name = ''a'', ev_Data = JNull\<rparr>, \<lparr>ev_Name = ''b'', ev_Data = JNull\<rparr>]" by code_simp+
  moreover have "length [\<lparr>ev_Name = ''a'', ev_Data = JNull\<rparr>, \<lparr>ev_Name = ''b'', ev_Data = JNull\<rparr>] \<le> 32"
    by simp
  ultimately show ?thesis using broker_delivers_in_order [of ?ops] by metis
qed

end
