(* ===== verification/Webhook_Model.thy ===== *)
theory Webhook_Model
  imports Db_Schema Secret_Model
begin

text \<open>
  \<open>internal/webhook/dispatcher.go\<close>: \<open>Dispatch\<close>, \<open>Retry\<close> and \<open>Test\<close> with their helpers, over the
  database and the log of HTTP requests sent.  HMAC-SHA256, the acceptance of a URL by
  \<open>http.NewRequest\<close> and the two textual forms of a JSON value (Go's encoder, PostgreSQL's \<open>jsonb\<close>
  output) are parameters.  The lemmas show who is sent what under which signature, and what
  the delivery log then says.
\<close>

section \<open>Helpers\<close>

fun contains :: "string list \<Rightarrow> string \<Rightarrow> bool" where
  "contains [] value \<longleftrightarrow> False"
| "contains (v # vs) value \<longleftrightarrow> v = value \<or> contains vs value"

text \<open>\<open>value.(string)\<close> on the payload's \<open>sessionId\<close>; an absent key is nil and no string.\<close>

definition scopeMatches :: "string list \<Rightarrow> json option \<Rightarrow> bool" where
  "scopeMatches scopes value = (if scopes = [] then True
     else case value of Some (JStr session) \<Rightarrow> contains scopes session | _ \<Rightarrow> False)"

definition nullableStatus :: "err + http_answer \<Rightarrow> int option" where
  "nullableStatus resp = (case resp of Inl e \<Rightarrow> None | Inr a \<Rightarrow> Some (ha_code a))"

text \<open>The network the transport of \<open>newHTTPClient\<close> dials, by \<open>WEBHOOK_HTTP_IP_VERSION\<close>.\<close>

definition dial_network :: "string \<Rightarrow> string \<Rightarrow> string" where
  "dial_network envValue network =
     (let family = trim_space envValue; family' = (if family = [] then ''4'' else family)
      in if family' = ''4'' then ''tcp4'' else if family' = ''6'' then ''tcp6'' else network)"

record http_request =
  rq_url :: string
  rq_event :: string
  rq_signature :: string
  rq_body :: string

record hook_params =
  hp_cipher :: cipher
  hp_key :: string
  hp_hmac :: "string \<Rightarrow> string \<Rightarrow> string"
  hp_url_valid :: "string \<Rightarrow> bool"
  hp_json :: "json \<Rightarrow> string"
  hp_jsonb :: "json \<Rightarrow> string"
  hp_rfc3339 :: "time \<Rightarrow> string"
  hp_uuid :: "string \<Rightarrow> string option"

record hooks =
  hk_db :: db
  hk_out :: "http_request list"

definition sign :: "hook_params \<Rightarrow> string \<Rightarrow> string \<Rightarrow> string" where
  "sign P body secret = hp_hmac P secret body"

definition signed_request :: "hook_params \<Rightarrow> string \<Rightarrow> string \<Rightarrow> string \<Rightarrow> string \<Rightarrow> http_request" where
  "signed_request P url event body encrypted = \<lparr>rq_url = url, rq_event = event,
     rq_signature = sign P body (fst (Decrypt (hp_cipher P) encrypted (hp_key P))), rq_body = body\<rparr>"

text \<open>Status and error text of one attempt.  \<open>Do\<close> returning both a response and an error is read as the error.\<close>

definition attempt_status :: "err + http_answer \<Rightarrow> string \<times> string option" where
  "attempt_status resp = (case resp of Inl e \<Rightarrow> (''failed'', Some (err_text e))
     | Inr a \<Rightarrow> if ha_code a < 200 \<or> ha_code a \<ge> 300 then (''failed'', Some (ha_status a))
         else (''delivered'', None))"

definition attempt_row :: "time \<Rightarrow> err + http_answer \<Rightarrow> int \<Rightarrow> delivery_row \<Rightarrow> delivery_row" where
  "attempt_row now resp attempts r = r\<lparr>dr_status := fst (attempt_status resp), dr_attempts := attempts,
     dr_response_status := nullableStatus resp, dr_error := snd (attempt_status resp),
     dr_delivered_at := (if fst (attempt_status resp) = ''delivered'' then Some now else dr_delivered_at r),
     dr_updated_at := now\<rparr>"

text \<open>The row an insert leaves, with the schema's defaults.\<close>

definition queued_delivery :: "time \<Rightarrow> string \<Rightarrow> string \<Rightarrow> string \<Rightarrow> string \<Rightarrow> json \<Rightarrow> delivery_row" where
  "queued_delivery now i webhook eventID event payload = \<lparr>dr_id = i, dr_webhook_id = webhook,
     dr_event_id = eventID, dr_event = event, dr_payload = payload, dr_status = ''queued'',
     dr_attempts = 0, dr_max_attempts = 3, dr_response_status = None, dr_error = None,
     dr_queued_at = now, dr_delivered_at = None, dr_updated_at = now, dr_created_at = now\<rparr>"

section \<open>Dispatch\<close>

definition hook_matches :: "string \<Rightarrow> json \<Rightarrow> webhook_row \<Rightarrow> bool" where
  "hook_matches event payload r \<longleftrightarrow> contains (wr_events r) event
     \<and> scopeMatches (case wr_session_ids r of None \<Rightarrow> [] | Some xs \<Rightarrow> xs) (jfield ''sessionId'' payload)"

definition nil_request :: err where
  "nil_request = Panicked ''invalid memory address or nil pointer dereference''"

text \<open>
  The loop over the active webhooks.  Request 0 is the query and 1 the final \<open>rows.Err()\<close>; the \<open>k\<close>-th
  matching webhook draws the identifiers \<open>2k\<close> and \<open>2k+1\<close>, inserts in request \<open>2k+2\<close>, sends HTTP request
  \<open>k\<close> and updates in request \<open>2k+3\<close>, whose error is dropped.  The error of \<open>NewRequest\<close> is dropped
  too, so that a URL it refuses is a nil dereference.
\<close>

fun dispatch_rows :: "hook_params \<Rightarrow> ctx \<Rightarrow> string \<Rightarrow> json \<Rightarrow> nat \<Rightarrow> webhook_row list \<Rightarrow> hooks \<Rightarrow> err option \<times> hooks" where
  "dispatch_rows P c event payload k [] h = (c_fault c 1, h)"
| "dispatch_rows P c event payload k (r # rs) h =
     (if \<not> hook_matches event payload r then dispatch_rows P c event payload k rs h
      else
     (case (case c_fault c (2 * k + 2) of Some e \<Rightarrow> Inl e
            | None \<Rightarrow> insert_delivery (queued_delivery (c_now c) (c_uuid c (2 * k)) (wr_id r)
                (c_uuid c (2 * k + 1)) event payload) (hk_db h)) of
        Inl e \<Rightarrow> (Some e, h)
      | Inr d1 \<Rightarrow>
     (if \<not> hp_url_valid P (wr_url r) then (Some nil_request, h\<lparr>hk_db := d1\<rparr>)
      else
       let req = signed_request P (wr_url r) event (hp_json P payload) (coalesce (wr_secret_encrypted r));
           d2 = (case c_fault c (2 * k + 3) of Some e \<Rightarrow> d1
             | None \<Rightarrow> upd_deliveries (\<lambda>x. dr_id x = c_uuid c (2 * k)) (attempt_row (c_now c) (c_http c k) 1) d1)
       in dispatch_rows P c event payload (Suc k) rs \<lparr>hk_db = d2, hk_out = hk_out h @ [req]\<rparr>)))"

definition Webhook_Dispatch :: "hook_params \<Rightarrow> hooks dispatch" where
  "Webhook_Dispatch P c event payload h = (case c_fault c 0 of Some e \<Rightarrow> (Some e, h)
     | None \<Rightarrow> dispatch_rows P c event payload 0 (filter wr_is_active (t_webhooks (hk_db h))) h)"

section \<open>Retry and Test\<close>

text \<open>
  The joined row: \<open>w.secret_encrypted\<close> is scanned into a plain string, so that a null column is a scan
  error.  Request \<open>n\<close> is the query, \<open>n+1\<close> the update.
\<close>

definition scan_null :: err where
  "scan_null = Errorf ''converting NULL to string is unsupported'' None"

definition retry_row :: "hook_params \<Rightarrow> string \<Rightarrow> db \<Rightarrow> err + (string \<times> string \<times> delivery_row)" where
  "retry_row P i d =
     (case hp_uuid P i of None \<Rightarrow> Inl invalid_text
      | Some u \<Rightarrow>
     (case find (\<lambda>r. dr_id r = u) (t_webhook_deliveries d) of None \<Rightarrow> Inl (Sentinel NoRows)
      | Some r \<Rightarrow>
     (case find (\<lambda>w. wr_id w = dr_webhook_id r) (t_webhooks d) of None \<Rightarrow> Inl (Sentinel NoRows)
      | Some w \<Rightarrow>
     (case wr_secret_encrypted w of None \<Rightarrow> Inl scan_null | Some s \<Rightarrow> Inr (wr_url w, s, r)))))"

definition bad_url :: err where
  "bad_url = Errorf ''net/url: invalid'' None"

definition retry_from :: "hook_params \<Rightarrow> ctx \<Rightarrow> nat \<Rightarrow> string \<Rightarrow> hooks \<Rightarrow> err option \<times> hooks" where
  "retry_from P c n i h =
     (case (case c_fault c n of Some e \<Rightarrow> Inl e | None \<Rightarrow> retry_row P i (hk_db h)) of
        Inl e \<Rightarrow> (Some e, h)
      | Inr (url, encrypted, r) \<Rightarrow>
     (if \<not> hp_url_valid P url then (Some bad_url, h)
      else
       let h1 = h\<lparr>hk_out := hk_out h @ [signed_request P url (dr_event r) (hp_jsonb P (dr_payload r)) encrypted]\<rparr>
       in case c_fault c (n + 1) of Some e \<Rightarrow> (Some e, h1)
          | None \<Rightarrow> (None, h1\<lparr>hk_db := upd_deliveries (\<lambda>x. dr_id x = dr_id r)
              (\<lambda>x. attempt_row (c_now c) (c_http c 0) (dr_attempts x + 1) x) (hk_db h1)\<rparr>)))"

definition Retry :: "hook_params \<Rightarrow> ctx \<Rightarrow> string \<Rightarrow> hooks \<Rightarrow> err option \<times> hooks" where
  "Retry P c i h = retry_from P c 0 i h"

definition test_payload :: "hook_params \<Rightarrow> time \<Rightarrow> string \<Rightarrow> json" where
  "test_payload P now webhookID = JObj [(''event'', JStr ''webhook.test''),
     (''timestamp'', JStr (hp_rfc3339 P now)), (''data'', JObj [(''webhookId'', JStr webhookID)])]"

text \<open>The identifier comes back with the error of the retry.\<close>

definition Test :: "hook_params \<Rightarrow> ctx \<Rightarrow> string \<Rightarrow> hooks \<Rightarrow> string \<times> err option \<times> hooks" where
  "Test P c webhookID h =
     (case (case c_fault c 0 of Some e \<Rightarrow> Inl e
            | None \<Rightarrow> (case hp_uuid P webhookID of None \<Rightarrow> Inl invalid_text
                | Some u \<Rightarrow> insert_delivery (queued_delivery (c_now c) (c_uuid c 0) u (c_uuid c 1)
                    ''webhook.test'' (test_payload P (c_now c) webhookID)) (hk_db h))) of
        Inl e \<Rightarrow> ([], Some e, h)
      | Inr d \<Rightarrow> (case retry_from P c 1 (c_uuid c 0) (h\<lparr>hk_db := d\<rparr>) of (e, h') \<Rightarrow> (c_uuid c 0, e, h')))"

section \<open>Lemmas\<close>

lemma contains_iff [simp]: "contains xs x \<longleftrightarrow> x \<in> set xs"
  by (induction xs) auto

lemma attempt_row_keys [simp]:
  "dr_id (attempt_row n a k r) = dr_id r" "dr_webhook_id (attempt_row n a k r) = dr_webhook_id r"
  by (simp_all add: attempt_row_def)

lemma delivery_frame [simp]:
  "t_webhooks (upd_deliveries p f d) = t_webhooks d" "t_messages (upd_deliveries p f d) = t_messages d"
  "t_sessions (upd_deliveries p f d) = t_sessions d" "t_queue_jobs (upd_deliveries p f d) = t_queue_jobs d"
  "t_api_keys (upd_deliveries p f d) = t_api_keys d" "t_users (upd_deliveries p f d) = t_users d"
  "t_templates (upd_deliveries p f d) = t_templates d"
  by (simp_all add: upd_deliveries_def)

lemma insert_delivery_frame:
  assumes "insert_delivery r d = Inr d'"
  shows "t_webhooks d' = t_webhooks d" "t_messages d' = t_messages d" "t_sessions d' = t_sessions d"
    "t_queue_jobs d' = t_queue_jobs d"
    "t_webhook_deliveries d' = t_webhook_deliveries d @ [r]"
  using assms by (auto simp: insert_delivery_Inr)

text \<open>Only the delivery log changes, and the schema's constraints are kept.\<close>

definition same_but_deliveries :: "db \<Rightarrow> db \<Rightarrow> bool" where
  "same_but_deliveries d d' \<longleftrightarrow> t_users d' = t_users d \<and> t_sessions d' = t_sessions d
     \<and> t_api_keys d' = t_api_keys d \<and> t_templates d' = t_templates d \<and> t_messages d' = t_messages d
     \<and> t_webhooks d' = t_webhooks d \<and> t_queue_jobs d' = t_queue_jobs d"

lemma same_but_refl [simp]: "same_but_deliveries d d"
  by (simp add: same_but_deliveries_def)

lemma same_but_upd [simp]: "same_but_deliveries d (upd_deliveries p f d') \<longleftrightarrow> same_but_deliveries d d'"
  by (simp add: same_but_deliveries_def)

lemma same_but_insert: "insert_delivery r d' = Inr d'' \<Longrightarrow> same_but_deliveries d d'' \<longleftrightarrow> same_but_deliveries d d'"
  by (auto simp: same_but_deliveries_def insert_delivery_Inr)

lemma dispatch_rows_db:
  assumes "\<And>d r d'. Q d \<Longrightarrow> insert_delivery r d = Inr d' \<Longrightarrow> Q d'"
    and "\<And>d i a n k. Q d \<Longrightarrow> Q (upd_deliveries (\<lambda>x. dr_id x = i) (attempt_row n a k) d)"
    and "Q (hk_db h)"
  shows "Q (hk_db (snd (dispatch_rows P c ev p k rs h)))"
  using assms(3)
proof (induction rs arbitrary: k h)
  case (Cons r rs)
  show ?case
  proof (cases "hook_matches ev p r")
    case True
    let ?row = "queued_delivery (c_now c) (c_uuid c (2 * k)) (wr_id r) (c_uuid c (2 * k + 1)) ev p"
    show ?thesis
    proof (cases "c_fault c (2 * k + 2) = None \<and> (\<exists>d1. insert_delivery ?row (hk_db h) = Inr d1)")
      case False
      with True Cons.prems show ?thesis by (auto split: option.splits sum.splits)
    next
      case ins: True
      then obtain d1 where d1: "insert_delivery ?row (hk_db h) = Inr d1" by blast
      have "Q d1" using assms(1) [OF Cons.prems d1] .
      with assms(2) ins True d1 Cons.IH show ?thesis
        by (simp add: Let_def split: option.splits)
    qed
  qed (use Cons in simp)
qed simp

lemma Webhook_Dispatch_ok: "db_ok (hk_db h) \<Longrightarrow> db_ok (hk_db (snd (Webhook_Dispatch P c ev p h)))"
  by (auto simp: Webhook_Dispatch_def insert_delivery_ok db_ok_upd_deliveries
      intro: dispatch_rows_db [of db_ok] split: option.splits)

lemma Webhook_Dispatch_same: "same_but_deliveries (hk_db h) (hk_db (snd (Webhook_Dispatch P c ev p h)))"
  by (auto simp: Webhook_Dispatch_def same_but_insert
      intro: dispatch_rows_db [of "same_but_deliveries (hk_db h)"] split: option.splits)

lemma retry_from_db:
  assumes "db_ok (hk_db h)"
  shows "db_ok (hk_db (snd (retry_from P c n i h)))"
    and "same_but_deliveries (hk_db h) (hk_db (snd (retry_from P c n i h)))"
  using assms by (auto simp: retry_from_def Let_def db_ok_upd_deliveries split: sum.splits option.splits)

lemma Test_db:
  assumes "db_ok (hk_db h)"
  shows "db_ok (hk_db (snd (snd (Test P c i h))))"
    and "same_but_deliveries (hk_db h) (hk_db (snd (snd (Test P c i h))))"
proof -
  have "db_ok (hk_db (snd (snd (Test P c i h))))
    \<and> same_but_deliveries (hk_db h) (hk_db (snd (snd (Test P c i h))))"
  proof (cases "snd (snd (Test P c i h)) = h")
    case False
    then obtain d where d: "\<exists>r. insert_delivery r (hk_db h) = Inr d"
      and eq: "snd (snd (Test P c i h)) = snd (retry_from P c 1 (c_uuid c 0) (h\<lparr>hk_db := d\<rparr>))"
      by (auto simp: Test_def split_beta split: option.splits sum.splits)
    then have "db_ok d" "same_but_deliveries (hk_db h) d"
      using assms insert_delivery_ok same_but_insert by auto
    with eq show ?thesis using retry_from_db [of "h\<lparr>hk_db := d\<rparr>" P c 1 "c_uuid c 0"]
      by (simp add: same_but_deliveries_def)
  qed (simp add: assms)
  then show "db_ok (hk_db (snd (snd (Test P c i h))))"
    and "same_but_deliveries (hk_db h) (hk_db (snd (snd (Test P c i h))))" by simp_all
qed

section \<open>Who is sent what\<close>

definition hook_request :: "hook_params \<Rightarrow> string \<Rightarrow> json \<Rightarrow> webhook_row \<Rightarrow> http_request" where
  "hook_request P event payload w =
     signed_request P (wr_url w) event (hp_json P payload) (coalesce (wr_secret_encrypted w))"

lemma dispatch_rows_requests:
  "\<exists>reqs. hk_out (snd (dispatch_rows P c ev p k rs h)) = hk_out h @ reqs
     \<and> set reqs \<subseteq> hook_request P ev p ` {w \<in> set rs. hook_matches ev p w}"
proof (induction rs arbitrary: k h)
  case (Cons r rs)
  show ?case
  proof (cases "hook_matches ev p r \<and> hk_out (snd (dispatch_rows P c ev p k (r # rs) h)) \<noteq> hk_out h")
    case False
    then show ?thesis using Cons.IH [of k h] by (cases "hook_matches ev p r") auto
  next
    case True
    then have "\<exists>d2. snd (dispatch_rows P c ev p k (r # rs) h)
        = snd (dispatch_rows P c ev p (Suc k) rs \<lparr>hk_db = d2, hk_out = hk_out h @ [hook_request P ev p r]\<rparr>)"
      by (auto simp: Let_def hook_request_def split: option.splits sum.splits if_splits)
    then obtain d2 where d2: "snd (dispatch_rows P c ev p k (r # rs) h)
        = snd (dispatch_rows P c ev p (Suc k) rs \<lparr>hk_db = d2, hk_out = hk_out h @ [hook_request P ev p r]\<rparr>)" by blast
    let ?h1 = "\<lparr>hk_db = d2, hk_out = hk_out h @ [hook_request P ev p r]\<rparr>"
    obtain reqs where "hk_out (snd (dispatch_rows P c ev p (Suc k) rs ?h1)) = hk_out ?h1 @ reqs"
      "set reqs \<subseteq> hook_request P ev p ` {w \<in> set rs. hook_matches ev p w}" using Cons.IH by blast
    with True show ?thesis unfolding d2 by (intro exI [of _ "hook_request P ev p r # reqs"]) auto
  qed
qed simp

text \<open>
  C25.  Scope and signature.  Whatever happens to the database and the network, every request a dispatch
  sends goes to the URL of an active webhook that lists the event and is either unscoped or scoped to
  the payload's session, and it carries the HMAC of exactly the body sent under that webhook's own
  decrypted secret.
\<close>

theorem webhook_requests_scoped:
  assumes "q \<in> set (hk_out (snd (Webhook_Dispatch P c event payload h)))" "q \<notin> set (hk_out h)"
  shows "\<exists>w \<in> set (t_webhooks (hk_db h)). wr_is_active w \<and> event \<in> set (wr_events w)
    \<and> (wr_session_ids w = None \<or> wr_session_ids w = Some []
       \<or> (\<exists>s. jfield ''sessionId'' payload = Some (JStr s) \<and> s \<in> set (the (wr_session_ids w))))
    \<and> rq_url q = wr_url w \<and> rq_event q = event \<and> rq_body q = hp_json P payload
    \<and> rq_signature q = hp_hmac P (fst (Decrypt (hp_cipher P) (coalesce (wr_secret_encrypted w)) (hp_key P))) (rq_body q)"
proof -
  have "c_fault c 0 = None" using assms by (auto simp: Webhook_Dispatch_def split: option.splits)
  then have "q \<in> hook_request P event payload ` {w \<in> set (filter wr_is_active (t_webhooks (hk_db h))). hook_matches event payload w}"
    using assms dispatch_rows_requests [of P c event payload 0 "filter wr_is_active (t_webhooks (hk_db h))" h]
    by (auto simp: Webhook_Dispatch_def)
  then obtain w where w: "w \<in> set (t_webhooks (hk_db h))" "wr_is_active w" "hook_matches event payload w"
    and q: "q = hook_request P event payload w" by auto
  have "wr_session_ids w = None \<or> wr_session_ids w = Some []
       \<or> (\<exists>s. jfield ''sessionId'' payload = Some (JStr s) \<and> s \<in> set (the (wr_session_ids w)))"
    using w(3) by (auto simp: hook_matches_def scopeMatches_def split: option.splits json.splits if_splits)
  with w q show ?thesis
    by (intro bexI [of _ w]) (auto simp: hook_request_def signed_request_def sign_def hook_matches_def)
qed

definition sample_webhook :: webhook_row where
  "sample_webhook = \<lparr>wr_id = ''w1'', wr_url = ''https://x'', wr_events = [''message.sent''],
     wr_secret_encrypted = Some [], wr_session_ids = Some [''main''], wr_api_key_id = None,
     wr_is_active = True, wr_created_at = 0, wr_updated_at = 0\<rparr>"

definition sample_hooks :: hooks where
  "sample_hooks = \<lparr>hk_db = sample_db\<lparr>t_webhooks := [sample_webhook]\<rparr>, hk_out = []\<rparr>"

definition sample_hook_params :: hook_params where
  "sample_hook_params = \<lparr>hp_cipher = sample_cipher, hp_key = ''k'', hp_hmac = (\<lambda>k b. k @ ''|'' @ b),
     hp_url_valid = (\<lambda>u. has_prefix u ''http''), hp_json = (\<lambda>_. ''{}''), hp_jsonb = (\<lambda>_. ''{}''),
     hp_rfc3339 = (\<lambda>_. ''now''), hp_uuid = Some\<rparr>"

definition sample_payload :: json where
  "sample_payload = JObj [(''sessionId'', JStr ''main'')]"

theorem webhook_requests_scoped_witness:
  "\<exists>w \<in> set (t_webhooks (hk_db sample_hooks)). wr_is_active w
     \<and> rq_url (hd (hk_out (snd (Webhook_Dispatch sample_hook_params sample_ctx ''message.sent'' sample_payload sample_hooks)))) = wr_url w"
proof -
  let ?o = "hk_out (snd (Webhook_Dispatch sample_hook_params sample_ctx ''message.sent'' sample_payload sample_hooks))"
  have "length ?o = 1" by code_simp
  then have "hd ?o \<in> set ?o" by (intro hd_in_set) auto
  moreover have "hd ?o \<notin> set (hk_out sample_hooks)" by (simp add: sample_hooks_def)
  ultimately show ?thesis using webhook_requests_scoped by blast
qed

section \<open>The delivery log\<close>

definition logged_delivery :: "ctx \<Rightarrow> string \<Rightarrow> json \<Rightarrow> nat \<times> webhook_row \<Rightarrow> delivery_row" where
  "logged_delivery c event payload kw = (case kw of (k, w) \<Rightarrow>
     attempt_row (c_now c) (c_http c k) 1 (queued_delivery (c_now c) (c_uuid c (2 * k)) (wr_id w)
       (c_uuid c (2 * k + 1)) event payload))"

lemma logged_delivery_id [simp]: "dr_id (logged_delivery c ev p (k, w)) = c_uuid c (2 * k)"
  by (simp add: logged_delivery_def queued_delivery_def)

lemma upd_new_delivery:
  assumes "insert_delivery r d = Inr d1" "dr_id r = i" "\<And>x. dr_id (f x) = dr_id x"
  shows "t_webhook_deliveries (upd_deliveries (\<lambda>x. dr_id x = i) f d1) = t_webhook_deliveries d @ [f r]"
proof -
  have "i \<notin> dr_id ` set (t_webhook_deliveries d)" using assms by (simp add: insert_delivery_Inr)
  then have "update_where (\<lambda>x. dr_id x = i) f (t_webhook_deliveries d) = t_webhook_deliveries d"
    by (intro update_where_none) blast
  then show ?thesis using assms by (auto simp: insert_delivery_Inr upd_deliveries_def update_where_def)
qed

lemma dispatch_rows_log:
  assumes "no_fault c" "inj (c_uuid c)" "\<And>j. c_uuid c j \<notin> dr_id ` set (t_webhook_deliveries (hk_db h)) \<or> j < 2 * k"
    and "set rs \<subseteq> set (t_webhooks (hk_db h))"
    and "\<And>w. w \<in> set rs \<Longrightarrow> hook_matches ev p w \<Longrightarrow> hp_url_valid P (wr_url w)"
  shows "\<exists>h'. dispatch_rows P c ev p k rs h = (None, h')
    \<and> hk_out h' = hk_out h @ map (hook_request P ev p) (filter (hook_matches ev p) rs)
    \<and> t_webhook_deliveries (hk_db h') = t_webhook_deliveries (hk_db h)
        @ map (logged_delivery c ev p) (enumerate k (filter (hook_matches ev p) rs))"
  using assms(3-5)
proof (induction rs arbitrary: k h)
  case Nil
  then show ?case using assms(1) by simp
next
  case (Cons r rs)
  show ?case
  proof (cases "hook_matches ev p r")
    case False
    with Cons show ?thesis by simp
  next
    case True
    let ?row = "queued_delivery (c_now c) (c_uuid c (2 * k)) (wr_id r) (c_uuid c (2 * k + 1)) ev p"
    let ?f = "attempt_row (c_now c) (c_http c k) 1"
    have "c_uuid c (2 * k) \<notin> dr_id ` set (t_webhook_deliveries (hk_db h))" using Cons.prems(1) [of "2 * k"] by simp
    then obtain d1 where d1: "insert_delivery ?row (hk_db h) = Inr d1"
      using Cons.prems(2) by (auto simp: insert_delivery_def queued_delivery_def)
    let ?d2 = "upd_deliveries (\<lambda>x. dr_id x = c_uuid c (2 * k)) ?f d1"
    let ?h1 = "\<lparr>hk_db = ?d2, hk_out = hk_out h @ [hook_request P ev p r]\<rparr>"
    have log: "t_webhook_deliveries ?d2 = t_webhook_deliveries (hk_db h) @ [logged_delivery c ev p (k, r)]"
      unfolding logged_delivery_def prod.case
      by (rule upd_new_delivery [OF d1]) (simp_all add: queued_delivery_def)
    have step: "dispatch_rows P c ev p k (r # rs) h = dispatch_rows P c ev p (Suc k) rs ?h1"
      using True assms(1) d1 Cons.prems(3) by (simp add: hook_request_def)
    have "\<exists>h'. dispatch_rows P c ev p (Suc k) rs ?h1 = (None, h')
      \<and> hk_out h' = hk_out ?h1 @ map (hook_request P ev p) (filter (hook_matches ev p) rs)
      \<and> t_webhook_deliveries (hk_db h') = t_webhook_deliveries (hk_db ?h1)
          @ map (logged_delivery c ev p) (enumerate (Suc k) (filter (hook_matches ev p) rs))"
    proof (rule Cons.IH)
      show "c_uuid c j \<notin> dr_id ` set (t_webhook_deliveries (hk_db ?h1)) \<or> j < 2 * Suc k" for j
        using Cons.prems(1) [of j] injD [OF assms(2), of j "2 * k"] by (auto simp: log)
      show "set rs \<subseteq> set (t_webhooks (hk_db ?h1))" using Cons.prems(2) insert_delivery_frame(1) [OF d1] by simp
    qed (use Cons.prems(3) in auto)
    then show ?thesis unfolding step using True by (simp add: log)
  qed
qed

text \<open>
  C26.  The delivery log.  When the database accepts every statement, the matching webhooks have URLs
  the HTTP client can use and the identifiers drawn are fresh, a dispatch returns no error, sends one
  request per matching active webhook and appends exactly one row for each, with one attempt, marked
  \<open>delivered\<close> just when the answer's code was in the range from 200 to 299 and \<open>failed\<close> otherwise.
\<close>

theorem webhook_delivery_log:
  assumes "no_fault c" "inj (c_uuid c)" "\<And>j. c_uuid c j \<notin> dr_id ` set (t_webhook_deliveries (hk_db h))"
    and "\<And>w. w \<in> set (t_webhooks (hk_db h)) \<Longrightarrow> hp_url_valid P (wr_url w)"
  shows "\<exists>h' rows. Webhook_Dispatch P c event payload h = (None, h')
    \<and> t_webhook_deliveries (hk_db h') = t_webhook_deliveries (hk_db h) @ rows
    \<and> map dr_webhook_id rows = map wr_id (filter (\<lambda>w. wr_is_active w \<and> hook_matches event payload w) (t_webhooks (hk_db h)))
    \<and> length (hk_out h') = length (hk_out h) + length rows
    \<and> (\<forall>k < length rows. dr_attempts (rows ! k) = 1 \<and> dr_event (rows ! k) = event \<and> dr_payload (rows ! k) = payload
        \<and> dr_status (rows ! k) = (case c_http c k of Inr a \<Rightarrow> if 200 \<le> ha_code a \<and> ha_code a < 300 then ''delivered'' else ''failed''
            | Inl e \<Rightarrow> ''failed''))"
proof -
  let ?ws = "filter (hook_matches event payload) (filter wr_is_active (t_webhooks (hk_db h)))"
  have ws: "?ws = filter (\<lambda>w. wr_is_active w \<and> hook_matches event payload w) (t_webhooks (hk_db h))"
    by (simp add: conj_commute)
  have "\<exists>h'. dispatch_rows P c event payload 0 (filter wr_is_active (t_webhooks (hk_db h))) h = (None, h')
    \<and> hk_out h' = hk_out h @ map (hook_request P event payload) ?ws
    \<and> t_webhook_deliveries (hk_db h') = t_webhook_deliveries (hk_db h)
        @ map (logged_delivery c event payload) (enumerate 0 ?ws)"
    by (rule dispatch_rows_log [OF assms(1,2)]) (use assms in auto)
  then obtain h' where h': "Webhook_Dispatch P c event payload h = (None, h')"
    "hk_out h' = hk_out h @ map (hook_request P event payload) ?ws"
    "t_webhook_deliveries (hk_db h') = t_webhook_deliveries (hk_db h) @ map (logged_delivery c event payload) (enumerate 0 ?ws)"
    using assms(1) by (auto simp: Webhook_Dispatch_def)
  let ?rows = "map (logged_delivery c event payload) (enumerate 0 ?ws)"
  have nth: "?rows ! k = logged_delivery c event payload (k, ?ws ! k)" if "k < length ?rows" for k
    using that by (simp add: nth_enumerate_eq)
  have "map dr_webhook_id ?rows = map wr_id ?ws"
    by (rule nth_equalityI) (simp_all add: nth_enumerate_eq logged_delivery_def queued_delivery_def)
  moreover have "dr_attempts (?rows ! k) = 1 \<and> dr_event (?rows ! k) = event \<and> dr_payload (?rows ! k) = payload
      \<and> dr_status (?rows ! k) = (case c_http c k of Inr a \<Rightarrow> if 200 \<le> ha_code a \<and> ha_code a < 300 then ''delivered'' else ''failed''
          | Inl e \<Rightarrow> ''failed'')" if "k < length ?rows" for k
    unfolding nth [OF that] logged_delivery_def prod.case
    by (auto simp: attempt_row_def queued_delivery_def attempt_status_def split: sum.split)
  ultimately show ?thesis using h' ws
    by (intro exI [of _ h'] exI [of _ ?rows]) simp
qed

theorem webhook_delivery_log_witness:
  "\<exists>h' rows. Webhook_Dispatch sample_hook_params sample_ctx ''message.sent'' sample_payload sample_hooks = (None, h')
    \<and> t_webhook_deliveries (hk_db h') = rows \<and> map dr_webhook_id rows = [''w1'']"
proof -
  have "inj (c_uuid sample_ctx)" by (auto simp: inj_def)
  then have "\<exists>h' rows. Webhook_Dispatch sample_hook_params sample_ctx ''message.sent'' sample_payload sample_hooks = (None, h')
    \<and> t_webhook_deliveries (hk_db h') = t_webhook_deliveries (hk_db sample_hooks) @ rows
    \<and> map dr_webhook_id rows = map wr_id (filter (\<lambda>w. wr_is_active w \<and> hook_matches ''message.sent'' sample_payload w) (t_webhooks (hk_db sample_hooks)))"
    using webhook_delivery_log [of sample_ctx sample_hooks sample_hook_params "''message.sent''" sample_payload]
    by (auto simp: sample_hooks_def sample_hook_params_def sample_webhook_def)
  then show ?thesis
    by (simp add: sample_hooks_def sample_webhook_def hook_matches_def scopeMatches_def sample_payload_def)
qed

end
