(* ===== verification/Throttle_Model.thy ===== *)
theory Throttle_Model
  imports Db_Schema
begin

text \<open>
  \<open>internal/throttle/limiter.go\<close>.  One iteration of the loop in \<open>Limiter.Wait\<close> is \<open>wait_iter\<close>; what it
  observes of the outside (the clock readings, the random jitter, the outcome of the \<open>select\<close>) is a
  \<open>wait_obs\<close>, and the row it reads comes from the database of that moment.  \<open>Wait\<close> runs the loop over a
  sequence of observations.  \<open>RecordFailure\<close> and \<open>RecordSuccess\<close> act on the session's row.  The
  lemmas show that compaction in place is filtering, when an iteration admits a message, how far apart
  admissions are, how many there are in a minute, and when a session is paused.
\<close>

section \<open>State\<close>

text \<open>The maps \<open>last\<close> and \<open>recent\<close>; an absent key of \<open>recent\<close> reads as the empty slice.\<close>

record limiter =
  l_last :: "string \<Rightarrow> time option"
  l_recent :: "string \<Rightarrow> time list"

definition New_limiter :: limiter where
  "New_limiter = \<lparr>l_last = (\<lambda>_. None), l_recent = (\<lambda>_. [])\<rparr>"

text \<open>
  \<open>wo_ctx\<close> holds the reading \<open>now\<close> and the driver's answer to the query, \<open>wo_rand\<close> the value of
  \<open>rand.Intn(jitter+1)\<close>, \<open>wo_until1\<close> and \<open>wo_until2\<close> the clock at the two calls of \<open>time.Until\<close>,
  inside the mutex (where the condition before a call fails, the clock at that point), and \<open>wo_cancel\<close> is
  the context's error when \<open>ctx.Done()\<close> wins the \<open>select\<close>.
\<close>

record wait_obs =
  wo_ctx :: ctx
  wo_rand :: int
  wo_until1 :: time
  wo_until2 :: time
  wo_cancel :: "err option"

abbreviation wo_now :: "wait_obs \<Rightarrow> time" where
  "wo_now ob \<equiv> c_now (wo_ctx ob)"

datatype wait_out = Returned "err option" | Again

section \<open>Compaction in place\<close>

text \<open>
  \<open>kept := recent[:0]\<close> shares its array with \<open>recent\<close>: the loop reads cell \<open>i\<close> and writes cell \<open>k\<close> of
  the same array.
\<close>

function compact :: "(time \<Rightarrow> bool) \<Rightarrow> nat \<Rightarrow> nat \<Rightarrow> time list \<Rightarrow> nat \<times> time list" where
  "compact p i k a =
     (if i < length a
      then if p (a ! i) then compact p (Suc i) (Suc k) (a[k := a ! i]) else compact p (Suc i) k a
      else (k, a))"
  by pat_completeness auto
termination
  by (relation "measure (\<lambda>(p, i, k, a). length a - i)") auto

declare compact.simps [simp del]

definition kept_of :: "time \<Rightarrow> time list \<Rightarrow> time list" where
  "kept_of cutoff recent = (case compact (\<lambda>t. cutoff < t) 0 0 recent of (k, a) \<Rightarrow> take k a)"

section \<open>Wait\<close>

definition interval_wait :: "wait_obs \<Rightarrow> session_row \<Rightarrow> time" where
  "interval_wait ob r = (if sr_jitter_ms r > 0
     then wrap64 (wrap64 (sr_min_interval_ms r * millisecond) + wrap64 (wo_rand ob * millisecond))
     else wrap64 (sr_min_interval_ms r * millisecond))"

definition pause_wait :: "time \<Rightarrow> session_row \<Rightarrow> time" where
  "pause_wait now r = (case sr_throttled_until r of Some t \<Rightarrow> if now < t then t - now else 0 | None \<Rightarrow> 0)"

definition spaced_wait :: "wait_obs \<Rightarrow> session_row \<Rightarrow> time option \<Rightarrow> time \<Rightarrow> time" where
  "spaced_wait ob r prev w = (case prev of None \<Rightarrow> w
     | Some t \<Rightarrow> if interval_wait ob r > wo_now ob - t \<and> interval_wait ob r - (wo_now ob - t) > w
         then interval_wait ob r - (wo_now ob - t) else w)"

definition capped_wait :: "wait_obs \<Rightarrow> session_row \<Rightarrow> time list \<Rightarrow> time \<Rightarrow> time" where
  "capped_wait ob r kept w =
     (if sr_max_messages_per_minute r > 0 \<and> int (length kept) \<ge> sr_max_messages_per_minute r
         \<and> w < hd kept + minute - wo_until1 ob
      then hd kept + minute - wo_until2 ob else w)"

definition wait_for :: "wait_obs \<Rightarrow> session_row \<Rightarrow> time option \<Rightarrow> time list \<Rightarrow> time" where
  "wait_for ob r prev kept =
     capped_wait ob r kept (spaced_wait ob r prev (pause_wait (wo_now ob) r))"

text \<open>
  One iteration.  The query and the reading \<open>now\<close> come before the mutex: the database \<open>d\<close> and \<open>wo_now\<close> are
  those of an earlier moment, and nothing is assumed here about what other callers did in between.  The
  limiter \<open>l\<close> is the one the iteration finds under the mutex.
\<close>

definition wait_iter :: "string \<Rightarrow> wait_obs \<Rightarrow> db \<Rightarrow> limiter \<Rightarrow> wait_out \<times> limiter" where
  "wait_iter s ob d l =
     (case c_fault (wo_ctx ob) 0 of Some e \<Rightarrow> (Returned (Some e), l)
      | None \<Rightarrow>
     (case find (\<lambda>r. sr_session_id r = s) (t_sessions d) of
        None \<Rightarrow> (Returned (Some (Sentinel NoRows)), l)
      | Some r \<Rightarrow>
         (let kept = kept_of (wo_now ob - minute) (l_recent l s);
              l1 = l\<lparr>l_recent := (l_recent l)(s := kept)\<rparr>
          in if wait_for ob r (l_last l s) kept = 0
             then (Returned None, l1\<lparr>l_last := (l_last l1)(s := Some (wo_now ob)),
               l_recent := (l_recent l1)(s := kept @ [wo_now ob])\<rparr>)
             else case wo_cancel ob of Some e \<Rightarrow> (Returned (Some e), l1) | None \<Rightarrow> (Again, l1))))"

text \<open>The loop; \<open>None\<close> when it is still waiting at the end of the observed sequence.\<close>

fun Wait :: "string \<Rightarrow> (wait_obs \<times> db) list \<Rightarrow> limiter \<Rightarrow> err option option \<times> limiter" where
  "Wait s [] l = (None, l)"
| "Wait s ((ob, d) # os) l = (case wait_iter s ob d l of
     (Returned r, l') \<Rightarrow> (Some r, l') | (Again, l') \<Rightarrow> Wait s os l')"

section \<open>Failures\<close>

text \<open>Count and start of the window after one more failure.\<close>

definition next_failure :: "time \<Rightarrow> session_row \<Rightarrow> int \<times> time" where
  "next_failure now r = (case sr_failure_window_started_at r of
       Some t \<Rightarrow> if now - t \<ge> minute then (1, now) else (sr_failure_count r + 1, t)
     | None \<Rightarrow> (1, now))"

definition pause_until :: "time \<Rightarrow> session_row \<Rightarrow> time option" where
  "pause_until now r = (if sr_failure_threshold r > 0 \<and> fst (next_failure now r) \<ge> sr_failure_threshold r
       \<and> sr_pause_duration_ms r > 0
     then Some (now + wrap64 (sr_pause_duration_ms r * millisecond)) else None)"

definition failure_row :: "time \<Rightarrow> session_row \<Rightarrow> session_row" where
  "failure_row now r = r\<lparr>sr_failure_count := fst (next_failure now r),
     sr_failure_window_started_at := Some (snd (next_failure now r)),
     sr_throttled_until := (case pause_until now r of Some t \<Rightarrow> Some t | None \<Rightarrow> sr_throttled_until r),
     sr_updated_at := now\<rparr>"

text \<open>Request 0 begins the transaction, 1 is the locking read, 2 the update, 3 the commit.\<close>

definition RecordFailure :: "ctx \<Rightarrow> string \<Rightarrow> db \<Rightarrow> err option \<times> db" where
  "RecordFailure c s d =
     (case c_fault c 0 of Some e \<Rightarrow> (Some e, d)
      | None \<Rightarrow>
     (case c_fault c 1 of Some e \<Rightarrow> (Some e, d)
      | None \<Rightarrow>
     (case find (\<lambda>r. sr_session_id r = s) (t_sessions d) of
        None \<Rightarrow> (Some (Sentinel NoRows), d)
      | Some r \<Rightarrow>
     (case c_fault c 2 of Some e \<Rightarrow> (Some e, d)
      | None \<Rightarrow> if \<not> int4 (fst (next_failure (c_now c) r)) then (Some out_of_range, d)
     else
     (case c_fault c 3 of Some e \<Rightarrow> (Some e, d)
      | None \<Rightarrow> (None, upd_sessions (\<lambda>x. sr_session_id x = s) (failure_row (c_now c)) d))))))"

definition RecordSuccess :: "ctx \<Rightarrow> string \<Rightarrow> db \<Rightarrow> err option \<times> db" where
  "RecordSuccess c s d = (case c_fault c 0 of Some e \<Rightarrow> (Some e, d)
     | None \<Rightarrow> (None, upd_sessions (\<lambda>r. sr_session_id r = s)
         (\<lambda>r. r\<lparr>sr_failure_count := 0, sr_failure_window_started_at := None,
           sr_throttled_until := None, sr_updated_at := c_now c\<rparr>) d))"

section \<open>Compaction is filtering\<close>

lemma compact_filter:
  assumes "k \<le> i" "i \<le> length a"
  shows "(case compact p i k a of (n, b) \<Rightarrow> take n b) = take k a @ filter p (drop i a)
    \<and> k \<le> fst (compact p i k a) \<and> fst (compact p i k a) \<le> length a"
  using assms
proof (induction p i k a rule: compact.induct)
  case (1 p i k a)
  show ?case
  proof (cases "i < length a")
    case False
    then have "compact p i k a = (k, a)" by (simp add: compact.simps [of p i k a])
    with 1 False show ?thesis by simp
  next
    case True
    then have drop: "drop i a = a ! i # drop (Suc i) a" by (simp add: Cons_nth_drop_Suc)
    show ?thesis
    proof (cases "p (a ! i)")
      case False
      with 1 True drop show ?thesis by (simp add: compact.simps [of p i k a])
    next
      case p: True
      have "take (Suc k) (a[k := a ! i]) = take k a @ [a ! i]"
        using 1(3,4) True by (simp add: take_Suc_conv_app_nth)
      moreover have "drop (Suc i) (a[k := a ! i]) = drop (Suc i) a" using 1(3) by simp
      ultimately show ?thesis using 1(1) [OF True p] 1(3) True p drop
        by (auto simp: compact.simps [of p i k a])
    qed
  qed
qed

lemma kept_of_filter: "kept_of cutoff recent = filter (\<lambda>t. cutoff < t) recent"
  using compact_filter [of 0 0 recent "\<lambda>t. cutoff < t"] by (simp add: kept_of_def)

section \<open>When an iteration admits\<close>

lemma pause_wait_cases:
  "0 \<le> pause_wait now r" "pause_wait now r = 0 \<longleftrightarrow> (\<forall>u. sr_throttled_until r = Some u \<longrightarrow> u \<le> now)"
  by (auto simp: pause_wait_def split: option.splits if_splits)

lemma spaced_wait_cases:
  "w \<le> spaced_wait ob r prev w"
  "0 \<le> w \<Longrightarrow> spaced_wait ob r prev w = 0 \<longleftrightarrow> w = 0 \<and> (\<forall>t. prev = Some t \<longrightarrow> interval_wait ob r \<le> wo_now ob - t)"
  by (auto simp: spaced_wait_def split: option.splits if_splits)

text \<open>
  The pause is over and the interval since the last admission has passed: what the first two
  conditions of the loop ask for.
\<close>

definition ready :: "wait_obs \<Rightarrow> session_row \<Rightarrow> time option \<Rightarrow> bool" where
  "ready ob r prev \<longleftrightarrow> (\<forall>u. sr_throttled_until r = Some u \<longrightarrow> u \<le> wo_now ob)
     \<and> (\<forall>t. prev = Some t \<longrightarrow> interval_wait ob r \<le> wo_now ob - t)"

definition at_cap :: "session_row \<Rightarrow> time list \<Rightarrow> bool" where
  "at_cap r kept \<longleftrightarrow> sr_max_messages_per_minute r > 0
     \<and> int (length kept) \<ge> sr_max_messages_per_minute r"

lemma spaced_pause:
  "0 \<le> spaced_wait ob r prev (pause_wait now r)"
  "spaced_wait ob r prev (pause_wait (wo_now ob) r) = 0 \<longleftrightarrow> ready ob r prev"
proof -
  show "0 \<le> spaced_wait ob r prev (pause_wait now r)"
    using spaced_wait_cases(1) [of "pause_wait now r" ob r prev] pause_wait_cases(1) [of now r] by linarith
  show "spaced_wait ob r prev (pause_wait (wo_now ob) r) = 0 \<longleftrightarrow> ready ob r prev"
    unfolding spaced_wait_cases(2) [OF pause_wait_cases(1)] pause_wait_cases(2) ready_def by blast
qed

lemma wait_for_zero:
  "wait_for ob r prev kept = 0 \<longleftrightarrow>
     ready ob r prev \<and> (at_cap r kept \<longrightarrow> hd kept + minute \<le> wo_until1 ob)
     \<or> at_cap r kept \<and> hd kept + minute = wo_until2 ob
       \<and> spaced_wait ob r prev (pause_wait (wo_now ob) r) < hd kept + minute - wo_until1 ob"
  using spaced_pause(1) [of ob r prev "wo_now ob"]
  unfolding wait_for_def capped_wait_def at_cap_def spaced_pause(2) [symmetric] by auto

lemma wait_iter_admits:
  assumes "wait_iter s ob d l = (Returned None, l')"
  obtains r where "find (\<lambda>r. sr_session_id r = s) (t_sessions d) = Some r"
    "wait_for ob r (l_last l s) (kept_of (wo_now ob - minute) (l_recent l s)) = 0"
    "l' = l\<lparr>l_last := (l_last l)(s := Some (wo_now ob)),
      l_recent := (l_recent l)(s := kept_of (wo_now ob - minute) (l_recent l s) @ [wo_now ob])\<rparr>"
  using assms by (auto simp: wait_iter_def Let_def split: option.splits if_splits)

lemma wait_iter_rejects:
  assumes "wait_iter s ob d l = (out, l')" "out \<noteq> Returned None"
  shows "l_last l' = l_last l"
    and "l_recent l' s \<in> {l_recent l s, kept_of (wo_now ob - minute) (l_recent l s)}"
  using assms by (auto simp: wait_iter_def Let_def split: option.splits if_splits)

lemma wait_iter_other:
  "wait_iter s ob d l = (out, l') \<Longrightarrow> s' \<noteq> s \<Longrightarrow> l_last l' s' = l_last l s' \<and> l_recent l' s' = l_recent l s'"
  by (auto simp: wait_iter_def Let_def split: option.splits if_splits)

text \<open>The interval is at least the configured one.\<close>

lemma interval_wait_ge:
  assumes "int4 (sr_min_interval_ms r)" "int4 (sr_jitter_ms r)" "0 \<le> wo_rand ob" "wo_rand ob \<le> sr_jitter_ms r"
  shows "sr_min_interval_ms r * millisecond \<le> interval_wait ob r"
proof -
  have "int8 (sr_min_interval_ms r * millisecond)" "int8 (wo_rand ob * millisecond)"
    "int8 (sr_min_interval_ms r * millisecond + wo_rand ob * millisecond)"
    using assms by (simp_all add: int4_def int8_def)
  then show ?thesis using assms(3) by (simp add: interval_wait_def wrap64_id)
qed

section \<open>Sequences of iterations\<close>

abbreviation session_at :: "string \<Rightarrow> db \<Rightarrow> session_row option" where
  "session_at s d \<equiv> find (\<lambda>r. sr_session_id r = s) (t_sessions d)"

text \<open>
  A trace is any interleaving of iterations, of any callers and sessions, in the order in which they hold
  the mutex; each entry is the session, the observation and the database the iteration read.  The row and
  \<open>now\<close> are read before the mutex is taken (lines 25 and 28 against line 33), so nothing relates the
  \<open>now\<close> of an entry to the entries before it: another iteration may have read its own \<open>now\<close>
  later and passed the mutex earlier.  \<open>admissions s\<close> are the observations of the iterations that admit a
  message of the session \<open>s\<close>: \<open>wo_now\<close> is the instant the limiter records, \<open>wo_until2\<close> the moment
  of the decision inside the mutex.
\<close>

type_synonym wait_trace = "(string \<times> wait_obs \<times> db) list"

fun admissions :: "string \<Rightarrow> wait_trace \<Rightarrow> limiter \<Rightarrow> wait_obs list" where
  "admissions s [] l = []"
| "admissions s ((s', ob, d) # tr) l =
     (if s' = s \<and> fst (wait_iter s' ob d l) = Returned None then [ob] else [])
     @ admissions s tr (snd (wait_iter s' ob d l))"

lemma admissions_in: "ob \<in> set (admissions s tr l) \<Longrightarrow> \<exists>d. (s, ob, d) \<in> set tr"
  by (induction s tr l rule: admissions.induct) (auto split: if_splits)

text \<open>
  The clock does not run backwards: within an iteration, and from one holder of the mutex to the next.
  Readings taken before the mutex are bounded by the iteration's own later ones only.
\<close>

definition readings_ok :: "wait_obs \<Rightarrow> bool" where
  "readings_ok ob \<longleftrightarrow> wo_now ob \<le> wo_until1 ob \<and> wo_until1 ob \<le> wo_until2 ob"

fun mutex_clock :: "time \<Rightarrow> wait_trace \<Rightarrow> bool" where
  "mutex_clock t [] \<longleftrightarrow> True"
| "mutex_clock t ((s, ob, d) # tr) \<longleftrightarrow> t \<le> wo_until1 ob \<and> readings_ok ob \<and> mutex_clock (wo_until2 ob) tr"

lemma mutex_clock_readings: "mutex_clock t tr \<Longrightarrow> (s, ob, d) \<in> set tr \<Longrightarrow> readings_ok ob"
  by (induction t tr rule: mutex_clock.induct) auto

fun last_clock :: "time \<Rightarrow> wait_trace \<Rightarrow> time" where
  "last_clock t [] = t"
| "last_clock t ((s, ob, d) # tr) = last_clock (wo_until2 ob) tr"

definition in_window :: "time \<Rightarrow> time list \<Rightarrow> time list" where
  "in_window t xs = filter (\<lambda>a. t - minute < a) xs"

lemma in_window_append [simp]: "in_window t (xs @ ys) = in_window t xs @ in_window t ys"
  by (simp add: in_window_def)

lemma in_window_mono: "t \<le> t' \<Longrightarrow> in_window t' (in_window t xs) = in_window t' xs"
  unfolding in_window_def filter_filter by (rule filter_cong) auto

lemma in_window_length: "length (in_window t xs) \<le> length xs"
  by (simp add: in_window_def)

lemma in_window_hd: "xs \<noteq> [] \<Longrightarrow> hd xs + minute \<le> t \<Longrightarrow> length (in_window t xs) < length xs"
  by (cases xs) (auto simp: in_window_def less_Suc_eq_le)

lemma kept_of_window: "kept_of (now - minute) xs = in_window now xs"
  by (simp add: kept_of_filter in_window_def)

lemma in_window_swap: "in_window t (in_window t' xs) = in_window t' (in_window t xs)"
  unfolding in_window_def filter_filter by (rule filter_cong) auto

text \<open>
  The invariant behind the cap at the moment \<open>t\<close> of the mutex: what the limiter remembers and what was
  admitted agree on the last minute, and at the decision of the last admission there were at most \<open>n\<close>.
\<close>

definition cap_inv :: "nat \<Rightarrow> string \<Rightarrow> time \<Rightarrow> wait_obs list \<Rightarrow> limiter \<Rightarrow> bool" where
  "cap_inv n s t hist l \<longleftrightarrow> in_window t (map wo_now hist) = in_window t (l_recent l s)
     \<and> (if hist = [] then l_recent l s = []
        else wo_until2 (last hist) \<le> t \<and> length (in_window (wo_until2 (last hist)) (l_recent l s)) \<le> n)"

lemma cap_inv_recent:
  assumes "cap_inv n s t hist l" "hist \<noteq> [] \<Longrightarrow> wo_until2 (last hist) \<le> u"
  shows "length (in_window u (l_recent l s)) \<le> n"
proof (cases "hist = []")
  case True
  with assms(1) show ?thesis by (simp add: cap_inv_def in_window_def)
next
  case False
  then have "in_window u (l_recent l s) = in_window u (in_window (wo_until2 (last hist)) (l_recent l s))"
    using in_window_mono [OF assms(2)] by simp
  then show ?thesis
    using assms(1) False in_window_length [of u "in_window (wo_until2 (last hist)) (l_recent l s)"]
    by (simp add: cap_inv_def)
qed

lemma cap_inv_length: "cap_inv n s t hist l \<Longrightarrow> length (in_window t (map wo_now hist)) \<le> n"
  using cap_inv_recent [of n s t hist l t] by (auto simp: cap_inv_def split: if_splits)

lemma cap_inv_later:
  assumes inv: "cap_inv n s t hist l" and t: "t \<le> t'" "now \<le> t'"
    and l': "l_recent l' s \<in> {l_recent l s, in_window now (l_recent l s)}"
  shows "cap_inv n s t' hist l'"
proof -
  have "in_window t (map wo_now hist) = in_window t (l_recent l s)" using inv by (simp add: cap_inv_def)
  then have "in_window t' (map wo_now hist) = in_window t' (l_recent l s)"
    using in_window_mono [OF t(1)] by metis
  then have eq: "in_window t' (map wo_now hist) = in_window t' (l_recent l' s)"
    using l' in_window_mono [OF t(2)] by auto
  have "length (in_window u (l_recent l' s)) \<le> length (in_window u (l_recent l s))" for u
    using l' in_window_length [of now "in_window u (l_recent l s)"] by (auto simp: in_window_swap [of u])
  moreover have "l_recent l s = [] \<Longrightarrow> l_recent l' s = []" using l' by (auto simp: in_window_def)
  ultimately show ?thesis using inv eq t(1) unfolding cap_inv_def
    by (auto split: if_splits intro: order_trans)
qed

lemma cap_inv_admit:
  assumes inv: "cap_inv n s t hist l" and adm: "wait_iter s ob d l = (Returned None, l')"
    and clock: "t \<le> wo_until1 ob" "readings_ok ob"
    and apart: "hist \<noteq> [] \<Longrightarrow> wo_until2 (last hist) \<le> wo_now ob"
    and row: "session_at s d = Some r" "sr_max_messages_per_minute r = int n" "0 < n"
  shows "cap_inv n s (wo_until2 ob) (hist @ [ob]) l'"
proof -
  let ?k = "in_window (wo_now ob) (l_recent l s)" and ?t = "wo_until2 ob"
  have t: "t \<le> ?t" "wo_now ob \<le> ?t" using clock by (simp_all add: readings_ok_def)
  from adm row have wait: "wait_for ob r (l_last l s) ?k = 0" and l': "l_recent l' s = ?k @ [wo_now ob]"
    by (auto elim!: wait_iter_admits simp: kept_of_window)
  have len: "length ?k \<le> n" using cap_inv_recent [OF inv apart] by simp
  have "length (in_window ?t ?k) < n"
  proof (cases "at_cap r ?k")
    case True
    then have "?k \<noteq> []" using row by (auto simp: at_cap_def)
    moreover have "hd ?k + minute \<le> ?t" using wait True clock by (auto simp: wait_for_zero readings_ok_def)
    ultimately have "length (in_window ?t ?k) < length ?k" by (rule in_window_hd)
    then show ?thesis using len by simp
  next
    case False
    then show ?thesis using row in_window_length [of ?t ?k] by (simp add: at_cap_def)
  qed
  moreover have "in_window ?t (map wo_now hist) = in_window ?t ?k"
    using inv in_window_mono [OF t(1)] in_window_mono [OF t(2)] by (metis cap_inv_def)
  ultimately show ?thesis
    by (simp add: cap_inv_def l') (simp add: in_window_def)
qed

lemma cap_inv_trace:
  assumes "cap_inv n s t hist l" "mutex_clock t tr" "0 < n"
    and "\<And>ob d r. (s, ob, d) \<in> set tr \<Longrightarrow> session_at s d = Some r \<Longrightarrow> sr_max_messages_per_minute r = int n"
    and "successively (\<lambda>a b. wo_until2 a \<le> wo_now b) (hist @ admissions s tr l)"
  shows "\<exists>l'. cap_inv n s (last_clock t tr) (hist @ admissions s tr l) l'"
  using assms
proof (induction tr arbitrary: t hist l)
  case (Cons x tr)
  obtain s' ob d where x: "x = (s', ob, d)" by (cases x)
  obtain out l' where it: "wait_iter s' ob d l = (out, l')" by fastforce
  have clock: "t \<le> wo_until1 ob" "readings_ok ob" using Cons.prems(2) x by simp_all
  then have t: "t \<le> wo_until2 ob" "wo_now ob \<le> wo_until2 ob" by (simp_all add: readings_ok_def)
  let ?h = "hist @ (if s' = s \<and> out = Returned None then [ob] else [])"
  have adm: "hist @ admissions s (x # tr) l = ?h @ admissions s tr l'" by (simp add: x it)
  have "cap_inv n s (wo_until2 ob) ?h l'"
  proof (cases "s' = s \<and> out = Returned None")
    case True
    with it obtain r where r: "session_at s d = Some r" by (auto elim: wait_iter_admits)
    have "hist \<noteq> [] \<Longrightarrow> wo_until2 (last hist) \<le> wo_now ob"
      using Cons.prems(5) True unfolding adm by (auto simp: successively_append_iff)
    moreover have "sr_max_messages_per_minute r = int n" using Cons.prems(4) [OF _ r, of ob] True x by simp
    ultimately show ?thesis
      using cap_inv_admit [OF Cons.prems(1), of ob d l' r] True it r Cons.prems(3) clock by simp
  next
    case False
    have "l_recent l' s \<in> {l_recent l s, in_window (wo_now ob) (l_recent l s)}"
      using wait_iter_rejects(2) [OF it] wait_iter_other [OF it, of s] False
      by (cases "s' = s") (auto simp: kept_of_window)
    with False show ?thesis using cap_inv_later [OF Cons.prems(1) t] by auto
  qed
  then have "\<exists>l''. cap_inv n s (last_clock (wo_until2 ob) tr) (?h @ admissions s tr l') l''"
    by (rule Cons.IH) (use Cons.prems x adm in auto)
  then show ?case unfolding adm by (simp add: x)
qed auto

section \<open>Spacing\<close>

text \<open>
  What an admission shows of the pause and of the interval.  The wait computed from them is the
  remaining pause or the remaining interval, whichever is longer; it can be positive at an admission only
  when the cap replaces it, and then it is shorter than what passes between the two readings of
  \<open>time.Until\<close>.
\<close>

lemma admit_gap:
  assumes "wait_iter s ob d l = (Returned None, l')" "session_at s d = Some r" "readings_ok ob"
  shows "spaced_wait ob r (l_last l s) (pause_wait (wo_now ob) r) \<le> wo_until2 ob - wo_until1 ob"
    and "l_last l' s = Some (wo_now ob)"
proof -
  from assms(1,2) have wait: "wait_for ob r (l_last l s) (kept_of (wo_now ob - minute) (l_recent l s)) = 0"
    and l': "l_last l' s = Some (wo_now ob)"
    by (auto elim!: wait_iter_admits)
  show "spaced_wait ob r (l_last l s) (pause_wait (wo_now ob) r) \<le> wo_until2 ob - wo_until1 ob"
    using wait assms(3) by (auto simp: wait_for_zero spaced_pause(2) [symmetric] readings_ok_def)
  from l' show "l_last l' s = Some (wo_now ob)" .
qed

lemma spaced_wait_ge:
  "sr_throttled_until r = Some u \<Longrightarrow> u - wo_now ob \<le> spaced_wait ob r prev (pause_wait (wo_now ob) r)"
  "interval_wait ob r - (wo_now ob - t) \<le> spaced_wait ob r (Some t) (pause_wait (wo_now ob) r)"
  using pause_wait_cases(1) [of "wo_now ob" r]
  by (auto simp: spaced_wait_def pause_wait_def split: option.splits if_splits)

text \<open>At the moment of the decision the pause is over, whichever condition admitted the message.\<close>

lemma admit_not_paused:
  assumes "wait_iter s ob d l = (Returned None, l')" "session_at s d = Some r" "readings_ok ob"
    and "sr_throttled_until r = Some u"
  shows "u \<le> wo_until2 ob"
  using admit_gap(1) [OF assms(1-3)] spaced_wait_ge(1) [OF assms(4), of ob "l_last l s"] assms(3)
  by (simp add: readings_ok_def)

text \<open>What the configuration must satisfy for an interval of \<open>m\<close> milliseconds.\<close>

definition interval_ok :: "int \<Rightarrow> wait_obs \<Rightarrow> session_row \<Rightarrow> bool" where
  "interval_ok m ob r \<longleftrightarrow> m \<le> sr_min_interval_ms r \<and> int4 (sr_min_interval_ms r)
     \<and> int4 (sr_jitter_ms r) \<and> 0 \<le> wo_rand ob \<and> wo_rand ob \<le> sr_jitter_ms r"

lemma interval_ok_wait: "interval_ok m ob r \<Longrightarrow> m * millisecond \<le> interval_wait ob r"
  using interval_wait_ge [of r ob] by (simp add: interval_ok_def)

text \<open>Consecutive admissions: the recorded instants and the gap of \<open>admit_gap\<close>.\<close>

abbreviation gap_ok :: "int \<Rightarrow> wait_obs \<Rightarrow> wait_obs \<Rightarrow> bool" where
  "gap_ok m a b \<equiv> m * millisecond \<le> wo_now b - wo_now a + (wo_until2 b - wo_until1 b)"

lemma gap_trace:
  assumes "successively (gap_ok m) hist" "l_last l s = (if hist = [] then None else Some (wo_now (last hist)))"
    and "\<And>ob d. (s, ob, d) \<in> set tr \<Longrightarrow> readings_ok ob"
    and "\<And>ob d r. (s, ob, d) \<in> set tr \<Longrightarrow> session_at s d = Some r \<Longrightarrow> interval_ok m ob r"
  shows "successively (gap_ok m) (hist @ admissions s tr l)"
  using assms
proof (induction tr arbitrary: hist l)
  case (Cons x tr)
  obtain s' ob d where x: "x = (s', ob, d)" by (cases x)
  obtain out l' where it: "wait_iter s' ob d l = (out, l')" by fastforce
  show ?case
  proof (cases "s' = s \<and> out = Returned None")
    case True
    then obtain r where r: "session_at s d = Some r" using it by (auto elim: wait_iter_admits)
    have mem: "(s, ob, d) \<in> set (x # tr)" using x True by simp
    note gap = admit_gap [of s ob d l l' r, OF _ r Cons.prems(3) [OF mem]]
    have l': "l_last l' s = Some (wo_now ob)" using gap(2) it True by simp
    have "gap_ok m (last hist) ob" if "hist \<noteq> []"
      using gap(1) it True Cons.prems(2) that interval_ok_wait [OF Cons.prems(4) [OF mem r]]
        spaced_wait_ge(2) [of ob r "wo_now (last hist)"] by simp
    then have "successively (gap_ok m) (hist @ [ob])"
      using Cons.prems(1) by (auto simp: successively_append_iff)
    then have "successively (gap_ok m) ((hist @ [ob]) @ admissions s tr l')"
      by (rule Cons.IH) (auto simp: l' intro: Cons.prems(3,4))
    then show ?thesis using True it by (auto simp: x)
  next
    case False
    then have "l_last l' s = l_last l s"
      using it wait_iter_rejects(1) [OF it] wait_iter_other [OF it, of s] by (cases "s' = s") auto
    then have "successively (gap_ok m) (hist @ admissions s tr l')"
      using Cons.prems(1,2) by (intro Cons.IH) (auto intro: Cons.prems(3,4))
    then show ?thesis using False by (auto simp: x it)
  qed
qed simp

text \<open>From a new limiter, with a property of the admitted observations to carry along.\<close>

lemma gap_admissions:
  assumes "\<And>ob d. (s, ob, d) \<in> set tr \<Longrightarrow> readings_ok ob"
    and "\<And>ob d r. (s, ob, d) \<in> set tr \<Longrightarrow> session_at s d = Some r \<Longrightarrow> interval_ok m ob r"
    and "\<And>a b d d'. (s, a, d) \<in> set tr \<Longrightarrow> (s, b, d') \<in> set tr \<Longrightarrow> gap_ok m a b \<Longrightarrow> Q a b"
  shows "successively Q (admissions s tr New_limiter)"
proof (rule successively_mono)
  show "successively (gap_ok m) (admissions s tr New_limiter)"
    using gap_trace [of m "[]" New_limiter s tr] assms(1,2) by (simp add: New_limiter_def)
qed (use admissions_in assms(3) in metis)

section \<open>Failures and pauses\<close>

lemma find_upd_session:
  assumes "\<And>r. sr_session_id (f r) = sr_session_id r"
  shows "find (\<lambda>r. sr_session_id r = s) (update_where (\<lambda>r. sr_session_id r = s) f (t_sessions d))
    = map_option f (find (\<lambda>r. sr_session_id r = s) (t_sessions d))"
  using assms by (cases "find (\<lambda>r. sr_session_id r = s) (t_sessions d)")
    (auto simp: find_update_where dest: find_SomeD)

lemma failure_row_keys [simp]:
  "sr_id (failure_row now r) = sr_id r" "sr_session_id (failure_row now r) = sr_session_id r"
  by (simp_all add: failure_row_def)

lemma RecordFailure_ok: "db_ok d \<Longrightarrow> db_ok (snd (RecordFailure c s d))"
  by (simp add: RecordFailure_def db_ok_upd_sessions split: option.split)

lemma RecordSuccess_ok: "db_ok d \<Longrightarrow> db_ok (snd (RecordSuccess c s d))"
  by (simp add: RecordSuccess_def db_ok_upd_sessions split: option.split)

lemma Record_messages [simp]:
  "t_messages (snd (RecordFailure c s d)) = t_messages d"
  "t_messages (snd (RecordSuccess c s d)) = t_messages d"
  by (simp_all add: RecordFailure_def RecordSuccess_def split: option.split)

lemma RecordFailure_row:
  assumes "session_at s d = Some r" "no_fault c" "int4 (fst (next_failure (c_now c) r))"
  shows "RecordFailure c s d = (None, upd_sessions (\<lambda>x. sr_session_id x = s) (failure_row (c_now c)) d)"
    and "session_at s (snd (RecordFailure c s d)) = Some (failure_row (c_now c) r)"
  using assms by (simp_all add: RecordFailure_def find_upd_session)

text \<open>A run of failures, and what the settings of the row are during it.\<close>

fun fail_times :: "ctx list \<Rightarrow> string \<Rightarrow> db \<Rightarrow> db" where
  "fail_times [] s d = d"
| "fail_times (c # cs) s d = fail_times cs s (snd (RecordFailure c s d))"

lemma fail_times_append: "fail_times (cs @ cs') s d = fail_times cs' s (fail_times cs s d)"
  by (induction cs arbitrary: d) simp_all

text \<open>
  Inside one window the count goes up by one per failure, and the settings do not move.
\<close>

lemma fail_times_window:
  assumes "session_at s d = Some r" "sr_failure_window_started_at r = Some t"
    and "\<And>c. c \<in> set cs \<Longrightarrow> no_fault c \<and> c_now c < t + minute"
    and "0 \<le> sr_failure_count r" "int4 (sr_failure_count r + int (length cs))"
  shows "\<exists>r'. session_at s (fail_times cs s d) = Some r' \<and> sr_failure_window_started_at r' = Some t
    \<and> sr_failure_count r' = sr_failure_count r + int (length cs)
    \<and> sr_failure_threshold r' = sr_failure_threshold r \<and> sr_pause_duration_ms r' = sr_pause_duration_ms r
    \<and> (sr_failure_count r + int (length cs) < sr_failure_threshold r \<longrightarrow>
         sr_throttled_until r' = sr_throttled_until r)"
  using assms
proof (induction cs arbitrary: d r)
  case (Cons c cs)
  have c: "no_fault c" "c_now c - t < minute" using Cons.prems(3) [of c] by simp_all
  then have nf: "next_failure (c_now c) r = (sr_failure_count r + 1, t)"
    using Cons.prems(2) by (simp add: next_failure_def)
  have row: "session_at s (snd (RecordFailure c s d)) = Some (failure_row (c_now c) r)"
    using Cons.prems c nf by (intro RecordFailure_row) (auto simp: int4_def)
  have "\<exists>r'. session_at s (fail_times cs s (snd (RecordFailure c s d))) = Some r'
    \<and> sr_failure_window_started_at r' = Some t
    \<and> sr_failure_count r' = sr_failure_count (failure_row (c_now c) r) + int (length cs)
    \<and> sr_failure_threshold r' = sr_failure_threshold (failure_row (c_now c) r)
    \<and> sr_pause_duration_ms r' = sr_pause_duration_ms (failure_row (c_now c) r)
    \<and> (sr_failure_count (failure_row (c_now c) r) + int (length cs) < sr_failure_threshold (failure_row (c_now c) r)
        \<longrightarrow> sr_throttled_until r' = sr_throttled_until (failure_row (c_now c) r))"
    by (rule Cons.IH [OF row]) (use Cons.prems nf in \<open>auto simp: failure_row_def add.assoc\<close>)
  then show ?case using nf by (auto simp: failure_row_def pause_until_def algebra_simps)
qed simp

text \<open>
  The count after a run of failures that starts with no open window: what the next failure finds.
\<close>

lemma fail_times_count:
  assumes "session_at s d = Some r"
    and "\<And>t. sr_failure_window_started_at r = Some t \<Longrightarrow> t + minute \<le> c_now (hd (cs @ [e]))"
    and "\<And>x. x \<in> set (cs @ [e]) \<Longrightarrow> no_fault x \<and> c_now x < c_now (hd (cs @ [e])) + minute"
    and "int4 (int (length cs) + 1)"
  shows "\<exists>r'. session_at s (fail_times cs s d) = Some r'
    \<and> next_failure (c_now e) r' = (int (length cs) + 1, c_now (hd (cs @ [e])))
    \<and> sr_failure_threshold r' = sr_failure_threshold r \<and> sr_pause_duration_ms r' = sr_pause_duration_ms r
    \<and> (int (length cs) < sr_failure_threshold r \<longrightarrow> sr_throttled_until r' = sr_throttled_until r)"
proof (cases cs)
  case Nil
  then show ?thesis using assms(1,2) by (auto simp: next_failure_def split: option.split)
next
  case (Cons c cs')
  let ?d1 = "snd (RecordFailure c s d)" and ?r1 = "failure_row (c_now c) r"
  have nf: "next_failure (c_now c) r = (1, c_now c)"
    using assms(2) by (auto simp: Cons next_failure_def split: option.split)
  have r1: "session_at s ?d1 = Some ?r1"
    using assms(1) assms(3) [of c] nf by (intro RecordFailure_row) (auto simp: Cons int4_def)
  have "\<exists>r2. session_at s (fail_times cs' s ?d1) = Some r2 \<and> sr_failure_window_started_at r2 = Some (c_now c)
      \<and> sr_failure_count r2 = sr_failure_count ?r1 + int (length cs')
      \<and> sr_failure_threshold r2 = sr_failure_threshold ?r1 \<and> sr_pause_duration_ms r2 = sr_pause_duration_ms ?r1
      \<and> (sr_failure_count ?r1 + int (length cs') < sr_failure_threshold ?r1 \<longrightarrow>
           sr_throttled_until r2 = sr_throttled_until ?r1)"
    by (rule fail_times_window [OF r1]) (use assms(3,4) nf in \<open>auto simp: Cons failure_row_def int4_def\<close>)
  then show ?thesis using nf assms(3) [of e]
    by (auto simp: Cons failure_row_def pause_until_def next_failure_def)
qed

text \<open>
  C10.  The per-minute cap.  Any interleaving of iterations of any callers, in the order in which they hold
  the mutex, each with its own reading \<open>now\<close> taken before it took the mutex.  While the session's
  \<open>max_messages_per_minute\<close> is \<open>n > 0\<close>, its \<open>min_interval_ms\<close> is at least \<open>m\<close>, and no iteration of
  the session decides later than half of \<open>m\<close> milliseconds after its reading \<open>now\<close> (the time it may
  wait for the mutex), at most \<open>n\<close> of the instants recorded for the session's admitted messages lie in the
  minute that ends at the last reading of the clock.
  Without the bound on the wait for the mutex the cap does not hold: see \<open>overlap_exceeds_cap\<close>.
\<close>

theorem throttle_cap:
  assumes "mutex_clock t tr" "0 < n"
    and "\<And>ob d r. (s, ob, d) \<in> set tr \<Longrightarrow> session_at s d = Some r \<Longrightarrow>
      sr_max_messages_per_minute r = int n \<and> interval_ok m ob r"
    and "\<And>ob d. (s, ob, d) \<in> set tr \<Longrightarrow> 2 * (wo_until2 ob - wo_now ob) \<le> m * millisecond"
  shows "length (filter (\<lambda>ob. last_clock t tr - minute < wo_now ob) (admissions s tr New_limiter)) \<le> n"
proof -
  have "successively (\<lambda>a b. wo_until2 a \<le> wo_now b) (admissions s tr New_limiter)"
  proof (rule gap_admissions)
    fix a b d d' assume "(s, a, d) \<in> set tr" "(s, b, d') \<in> set tr" "gap_ok m a b"
    then show "wo_until2 a \<le> wo_now b"
      using assms(4) [of a d] assms(4) [of b d'] mutex_clock_readings [OF assms(1), of s b d']
      by (simp add: readings_ok_def)
  qed (use assms(3) mutex_clock_readings [OF assms(1)] in blast)+
  moreover have "cap_inv n s t [] New_limiter" by (simp add: cap_inv_def New_limiter_def in_window_def)
  ultimately obtain l' where "cap_inv n s (last_clock t tr) (admissions s tr New_limiter) l'"
    using cap_inv_trace [of n s t "[]" New_limiter tr] assms(1-3) by auto
  from cap_inv_length [OF this] show ?thesis by (simp add: in_window_def filter_map o_def)
qed

text \<open>
  A trace of three iterations under a cap of one message: the second iteration is held back.  Each
  takes a tenth of a second from its reading \<open>now\<close> to its decision.
\<close>

definition sample_obs :: "int \<Rightarrow> int \<Rightarrow> wait_obs" where
  "sample_obs now u = \<lparr>wo_ctx = sample_ctx\<lparr>c_now := now * millisecond\<rparr>, wo_rand = 0,
     wo_until1 = u * millisecond, wo_until2 = u * millisecond, wo_cancel = None\<rparr>"

definition capped_db :: "int \<Rightarrow> db" where
  "capped_db m = sample_db\<lparr>t_sessions := [sample_session_row\<lparr>sr_max_messages_per_minute := 1,
     sr_min_interval_ms := m, sr_jitter_ms := 0\<rparr>]\<rparr>"

definition sample_trace :: "int \<Rightarrow> (int \<times> int) list \<Rightarrow> wait_trace" where
  "sample_trace m ts = map (\<lambda>(now, u). (''main'', sample_obs now u, capped_db m)) ts"

abbreviation held_back :: wait_trace where
  "held_back \<equiv> sample_trace 3000 [(100000, 100100), (130000, 130100), (160000, 160100)]"

lemma held_back_clock: "mutex_clock 0 held_back"
  by (simp add: sample_trace_def sample_obs_def readings_ok_def)

lemma held_back_rows:
  "(s, ob, d) \<in> set held_back \<Longrightarrow> session_at s d = Some r \<Longrightarrow>
    sr_max_messages_per_minute r = int 1 \<and> interval_ok 3000 ob r"
  "(s, ob, d) \<in> set held_back \<Longrightarrow> 2 * (wo_until2 ob - wo_now ob) \<le> 3000 * millisecond"
  by (auto simp: sample_trace_def sample_obs_def capped_db_def interval_ok_def int4_def split: if_splits)

theorem throttle_cap_witness:
  "map wo_now (admissions ''main'' held_back New_limiter) = [100 * second, 160 * second]
   \<and> length (filter (\<lambda>ob. last_clock 0 held_back - minute < wo_now ob)
       (admissions ''main'' held_back New_limiter)) \<le> 1"
proof (rule conjI)
  show "map wo_now (admissions ''main'' held_back New_limiter) = [100 * second, 160 * second]" by code_simp
  show "length (filter (\<lambda>ob. last_clock 0 held_back - minute < wo_now ob)
       (admissions ''main'' held_back New_limiter)) \<le> 1"
    by (rule throttle_cap [OF held_back_clock _ held_back_rows]) simp_all
qed

text \<open>
  Why the wait for the mutex must be bounded: with no interval configured and a cap of one message, two
  iterations that read the clock just before the oldest entry expires and take the mutex just after it
  are both admitted, because the pruned list still holds the expired entry at its head.
\<close>

lemma overlap_exceeds_cap:
  "mutex_clock 0 (sample_trace 0 [(100000, 100000), (159900, 160100), (159950, 160200)])
   \<and> map wo_now (admissions ''main'' (sample_trace 0 [(100000, 100000), (159900, 160100), (159950, 160200)])
       New_limiter) = [100000 * millisecond, 159900 * millisecond, 159950 * millisecond]"
proof (rule conjI)
  show "mutex_clock 0 (sample_trace 0 [(100000, 100000), (159900, 160100), (159950, 160200)])"
    by (simp add: sample_trace_def sample_obs_def readings_ok_def)
  show "map wo_now (admissions ''main'' (sample_trace 0 [(100000, 100000), (159900, 160100), (159950, 160200)])
       New_limiter) = [100000 * millisecond, 159900 * millisecond, 159950 * millisecond]" by code_simp
qed

text \<open>
  C15.  Spacing.  While a session's \<open>min_interval_ms\<close> is at least \<open>m\<close> and each iteration's own
  clock readings come in order, over any interleaving of callers: a message of the session is let through at
  a moment (the last reading inside the mutex) that is at least \<open>m\<close> milliseconds after the instant recorded
  for the message let through before it.
\<close>

theorem throttle_spacing:
  assumes "\<And>ob d. (s, ob, d) \<in> set tr \<Longrightarrow> readings_ok ob"
    and "\<And>ob d r. (s, ob, d) \<in> set tr \<Longrightarrow> session_at s d = Some r \<Longrightarrow> interval_ok m ob r"
  shows "successively (\<lambda>a b. m * millisecond \<le> wo_until2 b - wo_now a) (admissions s tr New_limiter)"
proof (rule gap_admissions [OF assms])
  fix a b d d' assume "(s, b, d') \<in> set tr" "gap_ok m a b"
  with assms(1) [of b d'] show "m * millisecond \<le> wo_until2 b - wo_now a" by (simp add: readings_ok_def)
qed

theorem throttle_spacing_witness:
  "successively (\<lambda>a b. 3000 * millisecond \<le> wo_until2 b - wo_now a) (admissions ''main'' held_back New_limiter)"
  by (rule throttle_spacing)
    (use mutex_clock_readings [OF held_back_clock] held_back_rows(1) in blast)+



text \<open>
  The window does not slide: with a threshold of three, failures at 0, 55, 61 and 62 seconds put three
  failures into ten seconds and pause nothing, because the third one opens a new window.
\<close>

lemma failures_over_two_windows:
  "map_option sr_throttled_until (session_at ''main'' (fail_times
      (map (\<lambda>t. sample_ctx\<lparr>c_now := t * second\<rparr>) [1000, 1055, 1061, 1062]) ''main''
      (sample_db\<lparr>t_sessions := [sample_session_row\<lparr>sr_failure_threshold := 3\<rparr>]\<rparr>))) = Some None"
  by code_simp

end
