(* ===== verification/World_Model.thy ===== *)
theory World_Model
  imports Session_Manager Events_Model Webhook_Model Throttle_Model
begin

text \<open>
  The running gateway with PostgreSQL and Redis, as \<open>cmd/gateway/main.go\<close> wires it: one state for the
  database, the outgoing HTTP requests, the event broker, the limiter and the messages handed to WhatsApp,
  on which the store, the dispatcher \<open>Multi{broker, webhooks}\<close>, the limiter and the senders act.  A
  store is carried from its own state to the larger one through a pair of access functions, and with it its
  laws; \<open>gateway_worker\<close> and the session handlers are then interpreted on these definitions.
\<close>

section \<open>A store inside a larger state\<close>

definition lift_write :: "('w \<Rightarrow> 'st) \<Rightarrow> ('st \<Rightarrow> 'w \<Rightarrow> 'w) \<Rightarrow> ('st \<Rightarrow> err option \<times> 'st) \<Rightarrow> 'w \<Rightarrow> err option \<times> 'w" where
  "lift_write get put f w = (case f (get w) of (r, st) \<Rightarrow> (r, put st w))"

definition lift_store :: "('w \<Rightarrow> 'st) \<Rightarrow> ('st \<Rightarrow> 'w \<Rightarrow> 'w) \<Rightarrow> 'st store \<Rightarrow> 'w store" where
  "lift_store get put S = \<lparr>
     ListSessions = (\<lambda>c w. ListSessions S c (get w)),
     GetSession = (\<lambda>c i w. GetSession S c i (get w)),
     PutSession = (\<lambda>c v. lift_write get put (PutSession S c v)),
     PutMessage = (\<lambda>c v. lift_write get put (PutMessage S c v)),
     ListMessages = (\<lambda>c w. ListMessages S c (get w)),
     UpdateSession = (\<lambda>c i a q p h. lift_write get put (UpdateSession S c i a q p h)),
     SetSessionQRExpiry = (\<lambda>c i x. lift_write get put (SetSessionQRExpiry S c i x)),
     UpdateMessageStatus = (\<lambda>c i a x e. lift_write get put (UpdateMessageStatus S c i a x e)),
     SetSessionIdentity = (\<lambda>c i x h. lift_write get put (SetSessionIdentity S c i x h)),
     UpdateMessageReceipt = (\<lambda>c i x a t. lift_write get put (UpdateMessageReceipt S c i x a t)),
     UpdateQueueJob = (\<lambda>c i a e. lift_write get put (UpdateQueueJob S c i a e)),
     ListPendingQueueJobs = (\<lambda>c w. ListPendingQueueJobs S c (get w)),
     GetMessageByWAID = (\<lambda>c i x w. GetMessageByWAID S c i x (get w))\<rparr>"

lemma lift_write_simps [simp]:
  "fst (lift_write get put f w) = fst (f (get w))" "snd (lift_write get put f w) = put (snd (f (get w))) w"
  by (simp_all add: lift_write_def split_beta)

lemma lift_write_eq: "lift_write get put f w = (r, w') \<longleftrightarrow> (\<exists>st. f (get w) = (r, st) \<and> w' = put st w)"
  by (auto simp: lift_write_def split: prod.splits)

text \<open>The access functions, and a part of the invariant that speaks about the rest of the state.\<close>

locale session_lens = session_store S ok view
  for S :: "'st store" and ok :: "'st \<Rightarrow> bool" and view :: "'st \<Rightarrow> string \<Rightarrow> session option" +
  fixes get :: "'w \<Rightarrow> 'st" and put :: "'st \<Rightarrow> 'w \<Rightarrow> 'w" and rest :: "'w \<Rightarrow> bool"
  assumes get_put: "get (put st w) = st" and put_get: "put (get w) w = w" and rest_put: "rest (put st w) = rest w"
begin

lemma lifted: "session_store (lift_store get put S) (\<lambda>w. ok (get w) \<and> rest w) (\<lambda>w. view (get w))"
  by unfold_locales
    (auto simp: lift_store_def lift_write_eq get_put put_get rest_put get_view update_ok update_view identity_ok
      identity_view expiry_ok put_ok put_frame
      dest: update_fail identity_fail expiry_fail put_fail expiry_view put_view)

end

locale message_lens = message_store S ok mview
  for S :: "'st store" and ok :: "'st \<Rightarrow> bool" and mview :: "'st \<Rightarrow> string \<Rightarrow> message option" +
  fixes get :: "'w \<Rightarrow> 'st" and put :: "'st \<Rightarrow> 'w \<Rightarrow> 'w" and rest :: "'w \<Rightarrow> bool"
  assumes get_put: "get (put st w) = st" and put_get: "put (get w) w = w" and rest_put: "rest (put st w) = rest w"
begin

lemma lifted_messages: "message_store (lift_store get put S) (\<lambda>w. ok (get w) \<and> rest w) (\<lambda>w. mview (get w))"
proof (unfold_locales, goal_cases)
  case (4 w c i a x e r w' j m')
  then show ?case using status_frame [of "get w" c i a x e r "get w'" j m']
    by (auto simp: lift_store_def lift_write_eq get_put)
next
  case (7 w c i x m)
  then show ?case using waid_get [of "get w" c i x m] by (simp add: lift_store_def)
next
  case (10 w c i x a t w' j)
  then show ?case using receipt_view [of "get w" c i x a t "get w'" j]
    by (auto simp: lift_store_def lift_write_eq get_put)
qed (auto simp: lift_store_def lift_write_eq get_put put_get rest_put status_ok status_view job_ok job_view
    receipt_ok dest: status_fail receipt_fail)

end

section \<open>The gateway\<close>

record world =
  w_hooks :: hooks
  w_broker :: broker
  w_limiter :: limiter
  w_sent :: "outgoing list"

definition w_db :: "world \<Rightarrow> db" where
  "w_db w = hk_db (w_hooks w)"

definition put_db :: "db \<Rightarrow> world \<Rightarrow> world" where
  "put_db d w = w\<lparr>w_hooks := (w_hooks w)\<lparr>hk_db := d\<rparr>\<rparr>"

definition gateway_store :: "uuid_input \<Rightarrow> world store" where
  "gateway_store u = lift_store w_db put_db (postgres_store u)"

definition send_on_closed :: err where
  "send_on_closed = Panicked ''send on closed channel''"

definition broker_dispatch :: "world dispatch" where
  "broker_dispatch c name payload w = (case Broker_Dispatch name payload (w_broker w) of
       None \<Rightarrow> (Some send_on_closed, w) | Some b \<Rightarrow> (None, w\<lparr>w_broker := b\<rparr>))"

definition webhook_dispatch :: "hook_params \<Rightarrow> world dispatch" where
  "webhook_dispatch P c name payload w = (case Webhook_Dispatch P c name payload (w_hooks w) of
     (r, h) \<Rightarrow> (r, w\<lparr>w_hooks := h\<rparr>))"

definition gateway_dispatcher :: "hook_params \<Rightarrow> world dispatch" where
  "gateway_dispatcher P = Multi_Dispatch [Some broker_dispatch, Some (webhook_dispatch P)]"

text \<open>
  \<open>throttle.New(databaseConn)\<close>.  The observations \<open>obs\<close> are those of the next call of \<open>Wait\<close>; asynq gives
  every task a deadline, so that a loop that is still waiting after them ends with the context's error.
\<close>

definition deadline_exceeded :: err where
  "deadline_exceeded = Errorf ''context deadline exceeded'' None"

definition limiter_Wait :: "wait_obs list \<Rightarrow> ctx \<Rightarrow> string \<Rightarrow> world \<Rightarrow> err option \<times> world" where
  "limiter_Wait obs c s w = (case Wait s (map (\<lambda>ob. (ob, w_db w)) obs) (w_limiter w) of
       (Some r, l) \<Rightarrow> (r, w\<lparr>w_limiter := l\<rparr>) | (None, l) \<Rightarrow> (Some deadline_exceeded, w\<lparr>w_limiter := l\<rparr>))"

definition gateway_throttle :: "wait_obs list \<Rightarrow> world throttle" where
  "gateway_throttle obs = \<lparr>th_Wait = limiter_Wait obs,
     th_RecordFailure = (\<lambda>c s. lift_write w_db put_db (RecordFailure c s)),
     th_RecordSuccess = (\<lambda>c s. lift_write w_db put_db (RecordSuccess c s))\<rparr>"

text \<open>\<open>whatsapp.QueueSender\<close> of a client.\<close>

definition queue_sender :: "(string \<Rightarrow> bool) \<Rightarrow> world sender" where
  "queue_sender url_valid = \<lparr>
     SendText = (\<lambda>c to body w. (case wa_SendText c to body of (r, out) \<Rightarrow> (r, w\<lparr>w_sent := w_sent w @ out\<rparr>))),
     SendMedia = Some (\<lambda>c to kind url name caption w.
       (case wa_SendMedia url_valid c to kind url name caption of (r, out) \<Rightarrow> (r, w\<lparr>w_sent := w_sent w @ out\<rparr>)))\<rparr>"

text \<open>The arguments \<open>main\<close> passes to \<open>queue.NewWorker\<close>; \<open>m\<close> is the session manager's state.\<close>

definition gateway_worker :: "uuid_input \<Rightarrow> hook_params \<Rightarrow> wait_obs list \<Rightarrow> manager \<Rightarrow> world worker" where
  "gateway_worker u P obs m = \<lparr>
     wk_UpdateMessageStatus = UpdateMessageStatus (gateway_store u),
     wk_UpdateQueueJob = UpdateQueueJob (gateway_store u),
     wk_lookup = (\<lambda>s w. case sm_clients m s of None \<Rightarrow> None | Some p \<Rightarrow> Some (queue_sender (hp_url_valid P))),
     wk_dispatcher = Some (gateway_dispatcher P),
     wk_limiter = Some (gateway_throttle obs)\<rparr>"

section \<open>Invariant of the gateway\<close>

definition world_ok :: "uuid_input \<Rightarrow> world \<Rightarrow> bool" where
  "world_ok u w \<longleftrightarrow> pg_ok u (w_db w) \<and> broker_ok (w_broker w)"

definition world_mview :: "uuid_input \<Rightarrow> world \<Rightarrow> string \<Rightarrow> message option" where
  "world_mview u w = pg_mview u (w_db w)"

lemma w_db_put [simp]: "w_db (put_db d w) = d" "put_db (w_db w) w = w" "w_broker (put_db d w) = w_broker w"
  "w_limiter (put_db d w) = w_limiter w" "w_sent (put_db d w) = w_sent w"
  "w_db (w\<lparr>w_limiter := l\<rparr>) = w_db w" "w_db (w\<lparr>w_sent := s\<rparr>) = w_db w" "w_db (w\<lparr>w_broker := b\<rparr>) = w_db w"
  "w_db (w\<lparr>w_hooks := h\<rparr>) = hk_db h"
  by (simp_all add: w_db_def put_db_def)

text \<open>A session statement leaves the messages alone, so that the session laws hold under \<open>pg_ok\<close> too.\<close>

lemma pg_session_messages [simp]:
  "t_messages (snd (pg_PutSession c v d)) = t_messages d" "t_messages (snd (pg_UpdateSession c i a q p h d)) = t_messages d"
  "t_messages (snd (pg_SetSessionQRExpiry c i x d)) = t_messages d"
  "t_messages (snd (pg_SetSessionIdentity c i j h d)) = t_messages d"
  by (simp_all add: pg_write_defs insert_session_def split: option.split)

interpretation pg_session_lens: session_lens "postgres_store u" "pg_ok u" pg_view w_db put_db "\<lambda>w. broker_ok (w_broker w)"
  for u :: uuid_input
proof (unfold_locales, goal_cases)
  case (1 st c i r)
  then show ?case using pg_sessions.get_view pg_ok_db_ok by blast
next
  case (4 st c i a q p h st' j)
  then show ?case using pg_sessions.update_view pg_ok_db_ok by blast
next
  case (7 st c i w h st' j)
  then show ?case using pg_sessions.identity_view pg_ok_db_ok by blast
next
  case (10 st c i x st' j)
  then show ?case using pg_sessions.expiry_view pg_ok_db_ok by blast
next
  case (13 st c v st')
  then show ?case using pg_sessions.put_view pg_ok_db_ok by blast
next
  case (14 st c v st' j)
  then show ?case using pg_sessions.put_frame pg_ok_db_ok by blast
qed (auto simp: pg_ok_def pg_write_ok
    dest: pg_write_fail)

interpretation pg_message_lens: message_lens "postgres_store u" "pg_ok u" "pg_mview u" w_db put_db "\<lambda>w. broker_ok (w_broker w)"
  for u :: uuid_input
  by unfold_locales simp_all

lemma gateway_sessions: "session_store (gateway_store u) (world_ok u) (\<lambda>w. pg_view (w_db w))"
  using pg_session_lens.lifted [of u] by (simp add: gateway_store_def world_ok_def [abs_def])

lemma gateway_messages: "message_store (gateway_store u) (world_ok u) (world_mview u)"
  using pg_message_lens.lifted_messages [of u] by (simp add: gateway_store_def world_ok_def [abs_def] world_mview_def [abs_def])

interpretation gw_sessions: session_store "gateway_store u" "world_ok u" "\<lambda>w. pg_view (w_db w)"
  for u :: uuid_input
  by (rule gateway_sessions)

interpretation gw_messages: message_store "gateway_store u" "world_ok u" "world_mview u"
  for u :: uuid_input
  by (rule gateway_messages)

section \<open>The dispatcher leaves sessions and messages alone\<close>

lemma pg_mview_cong: "t_messages d = t_messages d' \<Longrightarrow> pg_mview u d = pg_mview u d'"
  by (simp add: fun_eq_iff pg_mview_def message_row_by_def split: option.split)

lemma pg_view_cong: "t_messages d = t_messages d' \<Longrightarrow> t_sessions d = t_sessions d' \<Longrightarrow> pg_view d = pg_view d'"
proof -
  assume eq: "t_messages d = t_messages d'" "t_sessions d = t_sessions d'"
  then have "session_of_row d = session_of_row d'" by (simp add: fun_eq_iff session_of_row_def message_count_def)
  with eq show ?thesis by (intro ext) (simp add: pg_view_def)
qed

definition same_core :: "db \<Rightarrow> db \<Rightarrow> bool" where
  "same_core d d' \<longleftrightarrow> t_messages d' = t_messages d \<and> t_sessions d' = t_sessions d \<and> t_queue_jobs d' = t_queue_jobs d"

lemma broker_dispatch_same: "w_hooks (snd (broker_dispatch c ev p w)) = w_hooks w"
  by (simp add: broker_dispatch_def split: option.split)

lemma webhook_dispatch_same: "same_core (w_db w) (w_db (snd (webhook_dispatch P c ev p w)))"
  using Webhook_Dispatch_same [of "w_hooks w" P c ev p]
  by (auto simp: webhook_dispatch_def split_beta same_core_def same_but_deliveries_def w_db_def)

lemma dispatcher_same: "same_core (w_db w) (w_db (snd (gateway_dispatcher P c ev p w)))"
  unfolding gateway_dispatcher_def
  by (rule Multi_Dispatch_preserves [where P = "\<lambda>x. same_core (w_db w) (w_db x)"])
    (use broker_dispatch_same webhook_dispatch_same in \<open>auto simp: same_core_def w_db_def\<close>)

lemma dispatcher_ok: "world_ok u w \<Longrightarrow> world_ok u (snd (gateway_dispatcher P c ev p w))"
  unfolding gateway_dispatcher_def
proof (rule Multi_Dispatch_preserves [where P = "world_ok u"])
  fix d w
  assume d: "Some d \<in> set [Some broker_dispatch, Some (webhook_dispatch P)]" and ok: "world_ok u w"
  have "world_ok u (snd (broker_dispatch c ev p w))"
    using ok Broker_Dispatch_ok [of "w_broker w" ev p] by (auto simp: broker_dispatch_def world_ok_def)
  moreover have "world_ok u (snd (webhook_dispatch P c ev p w))"
    using ok Webhook_Dispatch_ok [of "w_hooks w" P c ev p] Webhook_Dispatch_same [of "w_hooks w" P c ev p]
    by (simp add: webhook_dispatch_def split_beta world_ok_def pg_ok_def w_db_def same_but_deliveries_def)
  ultimately show "world_ok u (snd (d c ev p w))" using d by auto
qed

section \<open>The worker of the gateway\<close>

lemma gateway_worker_simps [simp]:
  "wk_dispatcher (gateway_worker u P obs m) = Some (gateway_dispatcher P)"
  "wk_limiter (gateway_worker u P obs m) = Some (gateway_throttle obs)"
  "wk_UpdateMessageStatus (gateway_worker u P obs m) = UpdateMessageStatus (gateway_store u)"
  "wk_UpdateQueueJob (gateway_worker u P obs m) = UpdateQueueJob (gateway_store u)"
  by (simp_all add: gateway_worker_def)

lemma gateway_lookup:
  "wk_lookup (gateway_worker u P obs m) s w = (if sm_clients m s = None then None else Some (queue_sender (hp_url_valid P)))"
  by (auto simp: gateway_worker_def split: option.split)

lemma lookup_sender:
  "wk_lookup (gateway_worker u P obs m) s w = Some S \<Longrightarrow> S = queue_sender (hp_url_valid P)"
  by (simp add: gateway_worker_def split: option.splits)

lemma queue_sender_db:
  "w_hooks (snd (SendText (queue_sender v) c t b w)) = w_hooks w" "w_broker (snd (SendText (queue_sender v) c t b w)) = w_broker w"
  "SendMedia (queue_sender v) = Some f \<Longrightarrow> w_hooks (snd (f c t k n x b w)) = w_hooks w"
  "SendMedia (queue_sender v) = Some f \<Longrightarrow> w_broker (snd (f c t k n x b w)) = w_broker w"
  by (auto simp: queue_sender_def split_beta)

lemma limiter_Wait_db: "w_hooks (snd (limiter_Wait obs c s w)) = w_hooks w" "w_broker (snd (limiter_Wait obs c s w)) = w_broker w"
  by (simp_all add: limiter_Wait_def split: prod.split option.split)

lemma gateway_throttle_simps [simp]:
  "th_Wait (gateway_throttle obs) = limiter_Wait obs"
  "th_RecordFailure (gateway_throttle obs) c s w = lift_write w_db put_db (RecordFailure c s) w"
  "th_RecordSuccess (gateway_throttle obs) c s w = lift_write w_db put_db (RecordSuccess c s) w"
  by (simp_all add: gateway_throttle_def)

lemma Record_world_ok:
  assumes "world_ok u w"
  shows "world_ok u (put_db (snd (RecordFailure c s (w_db w))) w)" "world_ok u (put_db (snd (RecordSuccess c s (w_db w))) w)"
  using assms RecordFailure_ok [of "w_db w" c s] RecordSuccess_ok [of "w_db w" c s] by (simp_all add: world_ok_def pg_ok_def)

interpretation gw: job_worker "gateway_worker u P obs m" "world_ok u" "world_mview u"
  for u :: uuid_input and P :: hook_params and obs :: "wait_obs list" and m :: manager
proof (unfold_locales, goal_cases)
  case 1
  then show ?case by (simp add: gw_messages.status_ok)
next
  case (2 c i a x e w y w')
  then have "w' = w" using gw_messages.status_fail by simp
  then show ?case by simp
next
  case 3
  then show ?case using gw_messages.status_view by simp
next
  case 4
  then show ?case using gw_messages.status_frame by simp
next
  case (5 w i m' c a x e)
  then obtain v where "u i = Some v" by (auto simp: world_mview_def pg_mview_def message_row_by_def split: option.splits)
  then show ?case by (simp add: gateway_store_def lift_store_def pg_UpdateMessageStatus_def split: option.split)
next
  case 6
  then show ?case by (simp add: gw_messages.job_ok)
next
  case 7
  then show ?case by (simp add: fun_eq_iff gw_messages.job_view)
next
  case (8 w l c s)
  then have "l = gateway_throttle obs" by simp
  then show ?case using 8 Record_world_ok limiter_Wait_db [of obs c s w] by (simp add: world_ok_def w_db_def)
next
  case (9 l c s w)
  then have l: "l = gateway_throttle obs" by simp
  have "w_db (snd (limiter_Wait obs c s w)) = w_db w" by (simp add: w_db_def limiter_Wait_db)
  moreover have "pg_mview u (snd (RecordFailure c s (w_db w))) = pg_mview u (w_db w)"
    "pg_mview u (snd (RecordSuccess c s (w_db w))) = pg_mview u (w_db w)" by (rule pg_mview_cong, simp)+
  ultimately show ?case by (simp add: l world_mview_def)
next
  case (10 w s S c t b)
  then show ?case using lookup_sender [OF 10(2)] queue_sender_db(1,2) by (simp add: world_ok_def w_db_def)
next
  case (11 s w S c t b)
  then show ?case using lookup_sender [OF 11] queue_sender_db(1) by (simp add: world_mview_def w_db_def)
next
  case (12 w s S f c t k u' n b)
  then have f: "SendMedia (queue_sender (hp_url_valid P)) = Some f" using lookup_sender [OF 12(2)] by simp
  then show ?case using 12(1) queue_sender_db(3,4) [OF f] by (simp add: world_ok_def w_db_def)
next
  case (13 s w S f c t k u' n b)
  then have f: "SendMedia (queue_sender (hp_url_valid P)) = Some f" using lookup_sender [OF 13(1)] by simp
  then show ?case using queue_sender_db(3) [OF f] by (simp add: world_mview_def w_db_def)
next
  case (14 w d c ev p)
  then show ?case using dispatcher_ok by auto
next
  case (15 d c ev p w)
  then show ?case using dispatcher_same [of w P c ev p] by (auto simp: world_mview_def same_core_def intro: pg_mview_cong)
qed

text \<open>What goes to WhatsApp in one run.\<close>

lemma w_sent_hooks: "w_sent (w\<lparr>w_hooks := h\<rparr>) = w_sent w"
  by simp

lemma dispatcher_sent: "w_sent (snd (gateway_dispatcher P c ev p w)) = w_sent w"
  unfolding gateway_dispatcher_def
  by (rule Multi_Dispatch_preserves [where P = "\<lambda>x. w_sent x = w_sent w"])
    (auto simp: broker_dispatch_def webhook_dispatch_def split: option.splits prod.splits)

lemma store_sent:
  "w_sent (snd (UpdateMessageStatus (gateway_store u) c i a x e w)) = w_sent w"
  "w_sent (snd (UpdateQueueJob (gateway_store u) c i a e w)) = w_sent w"
  by (simp_all add: gateway_store_def lift_store_def)

lemma limiter_Wait_sent: "w_sent (snd (limiter_Wait obs c s w)) = w_sent w"
  by (simp add: limiter_Wait_def split: prod.split option.split)

lemma publish_sent: "w_sent (snd (opt_dispatch (Some (gateway_dispatcher P)) c ev p w)) = w_sent w"
  by (simp add: opt_dispatch_def split_beta dispatcher_sent)

lemma report_failure_sent: "w_sent (snd (report_failure (gateway_worker u P obs m) E job t w)) = w_sent w"
  by (simp add: report_failure_def Let_def publish_sent store_sent recordFailure_def)

lemma send_job_sent: "length (w_sent (snd (send_job (queue_sender v) c job w))) \<le> Suc (length (w_sent w))"
  using Send_once(1) [of c "j_To job" "j_Content job"]
    Send_once(2) [of v c "j_To job" "j_Type job" "j_URL job" "j_Filename job" "j_Content job"]
  by (simp add: send_job_def queue_sender_def split_beta)

lemma process_job_sent:
  "length (w_sent (snd (process_job (gateway_worker u P obs m) E job w))) \<le> Suc (length (w_sent w))"
proof -
  obtain r1 w1 where w1: "limiter_Wait obs (E 0) (j_SessionID job) w = (r1, w1)" by fastforce
  then have s1: "w_sent w1 = w_sent w" using limiter_Wait_sent [of obs "E 0" "j_SessionID job" w] by simp
  show ?thesis
  proof (cases "r1 = None \<and> sm_clients m (j_SessionID job) \<noteq> None")
    case False
    then show ?thesis using w1 s1 report_failure_sent [of u P obs m E job "''session client unavailable''" w1]
      by (auto simp: process_job_def gateway_worker_def split: option.splits prod.splits)
  next
    case True
    then have look: "wk_lookup (gateway_worker u P obs m) (j_SessionID job) w1 = Some (queue_sender (hp_url_valid P))"
      by (auto simp: gateway_worker_def)
    obtain q w2 where w2: "send_job (queue_sender (hp_url_valid P)) (E 1) job w1 = (q, w2)" by fastforce
    then have s2: "length (w_sent w2) \<le> Suc (length (w_sent w))"
      using send_job_sent [of "hp_url_valid P" "E 1" job w1] s1 by simp
    show ?thesis
    proof (cases q)
      case (Inl e)
      obtain z w3 where w3: "report_failure (gateway_worker u P obs m) E job (err_text e) w2 = (z, w3)" by fastforce
      then have "w_sent w3 = w_sent w2" using report_failure_sent [of u P obs m E job "err_text e" w2] by simp
      then show ?thesis using True Inl w1 look w2 s2 w3 by (simp add: process_job_def split: option.split)
    next
      case (Inr x)
      obtain y w3 where w3: "UpdateMessageStatus (gateway_store u) (E 3) (j_MessageID job) ''sent'' x [] w2 = (y, w3)" by fastforce
      then have "w_sent w3 = w_sent w2"
        using store_sent(1) [of u "E 3" "j_MessageID job" "''sent''" x "[]" w2] by simp
      with Inr True w1 look w2 w3 s2 show ?thesis
        by (simp add: process_job_def Let_def publish_sent store_sent recordSuccess_def split: option.split)
    qed
  qed
qed

text \<open>
  C1.  The outcome of a task in the running gateway.  The schema's constraints and the broker's invariant
  are kept; at most one message is handed to WhatsApp; every other message is left as it was.  When the
  limiter refuses, its error is returned and nothing is written.  Without a client of the session the
  message fails with that reason and an error is returned.  When sending fails, the message gets the
  error's text and the error goes back to asynq, which retries, except for the reach-out restriction 463,
  whose result is nil.  When it succeeds, the message becomes \<open>sent\<close> with WhatsApp's identifier and the
  result is nil; if the database refuses that last write, the message stays as it was and the error is
  returned.  A panic of the dispatcher is the one other result.
\<close>

theorem worker_job_outcome:
  assumes "world_ok u w" "world_mview u w (j_MessageID job) = Some msg"
    and "process_job (gateway_worker u P obs m) E job w = (r, w')"
  shows "world_ok u w' \<and> length (w_sent w') \<le> Suc (length (w_sent w))
    \<and> (\<forall>j msg'. world_mview u w j = Some msg' \<longrightarrow> m_ID msg' \<noteq> m_ID msg \<longrightarrow> world_mview u w' j = Some msg')
    \<and> (case limiter_Wait obs (E 0) (j_SessionID job) w of
        (Some e, w1) \<Rightarrow> r = Some e \<and> world_mview u w' (j_MessageID job) = Some msg
      | (None, w1) \<Rightarrow>
         if sm_clients m (j_SessionID job) = None
         then r \<noteq> None \<and> world_mview u w' (j_MessageID job) = recorded (E 3) ''failed'' [] ''session client unavailable'' msg
         else case fst (send_job (queue_sender (hp_url_valid P)) (E 1) job w1) of
             Inl e \<Rightarrow> (panicked r \<or> r = (if contains_sub (err_text e) timelock_marker then None else Some e))
               \<and> world_mview u w' (j_MessageID job) = recorded (E 3) ''failed'' [] (err_text e) msg
           | Inr x \<Rightarrow> (case c_fault (E 3) 0 of None \<Rightarrow> r = None \<or> panicked r | Some e \<Rightarrow> r = Some e)
               \<and> world_mview u w' (j_MessageID job) = recorded (E 3) ''sent'' x [] msg)"
proof (intro conjI allI impI)
  show "world_ok u w'" using gw.process_job_ok [OF assms(1), of P obs m E job] assms(3) by simp
  show "length (w_sent w') \<le> Suc (length (w_sent w))"
    using process_job_sent [of u P obs m E job w] assms(3) by simp
  show "world_mview u w' j = Some msg'" if "world_mview u w j = Some msg'" "m_ID msg' \<noteq> m_ID msg" for j msg'
    using gw.process_job_frame [OF assms(1) that(1), of job P obs m E] that(2) assms(2,3) by auto
qed (use gw.process_job_outcome [OF assms] in \<open>auto simp: gw.limiter_wait_def gateway_lookup split: prod.splits option.splits sum.splits if_splits\<close>)

section \<open>Session events in the gateway\<close>

interpretation gw_events: session_events "gateway_store u" "world_ok u" "\<lambda>w. pg_view (w_db w)" "Some (gateway_dispatcher P)"
  for u :: uuid_input and P :: hook_params
proof (unfold_locales, goal_cases)
  case (1 d w c ev p)
  then show ?case using dispatcher_ok by auto
next
  case (2 d w c ev p)
  then show ?case using dispatcher_same [of w P c ev p] by (auto simp: same_core_def intro: pg_view_cong)
next
  case (3 w c i x a t)
  then show ?case by (rule gw_messages.receipt_ok)
next
  case (4 w c i x a t)
  have "mr_session_id (receipt_row a t r) = mr_session_id r" for r by simp
  then have "message_count (snd (pg_UpdateMessageReceipt c i x a t (w_db w))) = message_count (w_db w)"
    by (auto simp: fun_eq_iff message_count_def pg_UpdateMessageReceipt_def update_where_def filter_map comp_def
        split: option.split intro!: arg_cong [where f = length] filter_cong)
  then have "session_of_row (snd (pg_UpdateMessageReceipt c i x a t (w_db w))) = session_of_row (w_db w)"
    by (simp add: fun_eq_iff session_of_row_def)
  moreover have "t_sessions (snd (pg_UpdateMessageReceipt c i x a t (w_db w))) = t_sessions (w_db w)"
    by (simp add: pg_UpdateMessageReceipt_def split: option.split)
  ultimately show ?case by (intro ext) (simp add: gateway_store_def lift_store_def pg_view_def)
qed

lemma lifecycle_event:
  assumes "(ev, status) \<in> {(Connected, ''connected''), (Disconnected, ''disconnected''), (LoggedOut, ''logged_out'')}"
  shows "\<exists>ph. handle_event S D fmt E h ev st = report_status S D E (handler_session h) status ph st"
  using assms by (cases h) (auto simp: Let_def)

text \<open>
  C17.  A WhatsApp event changes the session of its own client only: whatever the event, the database keeps its
  constraints and every other session reads as before.  When the status write of a \<open>Connected\<close>, \<open>Disconnected\<close>
  or \<open>LoggedOut\<close> event is accepted, the session shows that status and carries no QR code, pairing code or
  expiry any more.
\<close>

theorem session_event_effect:
  assumes "world_ok u w" "\<And>k. fair_order (E k)"
    and "handle_event (gateway_store u) (Some (gateway_dispatcher P)) fmt E h ev w = (r, w')"
  shows "world_ok u w' \<and> (\<forall>j. j \<noteq> handler_session h \<longrightarrow> pg_view (w_db w') j = pg_view (w_db w) j)
    \<and> (\<forall>status v. (ev, status) \<in> {(Connected, ''connected''), (Disconnected, ''disconnected''), (LoggedOut, ''logged_out'')} \<longrightarrow>
        c_fault (E 0) 0 = None \<longrightarrow> pg_view (w_db w) (handler_session h) = Some v \<longrightarrow>
        (\<exists>v'. pg_view (w_db w') (handler_session h) = Some v' \<and> s_Status v' = status \<and> s_QRCode v' = []
          \<and> s_PairingCode v' = [] \<and> s_QRExpiresAt v' = None \<and> s_WAJID v' = s_WAJID v))"
proof (intro conjI allI impI)
  show "world_ok u w'" using gw_events.handle_event_ok [where E = E and P = P and fmt = fmt and h = h and ev = ev, OF assms(1,2)] assms(3) by simp
  show "pg_view (w_db w') j = pg_view (w_db w) j" if "j \<noteq> handler_session h" for j
    using gw_events.handle_event_frame [where E = E and P = P and fmt = fmt and ev = ev, OF assms(1,2) that] assms(3) by simp
  fix status v
  assume ev: "(ev, status) \<in> {(Connected, ''connected''), (Disconnected, ''disconnected''), (LoggedOut, ''logged_out'')}"
    and ok: "c_fault (E 0) 0 = None" and v: "pg_view (w_db w) (handler_session h) = Some v"
  let ?i = "handler_session h"
  obtain ph where "w' = snd (report_status (gateway_store u) (Some (gateway_dispatcher P)) E ?i status ph w)"
    using lifecycle_event [OF ev, of "gateway_store u" "Some (gateway_dispatcher P)" fmt E h w] assms(3)
    by (metis snd_conv)
  moreover obtain w1 where "UpdateSession (gateway_store u) (E 0) ?i status [] [] ph w = (None, w1)"
    using ok by (simp add: gateway_store_def lift_store_def lift_write_def pg_UpdateSession_def)
  ultimately show "\<exists>v'. pg_view (w_db w') (handler_session h) = Some v' \<and> s_Status v' = status \<and> s_QRCode v' = []
          \<and> s_PairingCode v' = [] \<and> s_QRExpiresAt v' = None \<and> s_WAJID v' = s_WAJID v"
    using gw_events.report_shows [OF assms(1), where E = E and i = ?i and P = P] v by blast
qed

text \<open>A world with one session and one queued message, and a job for it.\<close>

definition sample_world :: world where
  "sample_world = \<lparr>w_hooks = \<lparr>hk_db = sample_db\<lparr>t_messages := [message_row_of ''m1'' None 0 sample_message]\<rparr>, hk_out = []\<rparr>,
     w_broker = NewBroker, w_limiter = New_limiter, w_sent = []\<rparr>"

definition sample_job :: message_job where
  "sample_job = \<lparr>j_MessageID = ''m1'', j_SessionID = ''main'', j_To = ''62812'', j_Type = ''text'', j_Content = ''hi'',
     j_URL = [], j_Filename = [], j_MIMEType = [], j_Priority = 0, j_Delay = 0\<rparr>"

lemma sample_world_ok: "world_ok Some sample_world"
  using sample_db_ok
  by (simp add: world_ok_def pg_ok_def sample_world_def w_db_def NewBroker_ok db_ok_defs message_row_of_def sample_message_def
      idem_keys_def idem_key_def refs_def nullif_def)

lemma sample_world_mview: "world_mview Some sample_world ''m1'' = Some (message_of_row (message_row_of ''m1'' None 0 sample_message))"
  by (simp add: world_mview_def pg_mview_def message_row_by_def sample_world_def w_db_def message_row_of_def)

definition sample_obs :: wait_obs where
  "sample_obs = \<lparr>wo_ctx = sample_ctx, wo_rand = 0, wo_until1 = 0, wo_until2 = 0, wo_cancel = None\<rparr>"

lemma sample_admitted: "\<exists>w1. limiter_Wait [sample_obs] c ''main'' sample_world = (None, w1)"
  by (simp add: limiter_Wait_def wait_iter_def sample_obs_def sample_world_def w_db_def wait_for_def spaced_wait_def capped_wait_def
      pause_wait_def kept_of_filter New_limiter_def sample_session_row_def Let_def)

lemma sample_job_sends: "fst (send_job (queue_sender v) sample_ctx sample_job w) = Inr ''3EB0''"
  by (simp add: send_job_def sample_job_def queue_sender_def wa_SendText_def digits_def split_beta Let_def)

theorem worker_job_outcome_witness:
  "world_mview Some (snd (process_job (gateway_worker Some sample_hook_params [sample_obs]
      (NewSessionManager\<lparr>sm_clients := (\<lambda>_. Some 0)\<rparr>)) (\<lambda>_. sample_ctx) sample_job sample_world)) ''m1''
    = recorded sample_ctx ''sent'' ''3EB0'' [] (message_of_row (message_row_of ''m1'' None 0 sample_message))"
proof -
  let ?m = "NewSessionManager\<lparr>sm_clients := (\<lambda>_. Some 0)\<rparr>"
  let ?p = "process_job (gateway_worker Some sample_hook_params [sample_obs] ?m) (\<lambda>_. sample_ctx) sample_job sample_world"
  obtain w1 where w1: "limiter_Wait [sample_obs] sample_ctx ''main'' sample_world = (None, w1)" using sample_admitted by blast
  have j: "j_MessageID sample_job = ''m1''" "j_SessionID sample_job = ''main''" by (simp_all add: sample_job_def)
  have "?p = (fst ?p, snd ?p)" by simp
  from worker_job_outcome [OF sample_world_ok sample_world_mview [folded j(1)] this]
  show ?thesis by (simp add: j w1 sample_job_sends)
qed

theorem session_event_effect_witness:
  "\<exists>v'. pg_view (w_db (snd (handle_event (gateway_store Some) (Some (gateway_dispatcher sample_hook_params)) (\<lambda>_. [])
      (\<lambda>_. sample_ctx) (LoadedHandler ''main'' []) Disconnected sample_world))) ''main'' = Some v' \<and> s_Status v' = ''disconnected''"
proof -
  let ?r = "handle_event (gateway_store Some) (Some (gateway_dispatcher sample_hook_params)) (\<lambda>_. [])
      (\<lambda>_. sample_ctx) (LoadedHandler ''main'' []) Disconnected sample_world"
  obtain v where v: "pg_view (w_db sample_world) ''main'' = Some v" by (simp add: pg_view_def sample_world_def w_db_def)
  have "?r = (fst ?r, snd ?r)" by simp
  from session_event_effect [OF sample_world_ok _ this] v show ?thesis by auto
qed

end
