(* ===== verification/Auth_Model.thy ===== *)
theory Auth_Model
  imports Db_Schema
begin

text \<open>
  \<open>internal/auth/service.go\<close>: passwords and refresh tokens of users, API keys with their session scope,
  address rules and rate windows.  bcrypt, JWT, SHA-256 and the parsers of IP addresses are parameters,
  collected in \<open>auth_params\<close> together with the two secrets of the \<open>Service\<close>.
\<close>

section \<open>State and parameters\<close>

record rate_window =
  w_started :: time
  w_count :: int

text \<open>The database and the map \<open>rate\<close>; the zero \<open>window\<close> of an absent key started long ago.\<close>

record auth_state =
  au_db :: db
  au_rate :: "string \<Rightarrow> rate_window option"

record principal =
  p_UserID :: string
  p_Username :: string
  p_APIKeyID :: string
  p_SessionID :: string
  p_IsAPIKey :: bool

record api_key =
  k_ID :: string
  k_Name :: string
  k_KeyPrefix :: string
  k_SessionID :: string
  k_AllowedIPs :: "string list"
  k_RateLimit :: "int option"
  k_IsActive :: bool
  k_CreatedAt :: time
  k_UpdatedAt :: time

text \<open>
  \<open>ap_sign\<close> signs claims with HS256 under a key; \<open>ap_parse now token keyfunc\<close> verifies a token at the time
  \<open>now\<close>, asking \<open>keyfunc\<close> for the key by the algorithm of the token's header.  \<open>ap_generate\<close> takes the salt
  as its first argument.  \<open>ap_sha256\<close> gives the 32 bytes of a digest.  \<open>ap_parse_ip\<close> gives an address in canonical form, \<open>ap_cidr rule\<close> the membership
  test of a network.
\<close>

record auth_params =
  ap_secret :: string
  ap_refresh_secret :: string
  ap_sha256 :: "string \<Rightarrow> string"
  ap_generate :: "string \<Rightarrow> string \<Rightarrow> err + string"
  ap_compare :: "string \<Rightarrow> string \<Rightarrow> bool"
  ap_sign :: "json \<Rightarrow> string \<Rightarrow> err + string"
  ap_parse :: "time \<Rightarrow> string \<Rightarrow> (string \<Rightarrow> err + string) \<Rightarrow> err + json"
  ap_parse_ip :: "string \<Rightarrow> string option"
  ap_cidr :: "string \<Rightarrow> (string \<Rightarrow> bool) option"
  ap_uuid :: "string \<Rightarrow> string option"

abbreviation unauthorized :: err where
  "unauthorized \<equiv> Sentinel Unauthorized"

definition accessTTL :: time where "accessTTL = 15 * minute"
definition refreshTTL :: time where "refreshTTL = 7 * 24 * 60 * minute"

section \<open>Hashes\<close>

definition hex_digit :: "nat \<Rightarrow> char" where
  "hex_digit n = ''0123456789abcdef'' ! n"

definition hex_encode :: "string \<Rightarrow> string" where
  "hex_encode bs = concat (map (\<lambda>b. [hex_digit (of_char b div 16), hex_digit (of_char b mod 16)]) bs)"

lemma hex_encode_Nil [simp]: "hex_encode bs = [] \<longleftrightarrow> bs = []"
  by (cases bs) (simp_all add: hex_encode_def)

lemma length_hex_encode [simp]: "length (hex_encode bs) = 2 * length bs"
  by (induction bs) (simp_all add: hex_encode_def)

definition hash :: "auth_params \<Rightarrow> string \<Rightarrow> string" where
  "hash P value = hex_encode (ap_sha256 P value)"

section \<open>Users and tokens\<close>

definition new_user_row :: "ctx \<Rightarrow> string \<Rightarrow> string \<Rightarrow> user_row" where
  "new_user_row c username h = \<lparr>ur_id = c_gen c, ur_username = username, ur_password_hash = h,
     ur_refresh_token_hash = None, ur_created_at = c_now c, ur_updated_at = c_now c\<rparr>"

definition EnsureAdmin :: "auth_params \<Rightarrow> ctx \<Rightarrow> string \<Rightarrow> string \<Rightarrow> db \<Rightarrow> err option \<times> db" where
  "EnsureAdmin P c username password d =
     (if username = [] \<or> password = [] then (None, d)
      else case ap_generate P (c_uuid c 0) password of Inl e \<Rightarrow> (Some e, d)
      | Inr h \<Rightarrow> (case c_fault c 0 of Some e \<Rightarrow> (Some e, d)
         | None \<Rightarrow>
            if username \<in> ur_username ` set (t_users d)
            then (None, upd_users (\<lambda>u. ur_username u = username)
                (\<lambda>u. u\<lparr>ur_password_hash := h, ur_updated_at := c_now c\<rparr>) d)
            else if c_gen c \<in> ur_id ` set (t_users d) then (Some unique_violation, d)
            else (None, d\<lparr>t_users := t_users d @ [new_user_row c username h]\<rparr>)))"

text \<open>\<open>Unix()\<close> drops the fraction of a second.\<close>

definition claims_of :: "string \<Rightarrow> string \<Rightarrow> time \<Rightarrow> time \<Rightarrow> json" where
  "claims_of userID username expires now = JObj [(''sub'', JStr userID), (''username'', JStr username),
     (''exp'', JInt (expires div second)), (''iat'', JInt (now div second)), (''iss'', JStr ''wa-gateway'')]"

text \<open>Access token, refresh token and lifetime in seconds; request \<open>n\<close> stores the refresh token's hash.\<close>

definition issue :: "auth_params \<Rightarrow> ctx \<Rightarrow> nat \<Rightarrow> string \<Rightarrow> string \<Rightarrow> db \<Rightarrow> (err + string \<times> string \<times> int) \<times> db" where
  "issue P c n userID username d =
     (case ap_sign P (claims_of userID username (c_now c + accessTTL) (c_now c)) (ap_secret P) of
        Inl e \<Rightarrow> (Inl e, d)
      | Inr access \<Rightarrow>
     (case ap_sign P (claims_of userID username (c_now c + refreshTTL) (c_now c)) (ap_refresh_secret P) of
        Inl e \<Rightarrow> (Inl e, d)
      | Inr refresh \<Rightarrow>
     (case c_fault c n of Some e \<Rightarrow> (Inl e, d)
      | None \<Rightarrow>
     (case ap_uuid P userID of None \<Rightarrow> (Inl invalid_text, d)
      | Some u \<Rightarrow> (Inr (access, refresh, accessTTL div second),
          upd_users (\<lambda>r. ur_id r = u)
            (\<lambda>r. r\<lparr>ur_refresh_token_hash := Some (hash P refresh), ur_updated_at := c_now c\<rparr>) d)))))"

definition Login :: "auth_params \<Rightarrow> ctx \<Rightarrow> string \<Rightarrow> string \<Rightarrow> db \<Rightarrow> (err + string \<times> string \<times> int) \<times> db" where
  "Login P c username password d =
     (case c_fault c 0 of Some e \<Rightarrow> (Inl unauthorized, d)
      | None \<Rightarrow>
     (case find (\<lambda>u. ur_username u = username) (t_users d) of None \<Rightarrow> (Inl unauthorized, d)
      | Some u \<Rightarrow>
         if \<not> ap_compare P (ur_password_hash u) password then (Inl unauthorized, d)
         else issue P c 1 (ur_id u) username d))"

definition parse :: "auth_params \<Rightarrow> time \<Rightarrow> string \<Rightarrow> string \<Rightarrow> err + json" where
  "parse P now token secret =
     (case ap_parse P now token (\<lambda>alg. if alg \<noteq> ''HS256'' then Inl unauthorized else Inr secret) of
        Inl e \<Rightarrow> Inl unauthorized
      | Inr claims \<Rightarrow> if jfield ''iss'' claims = Some (JStr ''wa-gateway'') then Inr claims
          else Inl unauthorized)"

text \<open>\<open>claims[k].(string)\<close>, with the empty string for another type or an absent key.\<close>

definition claim_string :: "string \<Rightarrow> json \<Rightarrow> string" where
  "claim_string k claims = (case jfield k claims of Some (JStr s) \<Rightarrow> s | _ \<Rightarrow> [])"

definition Refresh :: "auth_params \<Rightarrow> ctx \<Rightarrow> string \<Rightarrow> db \<Rightarrow> (err + string \<times> string \<times> int) \<times> db" where
  "Refresh P c token d =
     (case parse P (c_now c) token (ap_refresh_secret P) of Inl e \<Rightarrow> (Inl unauthorized, d)
      | Inr claims \<Rightarrow>
         let userID = claim_string ''sub'' claims; username = claim_string ''username'' claims in
     (case c_fault c 0 of Some e \<Rightarrow> (Inl unauthorized, d)
      | None \<Rightarrow>
     (case ap_uuid P userID of None \<Rightarrow> (Inl unauthorized, d)
      | Some u \<Rightarrow>
     (case find (\<lambda>r. ur_id r = u) (t_users d) of None \<Rightarrow> (Inl unauthorized, d)
      | Some r \<Rightarrow>
         if ur_refresh_token_hash r \<noteq> Some (hash P token) then (Inl unauthorized, d)
         else issue P c 1 userID username d))))"

definition VerifyAccess :: "auth_params \<Rightarrow> time \<Rightarrow> string \<Rightarrow> err + principal" where
  "VerifyAccess P now token =
     (case parse P now token (ap_secret P) of Inl e \<Rightarrow> Inl unauthorized
      | Inr claims \<Rightarrow> Inr \<lparr>p_UserID = claim_string ''sub'' claims,
          p_Username = claim_string ''username'' claims, p_APIKeyID = [], p_SessionID = [], p_IsAPIKey = False\<rparr>)"

definition Logout :: "auth_params \<Rightarrow> ctx \<Rightarrow> string \<Rightarrow> db \<Rightarrow> err option \<times> db" where
  "Logout P c userID d = (case c_fault c 0 of Some e \<Rightarrow> (Some e, d)
     | None \<Rightarrow> (case ap_uuid P userID of None \<Rightarrow> (Some invalid_text, d)
        | Some u \<Rightarrow> (None, upd_users (\<lambda>r. ur_id r = u)
            (\<lambda>r. r\<lparr>ur_refresh_token_hash := None, ur_updated_at := c_now c\<rparr>) d)))"

definition ChangePassword :: "auth_params \<Rightarrow> ctx \<Rightarrow> string \<Rightarrow> string \<Rightarrow> string \<Rightarrow> db \<Rightarrow> err option \<times> db" where
  "ChangePassword P c userID oldPassword newPassword d =
     (case c_fault c 0 of Some e \<Rightarrow> (Some unauthorized, d)
      | None \<Rightarrow>
     (case ap_uuid P userID of None \<Rightarrow> (Some unauthorized, d)
      | Some u \<Rightarrow>
     (case find (\<lambda>r. ur_id r = u) (t_users d) of None \<Rightarrow> (Some unauthorized, d)
      | Some r \<Rightarrow>
         if \<not> ap_compare P (ur_password_hash r) oldPassword then (Some unauthorized, d)
         else
     (case ap_generate P (c_uuid c 0) newPassword of Inl e \<Rightarrow> (Some e, d)
      | Inr h \<Rightarrow>
     (case c_fault c 1 of Some e \<Rightarrow> (Some e, d)
      | None \<Rightarrow> (None, upd_users (\<lambda>r. ur_id r = u)
          (\<lambda>r. r\<lparr>ur_password_hash := h, ur_refresh_token_hash := None, ur_updated_at := c_now c\<rparr>) d))))))"

section \<open>API keys\<close>

text \<open>\<open>make([]byte, n)\<close> filled by \<open>rand.Read\<close>: always \<open>n\<close> bytes.\<close>

definition randomBytes :: "nat \<Rightarrow> string \<Rightarrow> string" where
  "randomBytes n drawn = take n (drawn @ replicate n (CHR 0x00))"

definition GenerateAPIKey :: "ctx \<Rightarrow> string" where
  "GenerateAPIKey c = ''wag_'' @ trim_space (hex_encode (randomBytes 24 (c_uuid c 0)))"

definition api_key_of_row :: "api_key_row \<Rightarrow> api_key" where
  "api_key_of_row r = \<lparr>k_ID = ak_id r, k_Name = ak_name r, k_KeyPrefix = ak_key_prefix r,
     k_SessionID = coalesce (ak_session_id r),
     k_AllowedIPs = (case ak_allowed_ips r of None \<Rightarrow> [] | Some xs \<Rightarrow> xs),
     k_RateLimit = ak_rate_limit r, k_IsActive = ak_is_active r,
     k_CreatedAt = ak_created_at r, k_UpdatedAt = ak_updated_at r\<rparr>"

definition rate_storable :: "int option \<Rightarrow> bool" where
  "rate_storable r \<longleftrightarrow> (case r of None \<Rightarrow> True | Some n \<Rightarrow> int4 n)"

definition new_api_key_row :: "auth_params \<Rightarrow> ctx \<Rightarrow> string \<Rightarrow> string list option \<Rightarrow> int option \<Rightarrow> string \<Rightarrow> bool \<Rightarrow> api_key_row" where
  "new_api_key_row P c name allowedIPs rateLimit sessionID active = \<lparr>ak_id = c_uuid c 1,
     ak_key_hash = hash P (GenerateAPIKey c), ak_key_prefix = take 12 (GenerateAPIKey c), ak_name = name,
     ak_allowed_ips = allowedIPs, ak_rate_limit = rateLimit, ak_session_id = nullif sessionID,
     ak_is_active = active, ak_created_at = c_now c, ak_updated_at = c_now c\<rparr>"

definition CreateAPIKey ::
  "auth_params \<Rightarrow> ctx \<Rightarrow> string \<Rightarrow> string list option \<Rightarrow> int option \<Rightarrow> string \<Rightarrow> bool \<Rightarrow> db \<Rightarrow> (err + api_key \<times> string) \<times> db" where
  "CreateAPIKey P c name allowedIPs rateLimit sessionID active d =
     (let r = new_api_key_row P c name allowedIPs rateLimit sessionID active in
      case c_fault c 0 of Some e \<Rightarrow> (Inl e, d)
      | None \<Rightarrow>
         if \<not> rate_storable rateLimit then (Inl out_of_range, d)
         else if ak_id r \<in> ak_id ` set (t_api_keys d) \<or> ak_key_hash r \<in> ak_key_hash ` set (t_api_keys d)
         then (Inl unique_violation, d)
         else (Inr (api_key_of_row r, GenerateAPIKey c), d\<lparr>t_api_keys := t_api_keys d @ [r]\<rparr>))"

definition ListAPIKeys :: "ctx \<Rightarrow> db \<Rightarrow> err + api_key list" where
  "ListAPIKeys c d = (case c_fault c 0 of Some e \<Rightarrow> Inl e
     | None \<Rightarrow> Inr (map api_key_of_row (sort_key (\<lambda>r. - ak_created_at r) (t_api_keys d))))"

definition DeleteAPIKey :: "auth_params \<Rightarrow> ctx \<Rightarrow> string \<Rightarrow> db \<Rightarrow> err option \<times> db" where
  "DeleteAPIKey P c i d =
     (case c_fault c 0 of Some e \<Rightarrow> (Some e, d)
      | None \<Rightarrow>
     (case ap_uuid P i of None \<Rightarrow> (Some invalid_text, d)
      | Some u \<Rightarrow>
         if u \<notin> ak_id ` set (t_api_keys d) then (Some (Sentinel NoRows), d)
         else (None, delete_api_key_rows u d)))"

definition api_key_update_row ::
  "time \<Rightarrow> string \<Rightarrow> string list option \<Rightarrow> int option \<Rightarrow> string \<Rightarrow> bool option \<Rightarrow> api_key_row \<Rightarrow> api_key_row" where
  "api_key_update_row now name allowedIPs rateLimit sessionID active r = r\<lparr>ak_name := name,
     ak_allowed_ips := allowedIPs, ak_rate_limit := rateLimit, ak_session_id := nullif sessionID,
     ak_is_active := (case active of None \<Rightarrow> ak_is_active r | Some a \<Rightarrow> a), ak_updated_at := now\<rparr>"

definition UpdateAPIKey ::
  "auth_params \<Rightarrow> ctx \<Rightarrow> string \<Rightarrow> string \<Rightarrow> string list option \<Rightarrow> int option \<Rightarrow> string \<Rightarrow> bool option \<Rightarrow> db \<Rightarrow> (err + api_key) \<times> db" where
  "UpdateAPIKey P c i name allowedIPs rateLimit sessionID active d =
     (case c_fault c 0 of Some e \<Rightarrow> (Inl e, d)
      | None \<Rightarrow>
         if \<not> rate_storable rateLimit then (Inl out_of_range, d)
         else
     (case ap_uuid P i of None \<Rightarrow> (Inl invalid_text, d)
      | Some u \<Rightarrow>
     (case find (\<lambda>r. ak_id r = u) (t_api_keys d) of None \<Rightarrow> (Inl (Sentinel NoRows), d)
      | Some r \<Rightarrow>
         let f = api_key_update_row (c_now c) name allowedIPs rateLimit sessionID active
         in (Inr (api_key_of_row (f r)),
             d\<lparr>t_api_keys := update_where (\<lambda>x. ak_id x = u) f (t_api_keys d)\<rparr>))))"

fun rule_allows :: "auth_params \<Rightarrow> string \<Rightarrow> string list \<Rightarrow> bool" where
  "rule_allows P ip [] \<longleftrightarrow> False"
| "rule_allows P ip (rule # rules) \<longleftrightarrow>
     (if ap_parse_ip P (trim_space rule) = Some ip then True
      else if (case ap_cidr P (trim_space rule) of None \<Rightarrow> False | Some mem \<Rightarrow> mem ip) then True
      else rule_allows P ip rules)"

definition ipAllowed :: "auth_params \<Rightarrow> string \<Rightarrow> string list \<Rightarrow> bool" where
  "ipAllowed P value rules = (case ap_parse_ip P value of None \<Rightarrow> False | Some ip \<Rightarrow> rule_allows P ip rules)"

text \<open>The critical section on the map \<open>rate\<close>: whether the call is let through, and the new window.\<close>

definition rate_check :: "time \<Rightarrow> int \<Rightarrow> rate_window option \<Rightarrow> bool \<times> rate_window option" where
  "rate_check now limit w0 =
     (let w = (case w0 of Some x \<Rightarrow> if now - w_started x \<ge> minute then \<lparr>w_started = now, w_count = 0\<rparr> else x
               | None \<Rightarrow> \<lparr>w_started = now, w_count = 0\<rparr>)
      in if w_count w \<ge> limit then (False, w0) else (True, Some (w\<lparr>w_count := w_count w + 1\<rparr>)))"

definition VerifyAPIKey :: "auth_params \<Rightarrow> ctx \<Rightarrow> string \<Rightarrow> string \<Rightarrow> auth_state \<Rightarrow> (err + principal) \<times> auth_state" where
  "VerifyAPIKey P c value remoteIP s =
     (if value = [] then (Inl unauthorized, s)
      else case c_fault c 0 of Some e \<Rightarrow> (Inl unauthorized, s)
      | None \<Rightarrow>
     (case find (\<lambda>r. ak_key_hash r = hash P value \<and> ak_is_active r) (t_api_keys (au_db s)) of
        None \<Rightarrow> (Inl unauthorized, s)
      | Some r \<Rightarrow>
         let p = \<lparr>p_UserID = [], p_Username = [], p_APIKeyID = ak_id r,
               p_SessionID = coalesce (ak_session_id r), p_IsAPIKey = True\<rparr>;
             allowed = (case ak_allowed_ips r of None \<Rightarrow> [] | Some xs \<Rightarrow> xs) in
         if allowed \<noteq> [] \<and> \<not> ipAllowed P remoteIP allowed then (Inl unauthorized, s)
         else
     (case ak_rate_limit r of
        Some limit \<Rightarrow>
          if limit > 0 then
            (case rate_check (c_now c) limit (au_rate s (ak_id r)) of
               (ok, w) \<Rightarrow> if ok then (Inr p, s\<lparr>au_rate := (au_rate s)(ak_id r := w)\<rparr>) else (Inl unauthorized, s))
          else (Inr p, s)
      | None \<Rightarrow> (Inr p, s))))"

section \<open>The schema's constraints are kept\<close>

lemma upd_users_frame [simp]:
  "t_users (upd_users p f d) = update_where p f (t_users d)" "t_messages (upd_users p f d) = t_messages d"
  "t_sessions (upd_users p f d) = t_sessions d" "t_api_keys (upd_users p f d) = t_api_keys d"
  by (simp_all add: upd_users_def)

lemma EnsureAdmin_ok: "db_ok d \<Longrightarrow> db_ok (snd (EnsureAdmin P c u p d))"
  by (auto simp: EnsureAdmin_def db_ok_upd_users split: sum.splits option.splits)
     (simp add: db_ok_defs new_user_row_def)

lemma issue_ok: "db_ok d \<Longrightarrow> db_ok (snd (issue P c n i u d))"
  by (simp add: issue_def db_ok_upd_users split: sum.split option.split)

lemma Login_ok: "db_ok d \<Longrightarrow> db_ok (snd (Login P c u p d))"
  by (simp add: Login_def issue_ok split: option.split)

lemma Refresh_ok: "db_ok d \<Longrightarrow> db_ok (snd (Refresh P c t d))"
  by (simp add: Refresh_def Let_def issue_ok split: option.split sum.split)

lemma Logout_ok: "db_ok d \<Longrightarrow> db_ok (snd (Logout P c i d))"
  by (simp add: Logout_def db_ok_upd_users split: option.split)

lemma ChangePassword_ok: "db_ok d \<Longrightarrow> db_ok (snd (ChangePassword P c i o' n d))"
  by (simp add: ChangePassword_def db_ok_upd_users split: option.split sum.split)

lemma CreateAPIKey_ok: "db_ok d \<Longrightarrow> db_ok (snd (CreateAPIKey P c n a r s b d))"
  by (simp add: CreateAPIKey_def Let_def split: option.split) (auto simp: db_ok_defs)

lemma DeleteAPIKey_ok: "db_ok d \<Longrightarrow> db_ok (snd (DeleteAPIKey P c i d))"
  by (simp add: DeleteAPIKey_def delete_api_key_rows_ok split: option.split)

lemma UpdateAPIKey_ok: "db_ok d \<Longrightarrow> db_ok (snd (UpdateAPIKey P c i n a r s b d))"
  by (simp add: UpdateAPIKey_def Let_def split: option.split)
     (auto simp: db_ok_defs map_update_where image_update_where api_key_update_row_def)

lemma VerifyAPIKey_db [simp]: "au_db (snd (VerifyAPIKey P c v ip s)) = au_db s"
  by (simp add: VerifyAPIKey_def Let_def split_beta split: option.split)

lemmas auth_ok = EnsureAdmin_ok issue_ok Login_ok Refresh_ok Logout_ok ChangePassword_ok
  CreateAPIKey_ok DeleteAPIKey_ok UpdateAPIKey_ok

section \<open>Tokens\<close>

abbreviation user_at :: "string \<Rightarrow> db \<Rightarrow> user_row option" where
  "user_at u d \<equiv> find (\<lambda>r. ur_id r = u) (t_users d)"

lemma user_at_upd:
  assumes "\<And>r. ur_id (f r) = ur_id r"
  shows "find (\<lambda>r. ur_id r = u) (update_where (\<lambda>r. ur_id r = v) f (t_users d))
    = (if u = v then map_option f (user_at u d) else user_at u d)"
  using assms by (cases "user_at u d") (auto simp: find_update_where dest: find_SomeD)

text \<open>
  What the code relies on from the JWT library: a signed token parses to its claims under the signing
  key until it expires and is refused under another key, and the claims of a token do not depend on
  the time at which it is parsed.
\<close>

definition jwt_lawful :: "auth_params \<Rightarrow> bool" where
  "jwt_lawful P \<longleftrightarrow>
     (\<forall>claims key tok now kf x. ap_sign P claims key = Inr tok \<longrightarrow> jfield ''exp'' claims = Some (JInt x) \<longrightarrow>
        now < x * second \<longrightarrow> kf ''HS256'' = Inr key \<longrightarrow> ap_parse P now tok kf = Inr claims)
     \<and> (\<forall>claims key tok now kf key'. ap_sign P claims key = Inr tok \<longrightarrow> kf ''HS256'' = Inr key' \<longrightarrow>
        key' \<noteq> key \<longrightarrow> (\<exists>e. ap_parse P now tok kf = Inl e))
     \<and> (\<forall>now now' tok kf a b. ap_parse P now tok kf = Inr a \<longrightarrow> ap_parse P now' tok kf = Inr b \<longrightarrow> a = b)"

lemma jwt_foreign:
  "jwt_lawful P \<Longrightarrow> ap_sign P claims key = Inr tok \<Longrightarrow> kf ''HS256'' = Inr key' \<Longrightarrow> key' \<noteq> key \<Longrightarrow>
   \<exists>e. ap_parse P now tok kf = Inl e"
  unfolding jwt_lawful_def by blast

lemma parse_signed:
  assumes "jwt_lawful P" "ap_sign P (claims_of i u x n) key = Inr tok" "now < (x div second) * second"
  shows "parse P now tok key = Inr (claims_of i u x n)"
proof -
  have "ap_parse P now tok (\<lambda>alg. if alg \<noteq> ''HS256'' then Inl unauthorized else Inr key) = Inr (claims_of i u x n)"
    using assms by (auto simp: jwt_lawful_def claims_of_def)
  then show ?thesis by (simp add: parse_def claims_of_def)
qed

lemma parse_foreign:
  assumes "jwt_lawful P" "ap_sign P claims key = Inr tok" "key' \<noteq> key"
  shows "parse P now tok key' = Inl unauthorized"
proof -
  obtain e where "ap_parse P now tok (\<lambda>alg. if alg \<noteq> ''HS256'' then Inl unauthorized else Inr key') = Inl e"
    using jwt_foreign [OF assms(1,2), of "\<lambda>alg. if alg \<noteq> ''HS256'' then Inl unauthorized else Inr key'" key'] assms(3)
    by auto
  then show ?thesis by (simp add: parse_def)
qed

lemma parse_stable:
  assumes "jwt_lawful P" "parse P now tok key = Inr a" "parse P now' tok key = Inr b"
  shows "a = b"
  using assms unfolding jwt_lawful_def parse_def
  by (auto split: sum.splits if_splits)

lemma claims_strings [simp]:
  "claim_string ''sub'' (claims_of i u x n) = i" "claim_string ''username'' (claims_of i u x n) = u"
  by (simp_all add: claim_string_def claims_of_def)

lemma issue_Inr:
  assumes "issue P c k i u d = (Inr (a, t, n), d')"
  obtains v where "ap_uuid P i = Some v"
    "ap_sign P (claims_of i u (c_now c + accessTTL) (c_now c)) (ap_secret P) = Inr a"
    "ap_sign P (claims_of i u (c_now c + refreshTTL) (c_now c)) (ap_refresh_secret P) = Inr t"
    "n = 900"
    "d' = upd_users (\<lambda>r. ur_id r = v)
        (\<lambda>r. r\<lparr>ur_refresh_token_hash := Some (hash P t), ur_updated_at := c_now c\<rparr>) d"
  using assms by (auto simp: issue_def accessTTL_def split: sum.splits option.splits)

text \<open>After tokens were issued to a user, the stored hash is that of the new refresh token.\<close>

lemma issue_stored:
  assumes "issue P c k i u d = (Inr (a, t, n), d')" "ap_uuid P i = Some v" "user_at v d = Some r"
  shows "\<exists>r'. user_at v d' = Some r' \<and> ur_refresh_token_hash r' = Some (hash P t)
    \<and> ur_id r' = ur_id r \<and> ur_username r' = ur_username r"
  using assms by (auto elim!: issue_Inr simp: user_at_upd)

lemma Refresh_Inr:
  assumes "Refresh P c tok d = (Inr x, d')"
  obtains claims v r where "parse P (c_now c) tok (ap_refresh_secret P) = Inr claims"
    "ap_uuid P (claim_string ''sub'' claims) = Some v" "user_at v d = Some r"
    "ur_refresh_token_hash r = Some (hash P tok)"
    "issue P c 1 (claim_string ''sub'' claims) (claim_string ''username'' claims) d = (Inr x, d')"
  using assms by (auto simp: Refresh_def Let_def split: sum.splits option.splits if_splits)

lemma Login_Inr:
  assumes "Login P c u p d = (Inr x, d')"
  obtains r where "find (\<lambda>r. ur_username r = u) (t_users d) = Some r" "ap_compare P (ur_password_hash r) p"
    "issue P c 1 (ur_id r) u d = (Inr x, d')"
  using assms by (auto simp: Login_def split: option.splits if_splits)

lemma find_user_id:
  assumes "db_ok d" "find (\<lambda>r. ur_username r = u) (t_users d) = Some r"
  shows "user_at (ur_id r) d = Some r"
  using assms find_key_unique [of ur_id "t_users d" r] by (auto simp: db_ok_defs dest: find_SomeD)

lemma exp_ge: "(n + ttl) div second * second > n + ttl - second"
  using div_mult_mod_eq [of "n + ttl" second] pos_mod_bound [of second "n + ttl"] by linarith

text \<open>The identifiers PostgreSQL prints are canonical: it reads them back as themselves.\<close>

definition users_canonical :: "auth_params \<Rightarrow> db \<Rightarrow> bool" where
  "users_canonical P d \<longleftrightarrow> (\<forall>u \<in> set (t_users d). ap_uuid P (ur_id u) = Some (ur_id u))"

text \<open>
  C19.  Tokens round trip.  The pair a successful login returns works: until a second before the 15
  minutes are over, \<open>VerifyAccess\<close> accepts the access token as that user; until a second before the seven
  days are over, \<open>Refresh\<close> accepts the refresh token in the new state; and when the two secrets differ,
  neither token passes for the other.
\<close>

theorem login_tokens_work:
  assumes "db_ok d" "users_canonical P d" "jwt_lawful P" "Login P c username password d = (Inr (access, refresh, n), d')"
  shows "\<exists>u. u \<in> set (t_users d) \<and> ur_username u = username \<and> ap_compare P (ur_password_hash u) password
    \<and> (\<forall>now \<le> c_now c + accessTTL - second.
         VerifyAccess P now access = Inr \<lparr>p_UserID = ur_id u, p_Username = username, p_APIKeyID = [], p_SessionID = [], p_IsAPIKey = False\<rparr>)
    \<and> (\<forall>c'. no_fault c' \<longrightarrow> c_now c' \<le> c_now c + refreshTTL - second \<longrightarrow>
         Refresh P c' refresh d' = issue P c' 1 (ur_id u) username d')
    \<and> (ap_secret P \<noteq> ap_refresh_secret P \<longrightarrow>
         (\<forall>now. VerifyAccess P now refresh = Inl unauthorized) \<and> (\<forall>c'. Refresh P c' access d' = (Inl unauthorized, d')))"
proof -
  from assms(4) obtain u where u: "find (\<lambda>r. ur_username r = username) (t_users d) = Some u"
    "ap_compare P (ur_password_hash u) password" and iss: "issue P c 1 (ur_id u) username d = (Inr (access, refresh, n), d')"
    by (rule Login_Inr)
  then have u': "u \<in> set (t_users d)" "ur_username u = username" by (auto dest: find_SomeD)
  have v: "ap_uuid P (ur_id u) = Some (ur_id u)" using assms(2) u'(1) by (simp add: users_canonical_def)
  from iss have
    sa: "ap_sign P (claims_of (ur_id u) username (c_now c + accessTTL) (c_now c)) (ap_secret P) = Inr access" and
    sr: "ap_sign P (claims_of (ur_id u) username (c_now c + refreshTTL) (c_now c)) (ap_refresh_secret P) = Inr refresh"
    by (auto elim: issue_Inr)
  let ?p = "\<lparr>p_UserID = ur_id u, p_Username = username, p_APIKeyID = [], p_SessionID = [], p_IsAPIKey = False\<rparr>"
  have acc: "VerifyAccess P now access = Inr ?p" if "now \<le> c_now c + accessTTL - second" for now
    using parse_signed [OF assms(3) sa, of now] exp_ge [of "c_now c" accessTTL] that by (simp add: VerifyAccess_def)
  have ref: "Refresh P c' refresh d' = issue P c' 1 (ur_id u) username d'"
    if "no_fault c'" "c_now c' \<le> c_now c + refreshTTL - second" for c'
  proof -
    obtain r' where "user_at (ur_id u) d' = Some r'" "ur_refresh_token_hash r' = Some (hash P refresh)"
      using issue_stored [OF iss v find_user_id [OF assms(1) u(1)]] by auto
    then show ?thesis
      using parse_signed [OF assms(3) sr, of "c_now c'"] exp_ge [of "c_now c" refreshTTL] that v
      by (simp add: Refresh_def)
  qed
  have sep: "VerifyAccess P now refresh = Inl unauthorized" "Refresh P c' access d' = (Inl unauthorized, d')"
    if "ap_secret P \<noteq> ap_refresh_secret P" for now c'
    using parse_foreign [OF assms(3) sr, of "ap_secret P"] parse_foreign [OF assms(3) sa, of "ap_refresh_secret P"] that
    by (simp_all add: VerifyAccess_def Refresh_def)
  show ?thesis using u u' acc ref sep by (intro exI [of _ u]) blast
qed

lemma Logout_None:
  assumes "Logout P c i d = (None, d')"
  obtains v where "ap_uuid P i = Some v"
    "d' = upd_users (\<lambda>r. ur_id r = v) (\<lambda>r. r\<lparr>ur_refresh_token_hash := None, ur_updated_at := c_now c\<rparr>) d"
  using assms by (auto simp: Logout_def split: option.splits)

lemma ChangePassword_None:
  assumes "ChangePassword P c i old new d = (None, d')"
  obtains v u h where "ap_uuid P i = Some v" "user_at v d = Some u" "ap_compare P (ur_password_hash u) old"
    "ap_generate P (c_uuid c 0) new = Inr h"
    "d' = upd_users (\<lambda>r. ur_id r = v)
      (\<lambda>r. r\<lparr>ur_password_hash := h, ur_refresh_token_hash := None, ur_updated_at := c_now c\<rparr>) d"
  using assms by (auto simp: ChangePassword_def split: option.splits sum.splits if_splits)

lemma Refresh_revoked:
  assumes "parse P (c_now c) tok (ap_refresh_secret P) = Inr claims" "ap_uuid P (claim_string ''sub'' claims) = Some v"
    and "\<And>r. ur_id (f r) = ur_id r" "\<And>r. ur_refresh_token_hash (f r) = None"
  shows "Refresh P c tok (upd_users (\<lambda>r. ur_id r = v) f d) = (Inl unauthorized, upd_users (\<lambda>r. ur_id r = v) f d)"
  using assms by (simp add: Refresh_def Let_def user_at_upd split: option.split)

text \<open>Tokens signed at different seconds differ: they parse to different claims.\<close>

lemma signed_differ:
  assumes "jwt_lawful P" "ap_sign P (claims_of i u x n) key = Inr t" "ap_sign P (claims_of i' u' x' n') key = Inr t'"
    and "n div second \<noteq> n' div second"
  shows "t \<noteq> t'"
proof
  assume "t = t'"
  let ?now = "min ((x div second) * second) ((x' div second) * second) - 1"
  have "parse P ?now t key = Inr (claims_of i u x n)" "parse P ?now t' key = Inr (claims_of i' u' x' n')"
    by (rule parse_signed [OF assms(1,2)], simp) (rule parse_signed [OF assms(1,3)], simp)
  with \<open>t = t'\<close> have "claims_of i u x n = claims_of i' u' x' n'" by simp
  with assms(4) show False by (simp add: claims_of_def)
qed

lemma Refresh_used:
  assumes "jwt_lawful P" "Refresh P c tok d = (Inr (a, t, n), d')" "hash P t \<noteq> hash P tok"
  shows "Refresh P c' tok d' = (Inl unauthorized, d')"
proof -
  from assms(2) obtain claims v row where p: "parse P (c_now c) tok (ap_refresh_secret P) = Inr claims"
    and v: "ap_uuid P (claim_string ''sub'' claims) = Some v" "user_at v d = Some row"
    and iss: "issue P c 1 (claim_string ''sub'' claims) (claim_string ''username'' claims) d = (Inr (a, t, n), d')"
    by (rule Refresh_Inr)
  obtain row' where row': "user_at v d' = Some row'" "ur_refresh_token_hash row' = Some (hash P t)"
    using issue_stored [OF iss v] by blast
  show "Refresh P c' tok d' = (Inl unauthorized, d')"
  proof (cases "parse P (c_now c') tok (ap_refresh_secret P)")
    case (Inr claims')
    then have "claims' = claims" using parse_stable [OF assms(1) _ p] by blast
    then show ?thesis using Inr v row' assms(3) by (simp add: Refresh_def Let_def split: option.split)
  qed (simp add: Refresh_def)
qed

text \<open>
  C21.  Refresh tokens (access tokens are not looked up anywhere and stay valid until they expire).
  Rotation: a refresh token that was issued in one second (\<open>Unix()\<close> of the claims) and is used for a
  successful \<open>Refresh\<close> in another second is refused in the state that \<open>Refresh\<close> leaves, provided SHA-256
  does not collide on the old and the new token.  Revocation: in the state a successful \<open>Logout\<close> or
  \<open>ChangePassword\<close> of a user leaves, no refresh token of that user is accepted.
\<close>

theorem refresh_tokens_revoked:
  assumes "jwt_lawful P"
  shows "(\<forall>c0 k i u d0 a0 tok n0 d1 c d a t n d' c'. issue P c0 k i u d0 = (Inr (a0, tok, n0), d1) \<longrightarrow>
      Refresh P c tok d = (Inr (a, t, n), d') \<longrightarrow> c_now c div second \<noteq> c_now c0 div second \<longrightarrow>
      (hash P t = hash P tok \<longrightarrow> t = tok) \<longrightarrow> Refresh P c' tok d' = (Inl unauthorized, d'))
    \<and> (\<forall>c i old new d d' c' tok claims. Logout P c i d = (None, d') \<or> ChangePassword P c i old new d = (None, d') \<longrightarrow>
      parse P (c_now c') tok (ap_refresh_secret P) = Inr claims \<longrightarrow>
      ap_uuid P (claim_string ''sub'' claims) = ap_uuid P i \<longrightarrow> Refresh P c' tok d' = (Inl unauthorized, d'))"
proof (intro conjI allI impI)
  fix c0 k i u d0 a0 tok n0 d1 d a t n d' and c c' :: ctx
  assume iss: "issue P c0 k i u d0 = (Inr (a0, tok, n0), d1)" and r: "Refresh P c tok d = (Inr (a, t, n), d')"
    and sec: "c_now c div second \<noteq> c_now c0 div second" and h: "hash P t = hash P tok \<longrightarrow> t = tok"
  from r obtain i' u' where "issue P c 1 i' u' d = (Inr (a, t, n), d')" by (rule Refresh_Inr)
  then have "ap_sign P (claims_of i' u' (c_now c + refreshTTL) (c_now c)) (ap_refresh_secret P) = Inr t"
    by (rule issue_Inr)
  moreover have "ap_sign P (claims_of i u (c_now c0 + refreshTTL) (c_now c0)) (ap_refresh_secret P) = Inr tok"
    using iss by (rule issue_Inr)
  ultimately have "t \<noteq> tok" using signed_differ [OF assms] sec by blast
  then show "Refresh P c' tok d' = (Inl unauthorized, d')" using Refresh_used [OF assms r] h by blast
next
  fix c i old new d d' tok claims and c' :: ctx
  assume out: "Logout P c i d = (None, d') \<or> ChangePassword P c i old new d = (None, d')"
    and p: "parse P (c_now c') tok (ap_refresh_secret P) = Inr claims"
    and sub: "ap_uuid P (claim_string ''sub'' claims) = ap_uuid P i"
  note revoked = Refresh_revoked [OF p, of _ _ d, unfolded sub]
  from out show "Refresh P c' tok d' = (Inl unauthorized, d')"
  proof
    assume "Logout P c i d = (None, d')"
    then show ?thesis by (elim Logout_None) (simp only:, rule revoked, simp_all)
  next
    assume "ChangePassword P c i old new d = (None, d')"
    then show ?thesis by (elim ChangePassword_None) (simp only:, rule revoked, simp_all)
  qed
qed

text \<open>
  A refresh in the second in which its token was issued does not rotate it: the new refresh token is the
  old one.
\<close>

lemma refresh_same_second:
  assumes "jwt_lawful P" "issue P c0 k i u d0 = (Inr (a0, tok, n0), d1)" "Refresh P c tok d = (Inr (a, t, n), d')"
    and "c_now c div second = c_now c0 div second"
  shows "t = tok"
proof -
  have sec: "(c_now c + refreshTTL) div second = (c_now c0 + refreshTTL) div second"
    using assms(4) div_mult_self1 [of second "c_now c" 604800] div_mult_self1 [of second "c_now c0" 604800]
    by (simp add: refreshTTL_def)
  have tok: "ap_sign P (claims_of i u (c_now c0 + refreshTTL) (c_now c0)) (ap_refresh_secret P) = Inr tok"
    using assms(2) by (rule issue_Inr)
  from assms(3) obtain claims where p: "parse P (c_now c) tok (ap_refresh_secret P) = Inr claims"
    and iss: "issue P c 1 (claim_string ''sub'' claims) (claim_string ''username'' claims) d = (Inr (a, t, n), d')"
    by (rule Refresh_Inr)
  have "parse P (((c_now c0 + refreshTTL) div second) * second - 1) tok (ap_refresh_secret P)
      = Inr (claims_of i u (c_now c0 + refreshTTL) (c_now c0))"
    by (rule parse_signed [OF assms(1) tok]) simp
  then have "claims = claims_of i u (c_now c0 + refreshTTL) (c_now c0)" using parse_stable [OF assms(1) p] by blast
  then have "ap_sign P (claims_of i u (c_now c + refreshTTL) (c_now c)) (ap_refresh_secret P) = Inr t"
    using iss by (auto elim: issue_Inr)
  moreover have "claims_of i u (c_now c + refreshTTL) (c_now c) = claims_of i u (c_now c0 + refreshTTL) (c_now c0)"
    using sec assms(4) by (simp add: claims_of_def)
  ultimately show ?thesis using tok by simp
qed

text \<open>
  Parameters for the concrete examples: a signer that knows the claims of one user at one moment, and
  texts in the place of hashes.
\<close>

definition sample_claims :: "time \<Rightarrow> json" where
  "sample_claims ttl = claims_of ''u1'' ''admin'' (1000 * second + ttl) (1000 * second)"

definition sample_auth :: auth_params where
  "sample_auth = \<lparr>ap_secret = ''k1'', ap_refresh_secret = ''k2'', ap_sha256 = (\<lambda>x. x),
     ap_generate = (\<lambda>salt p. Inr p), ap_compare = (\<lambda>h p. h = p),
     ap_sign = (\<lambda>cl k. if cl = sample_claims accessTTL \<and> k = ''k1'' then Inr ''A''
       else if cl = sample_claims refreshTTL \<and> k = ''k2'' then Inr ''R'' else Inl unauthorized),
     ap_parse = (\<lambda>now t kf.
       if t = ''A'' \<and> kf ''HS256'' = Inr ''k1'' \<and> now < 1900 * second then Inr (sample_claims accessTTL)
       else if t = ''R'' \<and> kf ''HS256'' = Inr ''k2'' \<and> now < 605800 * second then Inr (sample_claims refreshTTL)
       else Inl unauthorized),
     ap_parse_ip = Some, ap_cidr = (\<lambda>_. None), ap_uuid = Some\<rparr>"

lemma sample_auth_simps [simp]:
  "ap_secret sample_auth = ''k1''" "ap_refresh_secret sample_auth = ''k2''" "ap_sha256 sample_auth x = x" "hash sample_auth x = hex_encode x"
  "ap_generate sample_auth salt p = Inr p" "ap_compare sample_auth h p = (h = p)" "ap_uuid sample_auth x = Some x"
  "ap_parse_ip sample_auth x = Some x" "ap_cidr sample_auth x = None"
  by (simp_all add: sample_auth_def hash_def)

lemma sample_auth_lawful: "jwt_lawful sample_auth"
  unfolding jwt_lawful_def
  by (auto simp: sample_auth_def sample_claims_def claims_of_def accessTTL_def refreshTTL_def split: if_splits)

definition sample_auth_db :: db where
  "sample_auth_db = sample_db\<lparr>t_users := [\<lparr>ur_id = ''u1'', ur_username = ''admin'', ur_password_hash = ''pw'',
     ur_refresh_token_hash = None, ur_created_at = 0, ur_updated_at = 0\<rparr>]\<rparr>"

lemma sample_login:
  "fst (Login sample_auth sample_ctx ''admin'' ''pw'' sample_auth_db) = Inr (''A'', ''R'', 900)"
  by (simp add: Login_def sample_auth_db_def issue_def)
     (simp add: sample_auth_def sample_claims_def accessTTL_def refreshTTL_def claims_of_def)

theorem login_tokens_work_witness:
  "VerifyAccess sample_auth (1010 * second) ''A''
     = Inr \<lparr>p_UserID = ''u1'', p_Username = ''admin'', p_APIKeyID = [], p_SessionID = [], p_IsAPIKey = False\<rparr>"
proof -
  obtain d' where "Login sample_auth sample_ctx ''admin'' ''pw'' sample_auth_db = (Inr (''A'', ''R'', 900), d')"
    using sample_login by (metis prod.collapse)
  moreover have "db_ok sample_auth_db" "users_canonical sample_auth sample_auth_db"
    using sample_db_ok by (simp_all add: sample_auth_db_def db_ok_defs users_canonical_def)
  ultimately show ?thesis
    using login_tokens_work [of sample_auth_db sample_auth sample_ctx "''admin''" "''pw''" "''A''" "''R''" 900 d']
    by (auto simp: sample_auth_lawful accessTTL_def sample_auth_db_def)
qed

theorem refresh_tokens_revoked_witness:
  "\<exists>d'. Logout sample_auth sample_ctx ''u1'' sample_auth_db = (None, d')
    \<and> Refresh sample_auth sample_ctx ''R'' d' = (Inl unauthorized, d')"
proof -
  obtain d' where d': "Logout sample_auth sample_ctx ''u1'' sample_auth_db = (None, d')"
    by (simp add: Logout_def)
  have "parse sample_auth (c_now sample_ctx) ''R'' (ap_refresh_secret sample_auth) = Inr (sample_claims refreshTTL)"
    by (simp add: parse_def sample_auth_def sample_claims_def claims_of_def)
  moreover have "ap_uuid sample_auth (claim_string ''sub'' (sample_claims refreshTTL)) = ap_uuid sample_auth ''u1''"
    by (simp add: sample_claims_def)
  ultimately have "Refresh sample_auth sample_ctx ''R'' d' = (Inl unauthorized, d')"
    using refresh_tokens_revoked [OF sample_auth_lawful, THEN conjunct2] d' by blast
  with d' show ?thesis by blast
qed

section \<open>Passwords\<close>

text \<open>
  \<open>ChangePassword\<close> needs the old password, and then the new one logs in.  What the code relies on
  from bcrypt is only that a hash accepts the password it was generated from.
\<close>

theorem change_password_effective:
  assumes "db_ok d" "\<And>salt p h. ap_generate P salt p = Inr h \<Longrightarrow> ap_compare P h p"
    and "ChangePassword P c i old new d = (None, d')"
  shows "\<exists>u v. ap_uuid P i = Some v \<and> user_at v d = Some u \<and> ap_compare P (ur_password_hash u) old
    \<and> (\<forall>c'. no_fault c' \<longrightarrow> Login P c' (ur_username u) new d' = issue P c' 1 (ur_id u) (ur_username u) d')"
proof -
  from assms(3) obtain v u h where v: "ap_uuid P i = Some v" "user_at v d = Some u" "ap_compare P (ur_password_hash u) old"
    and h: "ap_generate P (c_uuid c 0) new = Inr h"
    and d': "d' = upd_users (\<lambda>r. ur_id r = v)
          (\<lambda>r. r\<lparr>ur_password_hash := h, ur_refresh_token_hash := None, ur_updated_at := c_now c\<rparr>) d"
    by (rule ChangePassword_None)
  have u: "u \<in> set (t_users d)" "ur_id u = v" using v(2) by (auto dest: find_SomeD)
  have "find (\<lambda>r. ur_username r = ur_username u) (t_users d) = Some u"
    using assms(1) u(1) by (intro find_key_unique) (simp_all add: db_ok_defs)
  then have "find (\<lambda>r. ur_username r = ur_username u) (t_users d')
      = Some (u\<lparr>ur_password_hash := h, ur_refresh_token_hash := None, ur_updated_at := c_now c\<rparr>)"
    using u by (simp add: d' find_update_where)
  then have "\<forall>c'. no_fault c' \<longrightarrow> Login P c' (ur_username u) new d' = issue P c' 1 (ur_id u) (ur_username u) d'"
    using assms(2) [OF h] by (simp add: Login_def)
  with v show ?thesis by blast
qed

theorem change_password_effective_witness:
  "\<exists>d'. ChangePassword sample_auth sample_ctx ''u1'' ''pw'' ''new'' sample_auth_db = (None, d')
    \<and> Login sample_auth sample_ctx ''admin'' ''new'' d' = issue sample_auth sample_ctx 1 ''u1'' ''admin'' d'"
proof -
  obtain d' where d': "ChangePassword sample_auth sample_ctx ''u1'' ''pw'' ''new'' sample_auth_db = (None, d')"
    by (simp add: ChangePassword_def sample_auth_db_def)
  have "db_ok sample_auth_db" using sample_db_ok by (simp add: sample_auth_db_def db_ok_defs)
  with d' show ?thesis using change_password_effective [of sample_auth_db sample_auth sample_ctx "''u1''" "''pw''" "''new''" d']
    by (auto simp: sample_auth_db_def)
qed

section \<open>API keys\<close>

lemma rule_allows_iff: "rule_allows P ip rules \<longleftrightarrow>
    (\<exists>rule \<in> set rules. ap_parse_ip P (trim_space rule) = Some ip
       \<or> (\<exists>mem. ap_cidr P (trim_space rule) = Some mem \<and> mem ip))"
  by (induction rules) (auto split: option.splits)

text \<open>The row behind an accepted key.\<close>

lemma VerifyAPIKey_Inr:
  assumes "VerifyAPIKey P c value ip s = (Inr p, s')"
  obtains r where "value \<noteq> []"
    "find (\<lambda>r. ak_key_hash r = hash P value \<and> ak_is_active r) (t_api_keys (au_db s)) = Some r"
    "p = \<lparr>p_UserID = [], p_Username = [], p_APIKeyID = ak_id r, p_SessionID = coalesce (ak_session_id r), p_IsAPIKey = True\<rparr>"
    "case ak_allowed_ips r of None \<Rightarrow> True | Some xs \<Rightarrow> xs = [] \<or> ipAllowed P ip xs"
    "\<And>l. ak_rate_limit r = Some l \<Longrightarrow> l > 0 \<Longrightarrow> \<exists>w. rate_check (c_now c) l (au_rate s (ak_id r)) = (True, w)
       \<and> s' = s\<lparr>au_rate := (au_rate s)(ak_id r := w)\<rparr>"
proof -
  from assms obtain r where r: "value \<noteq> []" "c_fault c 0 = None"
      "find (\<lambda>r. ak_key_hash r = hash P value \<and> ak_is_active r) (t_api_keys (au_db s)) = Some r"
    by (auto simp: VerifyAPIKey_def split: if_splits option.splits)
  let ?p = "\<lparr>p_UserID = [], p_Username = [], p_APIKeyID = ak_id r, p_SessionID = coalesce (ak_session_id r), p_IsAPIKey = True\<rparr>"
  note v = assms [unfolded VerifyAPIKey_def r(2), simplified r(1,3), simplified]
  show thesis
  proof (rule that [OF r(1,3)])
    show "p = ?p" using v by (auto simp: Let_def split_beta split: option.splits if_splits)
    show "case ak_allowed_ips r of None \<Rightarrow> True | Some xs \<Rightarrow> xs = [] \<or> ipAllowed P ip xs"
      using v by (auto simp: Let_def split: option.splits if_splits)
    fix l
    assume "ak_rate_limit r = Some l" "l > 0"
    with v show "\<exists>w. rate_check (c_now c) l (au_rate s (ak_id r)) = (True, w)
       \<and> s' = s\<lparr>au_rate := (au_rate s)(ak_id r := w)\<rparr>"
      by (auto simp: Let_def split: prod.splits if_splits)
  qed
qed

lemma rate_check_True:
  assumes "rate_check now l w0 = (True, w)"
  shows "\<exists>x. w = Some x \<and> w_count x \<le> l \<and>
    (case w0 of None \<Rightarrow> w_started x = now \<and> w_count x = 1
     | Some y \<Rightarrow> (if now - w_started y \<ge> minute then w_started x = now \<and> w_count x = 1
         else w_started x = w_started y \<and> w_count x = w_count y + 1))"
  using assms by (auto simp: rate_check_def Let_def split: option.splits if_splits)

text \<open>A call that is refused, or accepted under another key, leaves the window of the key alone.\<close>

lemma VerifyAPIKey_other:
  assumes "VerifyAPIKey P c value ip s = (r, s')" "\<And>p. r = Inr p \<Longrightarrow> p_APIKeyID p \<noteq> i"
  shows "au_rate s' i = au_rate s i"
  using assms by (auto simp: VerifyAPIKey_def Let_def split_beta split: option.splits if_splits)

text \<open>The number of calls of a sequence that are accepted under the key \<open>i\<close>.\<close>

fun accepted :: "auth_params \<Rightarrow> string \<Rightarrow> (ctx \<times> string \<times> string) list \<Rightarrow> auth_state \<Rightarrow> int" where
  "accepted P i [] s = 0"
| "accepted P i ((c, value, ip) # calls) s =
     (case VerifyAPIKey P c value ip s of (r, s') \<Rightarrow>
       (case r of Inr p \<Rightarrow> if p_APIKeyID p = i then 1 else 0 | Inl e \<Rightarrow> 0) + accepted P i calls s')"

text \<open>
  Stored windows have counted a call.  This holds of the empty map of a new service and is kept by every
  call.
\<close>

definition rate_ok :: "auth_state \<Rightarrow> bool" where
  "rate_ok s \<longleftrightarrow> (\<forall>i w. au_rate s i = Some w \<longrightarrow> 1 \<le> w_count w)"

lemma VerifyAPIKey_window:
  "au_rate (snd (VerifyAPIKey P c val ip s)) j = au_rate s j
   \<or> (\<exists>l. rate_check (c_now c) l (au_rate s j) = (True, au_rate (snd (VerifyAPIKey P c val ip s)) j))"
  by (auto simp: VerifyAPIKey_def Let_def split: option.split prod.split)

lemma VerifyAPIKey_rate_ok: "rate_ok s \<Longrightarrow> rate_ok (snd (VerifyAPIKey P c val ip s))"
  unfolding rate_ok_def
proof (intro allI impI)
  fix j w
  assume ok: "\<forall>i w. au_rate s i = Some w \<longrightarrow> 1 \<le> w_count w" and w: "au_rate (snd (VerifyAPIKey P c val ip s)) j = Some w"
  from VerifyAPIKey_window [of P c val ip s j, unfolded w] show "1 \<le> w_count w"
  proof
    assume "\<exists>l. rate_check (c_now c) l (au_rate s j) = (True, Some w)"
    then obtain l where "rate_check (c_now c) l (au_rate s j) = (True, Some w)" by blast
    moreover have "1 \<le> w_count y" if "au_rate s j = Some y" for y using ok that by blast
    ultimately show ?thesis using rate_check_True by (cases "au_rate s j") (fastforce split: if_splits)+
  qed (use ok in simp)
qed

abbreviation times_within :: "(ctx \<times> string \<times> string) list \<Rightarrow> bool" where
  "times_within calls \<equiv> \<forall>x \<in> set calls. \<forall>y \<in> set calls. c_now (fst y) - c_now (fst x) < minute"

abbreviation key_limit :: "auth_state \<Rightarrow> string \<Rightarrow> int \<Rightarrow> bool" where
  "key_limit s i l \<equiv> \<forall>r \<in> set (t_api_keys (au_db s)). ak_id r = i \<longrightarrow> ak_rate_limit r = Some l"

text \<open>One call: whether it is accepted under the key, and the key's window afterwards.\<close>

lemma accepted_Cons:
  assumes "key_limit s i l" "0 < l"
  obtains s' where "au_db s' = au_db s" "au_rate s' i = au_rate s i"
      "accepted P i ((c, val, ip) # calls) s = accepted P i calls s'"
  | s' w where "au_db s' = au_db s" "au_rate s' i = Some w" "rate_check (c_now c) l (au_rate s i) = (True, Some w)"
      "accepted P i ((c, val, ip) # calls) s = 1 + accepted P i calls s'"
proof -
  obtain r s' where v: "VerifyAPIKey P c val ip s = (r, s')" by fastforce
  have db: "au_db s' = au_db s" using VerifyAPIKey_db [of P c val ip s] v by simp
  show thesis
  proof (cases "\<exists>p. r = Inr p \<and> p_APIKeyID p = i")
    case False
    then have "au_rate s' i = au_rate s i" using VerifyAPIKey_other [OF v] by blast
    with False v db that(1) show ?thesis by (auto split: sum.splits)
  next
    case True
    then obtain p where p: "r = Inr p" "p_APIKeyID p = i" by blast
    from v [unfolded p(1)] obtain row where row: "row \<in> set (t_api_keys (au_db s))" "ak_id row = i"
      and rc: "\<And>l. ak_rate_limit row = Some l \<Longrightarrow> l > 0 \<Longrightarrow> \<exists>w. rate_check (c_now c) l (au_rate s (ak_id row)) = (True, w)
       \<and> s' = s\<lparr>au_rate := (au_rate s)(ak_id row := w)\<rparr>"
      using p(2) by (elim VerifyAPIKey_Inr) (auto dest: find_SomeD)
    obtain w where w: "rate_check (c_now c) l (au_rate s i) = (True, w)" "au_rate s' i = w"
      using rc [OF assms(1) [rule_format, OF row] assms(2)] row(2) by auto
    then obtain x where "w = Some x" using rate_check_True by blast
    with w p v db that(2) [of s' x] show ?thesis by simp
  qed
qed

text \<open>While the window is open for all calls, they share its count.\<close>

lemma accepted_in_window:
  assumes "key_limit s i l" "0 < l" "times_within calls" "au_rate s i = Some w" "w_count w \<le> l"
    and "\<forall>x \<in> set calls. c_now (fst x) - w_started w < minute"
  shows "accepted P i calls s + w_count w \<le> l"
  using assms(1,3-)
proof (induction calls arbitrary: s w)
  case (Cons x calls)
  obtain c val ip where x: "x = (c, val, ip)" by (cases x) auto
  show ?case unfolding x
  proof (rule accepted_Cons [OF Cons.prems(1) assms(2), of P c val ip calls])
    fix s' assume "au_db s' = au_db s" "au_rate s' i = au_rate s i"
      "accepted P i ((c, val, ip) # calls) s = accepted P i calls s'"
    then show "accepted P i ((c, val, ip) # calls) s + w_count w \<le> l"
      using Cons.IH [of s' w] Cons.prems by auto
  next
    fix s' w' assume s': "au_db s' = au_db s" "au_rate s' i = Some w'"
      "rate_check (c_now c) l (au_rate s i) = (True, Some w')"
      "accepted P i ((c, val, ip) # calls) s = 1 + accepted P i calls s'"
    have "w_started w' = w_started w" "w_count w' = w_count w + 1" "w_count w' \<le> l"
      using rate_check_True [OF s'(3)] Cons.prems(3,5) x by auto
    then show "accepted P i ((c, val, ip) # calls) s + w_count w \<le> l"
      using Cons.IH [of s' w'] Cons.prems s' by auto
  qed
qed simp

text \<open>A window that the first accepted call opens is open for all of them.\<close>

lemma accepted_opened:
  assumes "key_limit s i l" "0 < l" "times_within ((c, val, ip) # calls)" "au_rate s i = Some w"
    and "w_started w = c_now c" "w_count w = 1"
  shows "1 + accepted P i calls s \<le> l"
  using accepted_in_window [OF assms(1,2), of calls w P] assms(2-) by fastforce

lemma accepted_no_window:
  assumes "key_limit s i l" "0 < l" "times_within calls"
    and "\<forall>w. au_rate s i = Some w \<longrightarrow> (\<forall>x \<in> set calls. w_started w + minute \<le> c_now (fst x))"
  shows "accepted P i calls s \<le> l"
  using assms(1,3-)
proof (induction calls arbitrary: s)
  case (Cons x calls)
  obtain c val ip where x: "x = (c, val, ip)" by (cases x) auto
  show ?case unfolding x
  proof (rule accepted_Cons [OF Cons.prems(1) assms(2), of P c val ip calls])
    fix s' w' assume s': "au_db s' = au_db s" "au_rate s' i = Some w'"
      "rate_check (c_now c) l (au_rate s i) = (True, Some w')"
      "accepted P i ((c, val, ip) # calls) s = 1 + accepted P i calls s'"
    have "w_started w' = c_now c \<and> w_count w' = 1"
      using rate_check_True [OF s'(3)] Cons.prems(3) x by (cases "au_rate s i") (auto simp: algebra_simps)
    then show "accepted P i ((c, val, ip) # calls) s \<le> l"
      using accepted_opened [of s' i l c val ip calls w' P] s' Cons.prems(1,2) assms(2) x by auto
  qed (use Cons x in auto)
qed (use assms(2) in simp)

lemma accepted_twice:
  assumes "key_limit s i l" "0 < l" "times_within calls" "au_rate s i = Some w" "0 \<le> w_count w"
  shows "accepted P i calls s \<le> 2 * l - min (w_count w) l"
  using assms(1,3-)
proof (induction calls arbitrary: s w)
  case (Cons x calls)
  obtain c val ip where x: "x = (c, val, ip)" by (cases x) auto
  show ?case unfolding x
  proof (rule accepted_Cons [OF Cons.prems(1) assms(2), of P c val ip calls])
    fix s' assume "au_db s' = au_db s" "au_rate s' i = au_rate s i"
      "accepted P i ((c, val, ip) # calls) s = accepted P i calls s'"
    then show "accepted P i ((c, val, ip) # calls) s \<le> 2 * l - min (w_count w) l"
      using Cons.IH [of s' w] Cons.prems by auto
  next
    fix s' w' assume s': "au_db s' = au_db s" "au_rate s' i = Some w'"
      "rate_check (c_now c) l (au_rate s i) = (True, Some w')"
      "accepted P i ((c, val, ip) # calls) s = 1 + accepted P i calls s'"
    show "accepted P i ((c, val, ip) # calls) s \<le> 2 * l - min (w_count w) l"
    proof (cases "c_now c - w_started w \<ge> minute")
      case True
      then have "w_started w' = c_now c" "w_count w' = 1" using rate_check_True [OF s'(3)] Cons.prems(3) by auto
      then have "1 + accepted P i calls s' \<le> l"
        using accepted_opened [of s' i l c val ip calls w' P] s' Cons.prems(1,2) assms(2) x by auto
      then show ?thesis using s'(4) by simp
    next
      case False
      then have "w_count w' = w_count w + 1" "w_count w' \<le> l" using rate_check_True [OF s'(3)] Cons.prems(3) by auto
      then show ?thesis using Cons.IH [of s' w'] Cons.prems s' by auto
    qed
  qed
qed (use assms(2) in auto)

text \<open>
  C24.  The rate limit is a fixed window.  For a key with the limit \<open>l > 0\<close>, any sequence of requests, under
  any keys and from any address, whose times lie within one minute: when no window of the key is open at any
  of them, or the open one stays open for all of them, at most \<open>l\<close> are let through under this key; in
  general, when a window expires in between, at most \<open>2 * l - 1\<close>.
\<close>

theorem api_key_rate_limit:
  assumes "\<forall>r \<in> set (t_api_keys (au_db s)). ak_id r = i \<longrightarrow> ak_rate_limit r = Some l" "0 < l" "rate_ok s"
    and "\<forall>x \<in> set calls. \<forall>y \<in> set calls. c_now (fst y) - c_now (fst x) < minute"
  shows "accepted P i calls s \<le> 2 * l - 1
    \<and> ((\<forall>w. au_rate s i = Some w \<longrightarrow> (\<forall>x \<in> set calls. w_started w + minute \<le> c_now (fst x))
          \<or> w_count w \<le> l \<and> (\<forall>x \<in> set calls. c_now (fst x) < w_started w + minute)) \<longrightarrow>
       accepted P i calls s \<le> l)"
proof (cases "au_rate s i")
  case None
  then show ?thesis using accepted_no_window [OF assms(1,2,4), of P] assms(2) by auto
next
  case (Some w)
  then have w: "1 \<le> w_count w" using assms(3) by (simp add: rate_ok_def)
  have "accepted P i calls s \<le> 2 * l - 1"
    using accepted_twice [OF assms(1,2,4) Some, of P] w assms(2) by auto
  moreover have "accepted P i calls s \<le> l" if "\<forall>x \<in> set calls. w_started w + minute \<le> c_now (fst x)"
    using accepted_no_window [OF assms(1,2,4), of P] Some that by auto
  moreover have "accepted P i calls s \<le> l" if "w_count w \<le> l" "\<forall>x \<in> set calls. c_now (fst x) < w_started w + minute"
    using accepted_in_window [OF assms(1,2,4) Some that(1), of P] that(2) w by (auto simp: algebra_simps)
  ultimately show ?thesis using Some by auto
qed

definition sample_key_row :: api_key_row where
  "sample_key_row = \<lparr>ak_id = ''k1'', ak_key_hash = hex_encode ''secret'', ak_key_prefix = ''secret'', ak_name = ''n'',
     ak_allowed_ips = None, ak_rate_limit = Some 2, ak_session_id = Some ''main'', ak_is_active = True,
     ak_created_at = 0, ak_updated_at = 0\<rparr>"

definition sample_auth_state :: auth_state where
  "sample_auth_state = \<lparr>au_db = sample_db\<lparr>t_api_keys := [sample_key_row]\<rparr>, au_rate = (\<lambda>_. None)\<rparr>"

theorem api_key_rate_limit_witness:
  "accepted sample_auth ''k1'' (replicate 3 (sample_ctx, ''secret'', ''10.0.0.1'')) sample_auth_state \<le> 2"
  using api_key_rate_limit [of sample_auth_state "''k1''" 2 "replicate 3 (sample_ctx, ''secret'', ''10.0.0.1'')" sample_auth]
  by (simp add: sample_auth_state_def sample_key_row_def rate_ok_def)

text \<open>
  The bound \<open>2 * l - 1\<close> is met: with a limit of two and a window opened at 0 seconds, calls at 59, 60 and
  61 seconds all pass.
\<close>

lemma rate_limit_twice:
  "accepted sample_auth ''k1''
     (map (\<lambda>t. (sample_ctx\<lparr>c_now := t * second\<rparr>, ''secret'', ''10.0.0.1'')) [59, 60, 61])
     (sample_auth_state\<lparr>au_rate := [''k1'' \<mapsto> \<lparr>w_started = 0, w_count = 1\<rparr>]\<rparr>) = 3"
  by (simp add: VerifyAPIKey_def sample_auth_state_def sample_key_row_def rate_check_def)

text \<open>
  C22.  What an accepted key proves: it is the secret of an active key, the caller's address is one the
  key allows, and the principal carries that key's identifier and session scope.
\<close>

theorem verify_api_key_sound:
  assumes "VerifyAPIKey P c value ip s = (Inr p, s')"
  shows "\<exists>r \<in> set (t_api_keys (au_db s)). ak_key_hash r = hash P value \<and> ak_is_active r
    \<and> p_IsAPIKey p \<and> p_APIKeyID p = ak_id r \<and> p_SessionID p = coalesce (ak_session_id r) \<and> p_UserID p = []
    \<and> (\<forall>rules. ak_allowed_ips r = Some rules \<longrightarrow> rules \<noteq> [] \<longrightarrow>
        (\<exists>a rule. ap_parse_ip P ip = Some a \<and> rule \<in> set rules
          \<and> (ap_parse_ip P (trim_space rule) = Some a \<or> (\<exists>mem. ap_cidr P (trim_space rule) = Some mem \<and> mem a))))"
proof -
  from assms obtain r where r: "find (\<lambda>r. ak_key_hash r = hash P value \<and> ak_is_active r) (t_api_keys (au_db s)) = Some r"
    and p: "p = \<lparr>p_UserID = [], p_Username = [], p_APIKeyID = ak_id r, p_SessionID = coalesce (ak_session_id r), p_IsAPIKey = True\<rparr>"
    and ips: "case ak_allowed_ips r of None \<Rightarrow> True | Some xs \<Rightarrow> xs = [] \<or> ipAllowed P ip xs"
    by (rule VerifyAPIKey_Inr)
  from ips have "\<forall>rules. ak_allowed_ips r = Some rules \<longrightarrow> rules \<noteq> [] \<longrightarrow>
        (\<exists>a rule. ap_parse_ip P ip = Some a \<and> rule \<in> set rules
          \<and> (ap_parse_ip P (trim_space rule) = Some a \<or> (\<exists>mem. ap_cidr P (trim_space rule) = Some mem \<and> mem a)))"
    by (auto simp: ipAllowed_def rule_allows_iff split: option.splits)
  with r p show ?thesis by (auto dest!: find_SomeD)
qed

theorem verify_api_key_sound_witness:
  "\<exists>p s' r. VerifyAPIKey sample_auth sample_ctx ''secret'' ''10.0.0.1'' sample_auth_state = (Inr p, s')
    \<and> r \<in> set (t_api_keys (au_db sample_auth_state)) \<and> p_SessionID p = coalesce (ak_session_id r)"
proof -
  obtain p s' where "VerifyAPIKey sample_auth sample_ctx ''secret'' ''10.0.0.1'' sample_auth_state = (Inr p, s')"
    by (simp add: VerifyAPIKey_def sample_auth_state_def sample_key_row_def rate_check_def)
  then show ?thesis using verify_api_key_sound by blast
qed

text \<open>
  C36.  The life of a key.  The secret \<open>CreateAPIKey\<close> returns is accepted as that key, with the session it
  was created for, by the next call from an allowed address; it is refused once the key was
  deactivated by an update or deleted.
\<close>

theorem api_key_lifecycle:
  assumes "db_ok d" "CreateAPIKey P c name ips limit session True d = (Inr (k, key), d')"
    and "ap_uuid P (k_ID k) = Some (k_ID k)"
  shows "(\<forall>c' ip s. no_fault c' \<longrightarrow> au_db s = d' \<longrightarrow> au_rate s (k_ID k) = None \<longrightarrow>
       (ips = None \<or> ips = Some [] \<or> ipAllowed P ip (the ips)) \<longrightarrow>
       fst (VerifyAPIKey P c' key ip s) = Inr \<lparr>p_UserID = [], p_Username = [], p_APIKeyID = k_ID k, p_SessionID = session, p_IsAPIKey = True\<rparr>)
    \<and> (\<forall>c1 c2 ip s n i l t d2. (DeleteAPIKey P c1 (k_ID k) d' = (None, d2)
         \<or> UpdateAPIKey P c1 (k_ID k) n i l t (Some False) d' = (Inr k', d2)) \<longrightarrow>
       au_db s = d2 \<longrightarrow> VerifyAPIKey P c2 key ip s = (Inl unauthorized, s))"
proof -
  let ?r = "new_api_key_row P c name ips limit session True"
  from assms(2) have d': "d' = d\<lparr>t_api_keys := t_api_keys d @ [?r]\<rparr>" and k: "k = api_key_of_row ?r" "key = GenerateAPIKey c"
    and fresh: "ak_id ?r \<notin> ak_id ` set (t_api_keys d)" "ak_key_hash ?r \<notin> ak_key_hash ` set (t_api_keys d)"
    by (auto simp: CreateAPIKey_def Let_def split: option.splits if_splits)
  have id: "k_ID k = ak_id ?r" using k by (simp add: api_key_of_row_def)
  have h: "ak_key_hash ?r = hash P key" "ak_is_active ?r" using k by (simp_all add: new_api_key_row_def)
  have key: "key \<noteq> []" by (simp add: k GenerateAPIKey_def)
  have old: "find (\<lambda>r. ak_key_hash r = hash P key \<and> ak_is_active r) (t_api_keys d) = None"
    using fresh(2) h(1) by (auto simp: find_None_iff image_iff)
  have new: "find (\<lambda>r. ak_key_hash r = hash P key \<and> ak_is_active r) (t_api_keys d') = Some ?r"
    using old h by (simp add: d' find_append)
  show ?thesis
  proof (intro conjI allI impI)
    fix c' ip and s :: auth_state
    assume "no_fault c'" "au_db s = d'" "au_rate s (k_ID k) = None" "ips = None \<or> ips = Some [] \<or> ipAllowed P ip (the ips)"
    moreover from this(4) have "(case ips of None \<Rightarrow> [] | Some xs \<Rightarrow> xs) = [] \<or>
        ipAllowed P ip (case ips of None \<Rightarrow> [] | Some xs \<Rightarrow> xs)" by (cases ips) auto
    moreover have "ak_allowed_ips ?r = ips" "ak_rate_limit ?r = limit" "coalesce (ak_session_id ?r) = session"
      by (simp_all add: new_api_key_row_def)
    ultimately show "fst (VerifyAPIKey P c' key ip s) = Inr \<lparr>p_UserID = [], p_Username = [], p_APIKeyID = k_ID k, p_SessionID = session, p_IsAPIKey = True\<rparr>"
      using key new id by (cases limit) (simp_all add: VerifyAPIKey_def Let_def rate_check_def)
  next
    fix c1 c2 :: ctx and s :: auth_state and ip n i l t d2
    assume gone: "DeleteAPIKey P c1 (k_ID k) d' = (None, d2)
        \<or> UpdateAPIKey P c1 (k_ID k) n i l t (Some False) d' = (Inr k', d2)" and s: "au_db s = d2"
    have other: "r \<in> set (t_api_keys d') \<Longrightarrow> ak_key_hash r = hash P key \<Longrightarrow> ak_id r = k_ID k" for r
      using fresh(2) h(1) id by (auto simp: d' image_iff)
    have "find (\<lambda>r. ak_key_hash r = hash P key \<and> ak_is_active r) (t_api_keys d2) = None"
      using gone other assms(3)
      by (auto simp: DeleteAPIKey_def UpdateAPIKey_def Let_def delete_api_key_rows_def find_None_iff set_update_where
          api_key_update_row_def split: option.splits if_splits)
    then show "VerifyAPIKey P c2 key ip s = (Inl unauthorized, s)"
      using s key by (simp add: VerifyAPIKey_def split: option.split)
  qed
qed

theorem api_key_lifecycle_witness:
  "\<exists>k key d' d2 s. CreateAPIKey sample_auth sample_ctx ''billing'' None (Some 10) ''main'' True sample_db = (Inr (k, key), d')
    \<and> DeleteAPIKey sample_auth sample_ctx (k_ID k) d' = (None, d2) \<and> au_db s = d2
    \<and> VerifyAPIKey sample_auth sample_ctx key ''10.0.0.1'' s = (Inl unauthorized, s)"
proof -
  obtain k key d' where k: "CreateAPIKey sample_auth sample_ctx ''billing'' None (Some 10) ''main'' True sample_db = (Inr (k, key), d')"
    by (simp add: CreateAPIKey_def Let_def rate_storable_def int4_def)
  then have "k_ID k \<in> ak_id ` set (t_api_keys d')"
    by (auto simp: CreateAPIKey_def Let_def api_key_of_row_def split: if_splits)
  then obtain d2 where d2: "DeleteAPIKey sample_auth sample_ctx (k_ID k) d' = (None, d2)"
    by (simp add: DeleteAPIKey_def)
  have "VerifyAPIKey sample_auth sample_ctx key ''10.0.0.1'' \<lparr>au_db = d2, au_rate = (\<lambda>_. None)\<rparr>
      = (Inl unauthorized, \<lparr>au_db = d2, au_rate = (\<lambda>_. None)\<rparr>)"
    using api_key_lifecycle [OF sample_db_ok k] d2 by simp
  with k d2 show ?thesis by (intro exI [of _ k] exI [of _ key] exI conjI) (auto intro: exI)
qed

end
