(* ===== verification/Memory_Store.thy ===== *)
theory Memory_Store
  imports Store_Iface
begin

text \<open>
  \<open>store.Memory\<close>: two Go maps behind a mutex.  A map is an association list with distinct keys;
  where the code iterates over one, the order is the one the environment chooses.  Each method runs
  under the lock, so it is one atomic step.  The lemmas show that the store satisfies the
  interface's laws and that a put is found by the next get.
\<close>

record memory =
  mem_sessions :: "(string \<times> session) list"
  mem_messages :: "(string \<times> message) list"

definition NewMemory :: memory where
  "NewMemory = \<lparr>mem_sessions = [], mem_messages = []\<rparr>"

text \<open>Iteration over a map: every key once, in the order Go picks.\<close>

definition iterate :: "ctx \<Rightarrow> (string \<times> 'v) list \<Rightarrow> (string \<times> 'v) list" where
  "iterate c m = map (\<lambda>k. (k, the (map_of m k))) (c_order c (map fst m))"

definition mem_ListSessions :: "ctx \<Rightarrow> memory \<Rightarrow> err + session list" where
  "mem_ListSessions c m = Inr (map (\<lambda>(_, item). item\<lparr>s_ID := s_SessionID item,
     s_MessageCount := int (length (filter (\<lambda>(_, msg). m_SessionID msg = s_SessionID item)
       (iterate c (mem_messages m))))\<rparr>) (iterate c (mem_sessions m)))"

definition mem_GetSession :: "ctx \<Rightarrow> string \<Rightarrow> memory \<Rightarrow> err + session option" where
  "mem_GetSession c i m =
     Inr (map_option (\<lambda>v. v\<lparr>s_ID := s_SessionID v\<rparr>) (map_of (mem_sessions m) i))"

definition mem_PutSession :: "ctx \<Rightarrow> session \<Rightarrow> memory \<Rightarrow> err option \<times> memory" where
  "mem_PutSession c v m = (None, m\<lparr>mem_sessions := AList.update (s_SessionID v) v (mem_sessions m)\<rparr>)"

definition mem_PutMessage :: "ctx \<Rightarrow> message \<Rightarrow> memory \<Rightarrow> err option \<times> memory" where
  "mem_PutMessage c v m = (None, m\<lparr>mem_messages := AList.update (m_ID v) v (mem_messages m)\<rparr>)"

definition mem_ListMessages :: "ctx \<Rightarrow> memory \<Rightarrow> err + message list" where
  "mem_ListMessages c m = Inr (map snd (iterate c (mem_messages m)))"

definition mem_UpdateSession ::
  "ctx \<Rightarrow> string \<Rightarrow> string \<Rightarrow> string \<Rightarrow> string \<Rightarrow> string \<Rightarrow> memory \<Rightarrow> err option \<times> memory" where
  "mem_UpdateSession c i status qrCode pairingCode phone m =
     (case map_of (mem_sessions m) i of
        None \<Rightarrow> (Some (Sentinel NotFound), m)
      | Some v \<Rightarrow>
         (let v1 = v\<lparr>s_Status := status, s_QRCode := qrCode, s_PairingCode := pairingCode,
                s_PhoneNumber := phone, s_UpdatedAt := c_now c\<rparr>;
              v2 = (if qrCode = [] then v1\<lparr>s_QRExpiresAt := None\<rparr> else v1)
          in (None, m\<lparr>mem_sessions := AList.update i v2 (mem_sessions m)\<rparr>)))"

definition mem_SetSessionQRExpiry ::
  "ctx \<Rightarrow> string \<Rightarrow> time option \<Rightarrow> memory \<Rightarrow> err option \<times> memory" where
  "mem_SetSessionQRExpiry c i expiry m =
     (case map_of (mem_sessions m) i of
        None \<Rightarrow> (Some (Sentinel NotFound), m)
      | Some v \<Rightarrow>
         (None, m\<lparr>mem_sessions := AList.update i (v\<lparr>s_QRExpiresAt := expiry\<rparr>) (mem_sessions m)\<rparr>))"

definition mem_UpdateMessageStatus ::
  "ctx \<Rightarrow> string \<Rightarrow> string \<Rightarrow> string \<Rightarrow> string \<Rightarrow> memory \<Rightarrow> err option \<times> memory" where
  "mem_UpdateMessageStatus c i status waID messageError m =
     (case map_of (mem_messages m) i of
        None \<Rightarrow> (Some (Sentinel NotFound), m)
      | Some v \<Rightarrow>
         (None, m\<lparr>mem_messages := AList.update i
            (v\<lparr>m_Status := status, m_WAID := waID, m_Error := messageError\<rparr>) (mem_messages m)\<rparr>))"

definition mem_SetSessionIdentity ::
  "ctx \<Rightarrow> string \<Rightarrow> string \<Rightarrow> string \<Rightarrow> memory \<Rightarrow> err option \<times> memory" where
  "mem_SetSessionIdentity c i jid phone m =
     (case map_of (mem_sessions m) i of
        None \<Rightarrow> (Some (Sentinel NotFound), m)
      | Some v \<Rightarrow>
         (None, m\<lparr>mem_sessions := AList.update i
            (v\<lparr>s_WAJID := jid, s_PhoneNumber := phone, s_UpdatedAt := c_now c\<rparr>) (mem_sessions m)\<rparr>))"

text \<open>The first message of the iteration that has this session and WhatsApp identifier.\<close>

definition mem_find_waid :: "ctx \<Rightarrow> string \<Rightarrow> string \<Rightarrow> memory \<Rightarrow> (string \<times> message) option" where
  "mem_find_waid c sessionID waID m =
     find (\<lambda>(_, v). m_SessionID v = sessionID \<and> m_WAID v = waID) (iterate c (mem_messages m))"

definition mem_UpdateMessageReceipt ::
  "ctx \<Rightarrow> string \<Rightarrow> string \<Rightarrow> string \<Rightarrow> time \<Rightarrow> memory \<Rightarrow> err option \<times> memory" where
  "mem_UpdateMessageReceipt c sessionID waID status t m =
     (case mem_find_waid c sessionID waID m of
        None \<Rightarrow> (Some (Sentinel NotFound), m)
      | Some (i, v) \<Rightarrow>
         (None, m\<lparr>mem_messages := AList.update i (v\<lparr>m_Status := status\<rparr>) (mem_messages m)\<rparr>))"

definition mem_UpdateQueueJob ::
  "ctx \<Rightarrow> string \<Rightarrow> string \<Rightarrow> string \<Rightarrow> memory \<Rightarrow> err option \<times> memory" where
  "mem_UpdateQueueJob c jobID status messageError m = (None, m)"

definition mem_ListPendingQueueJobs :: "ctx \<Rightarrow> memory \<Rightarrow> err + pending_job list" where
  "mem_ListPendingQueueJobs c m = Inr []"

definition mem_GetMessageByWAID ::
  "ctx \<Rightarrow> string \<Rightarrow> string \<Rightarrow> memory \<Rightarrow> err + message option" where
  "mem_GetMessageByWAID c sessionID waID m =
     Inr (map_option snd (mem_find_waid c sessionID waID m))"

definition memory_store :: "memory store" where
  "memory_store = \<lparr>ListSessions = mem_ListSessions, GetSession = mem_GetSession,
     PutSession = mem_PutSession, PutMessage = mem_PutMessage, ListMessages = mem_ListMessages,
     UpdateSession = mem_UpdateSession, SetSessionQRExpiry = mem_SetSessionQRExpiry,
     UpdateMessageStatus = mem_UpdateMessageStatus, SetSessionIdentity = mem_SetSessionIdentity,
     UpdateMessageReceipt = mem_UpdateMessageReceipt, UpdateQueueJob = mem_UpdateQueueJob,
     ListPendingQueueJobs = mem_ListPendingQueueJobs, GetMessageByWAID = mem_GetMessageByWAID\<rparr>"

lemmas memory_defs = mem_ListSessions_def mem_GetSession_def mem_PutSession_def
  mem_PutMessage_def mem_ListMessages_def mem_UpdateSession_def mem_SetSessionQRExpiry_def
  mem_UpdateMessageStatus_def mem_SetSessionIdentity_def mem_UpdateMessageReceipt_def
  mem_UpdateQueueJob_def mem_ListPendingQueueJobs_def mem_GetMessageByWAID_def

lemma memory_store_simps [simp]:
  "ListSessions memory_store = mem_ListSessions" "GetSession memory_store = mem_GetSession"
  "PutSession memory_store = mem_PutSession" "PutMessage memory_store = mem_PutMessage"
  "ListMessages memory_store = mem_ListMessages" "UpdateSession memory_store = mem_UpdateSession"
  "SetSessionQRExpiry memory_store = mem_SetSessionQRExpiry"
  "UpdateMessageStatus memory_store = mem_UpdateMessageStatus"
  "SetSessionIdentity memory_store = mem_SetSessionIdentity"
  "UpdateMessageReceipt memory_store = mem_UpdateMessageReceipt"
  "UpdateQueueJob memory_store = mem_UpdateQueueJob"
  "ListPendingQueueJobs memory_store = mem_ListPendingQueueJobs"
  "GetMessageByWAID memory_store = mem_GetMessageByWAID"
  by (simp_all add: memory_store_def)

section \<open>Invariant and laws\<close>

text \<open>Keys are distinct and every entry is stored under its own identifier.\<close>

definition memory_ok :: "memory \<Rightarrow> bool" where
  "memory_ok m \<longleftrightarrow> distinct (map fst (mem_sessions m)) \<and> distinct (map fst (mem_messages m))
     \<and> (\<forall>(i, v) \<in> set (mem_sessions m). s_SessionID v = i)
     \<and> (\<forall>(i, v) \<in> set (mem_messages m). m_ID v = i)"

definition memory_view :: "memory \<Rightarrow> string \<Rightarrow> session option" where
  "memory_view m i = map_option (\<lambda>v. v\<lparr>s_ID := s_SessionID v\<rparr>) (map_of (mem_sessions m) i)"

definition memory_mview :: "memory \<Rightarrow> string \<Rightarrow> message option" where
  "memory_mview m i = map_of (mem_messages m) i"

lemma map_of_alist_update [simp]: "map_of (AList.update k v al) k' = (if k' = k then Some v else map_of al k')"
  by (simp add: update_conv)

lemma alist_update_own:
  assumes "\<forall>(i, v) \<in> set al. key v = i" "key v = k"
  shows "\<forall>(i, v) \<in> set (AList.update k v al). key v = i"
  using assms by (induction al) auto

lemma memory_ok_sessions:
  "memory_ok m \<Longrightarrow> s_SessionID v = i \<Longrightarrow>
   memory_ok (m\<lparr>mem_sessions := AList.update i v (mem_sessions m)\<rparr>)"
  using alist_update_own [of "mem_sessions m" s_SessionID v i]
  by (simp add: memory_ok_def distinct_update)

lemma memory_ok_messages:
  "memory_ok m \<Longrightarrow> m_ID v = i \<Longrightarrow>
   memory_ok (m\<lparr>mem_messages := AList.update i v (mem_messages m)\<rparr>)"
  using alist_update_own [of "mem_messages m" m_ID v i]
  by (simp add: memory_ok_def distinct_update)

lemma memory_ok_key:
  "memory_ok m \<Longrightarrow> map_of (mem_sessions m) i = Some v \<Longrightarrow> s_SessionID v = i"
  "memory_ok m \<Longrightarrow> map_of (mem_messages m) i = Some w \<Longrightarrow> m_ID w = i"
  by (auto simp: memory_ok_def dest!: map_of_SomeD)

lemma memory_ok_new: "memory_ok NewMemory"
  by (simp add: memory_ok_def NewMemory_def)

lemmas memory_oks = memory_ok_sessions memory_ok_messages memory_ok_key

lemma set_iterate:
  assumes "fair_order c"
  shows "set (iterate c m) = (\<lambda>k. (k, the (map_of m k))) ` fst ` set m"
proof -
  have "set (c_order c (map fst m)) = fst ` set m"
    using assms unfolding fair_order_def by (metis set_map set_mset_mset)
  then show ?thesis by (simp add: iterate_def)
qed

lemma iterate_map_of:
  assumes "fair_order c"
  shows "(k, v) \<in> set (iterate c m) \<longleftrightarrow> map_of m k = Some v"
proof -
  have "k \<in> fst ` set m \<longleftrightarrow> map_of m k \<noteq> None" by (simp add: map_of_eq_None_iff)
  then show ?thesis using assms by (auto simp: set_iterate)
qed

lemma mset_iterate:
  assumes "fair_order c" "distinct (map fst m)"
  shows "mset (iterate c m) = mset m"
proof -
  have "mset (iterate c m) = image_mset (\<lambda>k. (k, the (map_of m k))) (mset (map fst m))"
    using assms(1) by (simp add: iterate_def fair_order_def)
  also have "\<dots> = mset (map (\<lambda>x. (fst x, the (map_of m (fst x)))) m)" by (simp add: image_mset.compositionality comp_def)
  also have "map (\<lambda>x. (fst x, the (map_of m (fst x)))) m = m"
    using assms(2) by (intro map_idI) (auto simp: map_of_is_SomeI)
  finally show ?thesis .
qed

text \<open>A look-up by WhatsApp identifier finds a stored message that has it.\<close>

lemma mem_find_waidD:
  "fair_order c \<Longrightarrow> mem_find_waid c i w m = Some (k, v) \<Longrightarrow>
   map_of (mem_messages m) k = Some v \<and> m_SessionID v = i \<and> m_WAID v = w"
  by (auto simp: mem_find_waid_def iterate_map_of dest!: find_SomeD)

lemma record_touch: "\<exists>t. v\<lparr>s_QRExpiresAt := x, s_ID := i\<rparr> = v\<lparr>s_ID := i, s_QRExpiresAt := x, s_UpdatedAt := t\<rparr>"
  by (rule exI [of _ "s_UpdatedAt v"]) simp

interpretation mem_sessions: session_store memory_store memory_ok memory_view
  by unfold_locales
    (auto simp: memory_defs memory_view_def Let_def memory_oks record_touch
      split: option.splits if_splits)

interpretation mem_messages: message_store memory_store memory_ok memory_mview
proof (unfold_locales, goal_cases)
  case (7 st c i w m)
  then show ?case
    by (fastforce simp: memory_defs memory_mview_def dest: mem_find_waidD)
next
  case (8 st c i w a t)
  then show ?case
    by (auto simp: memory_defs memory_oks dest: mem_find_waidD split: option.splits)
next
  case (10 st c i w a t st' j)
  then show ?case
    using mem_find_waidD [of c i w st]
    by (auto simp: memory_defs memory_mview_def split: option.splits if_splits)
qed (auto simp: memory_defs memory_mview_def memory_oks split: option.splits if_splits)

end
