(* ===== verification/Http_Base.thy ===== *)
theory Http_Base
  imports World_Model Auth_Model Memory_Store "HOL-Library.Monad_Syntax"
begin

text \<open>
  \<open>internal/httpapi/server.go\<close>, the common part: the server and its configuration, requests and
  replies, decoding of request bodies, authentication of a request, identifiers, templates and paging.
  A handler is a function of the request, the principal and the server's state; a Go panic in it, which
  net/http recovers by dropping the connection, is the reply \<open>Crash\<close>.
\<close>

section \<open>Server\<close>

datatype queue_kind = NoQueue | NopQueue | AsynqQueue

text \<open>
  Which of the fields of \<open>Server\<close> are set (\<open>cf_db\<close>: the database, and with it the PostgreSQL store;
  otherwise the in-memory store), and the parameters of the components: \<open>cf_lower\<close> is \<open>strings.ToLower\<close>,
  \<open>cf_ilike x v\<close> is \<open>x ILIKE '%v%'\<close>, \<open>cf_split_host\<close> the host of \<open>net.SplitHostPort\<close>, \<open>cf_day\<close> the number of the
  day of a time in the database's time zone and \<open>cf_date\<close> its text, \<open>cf_rate s t\<close> the rounded quotient
  \<open>math.Round(s*100/t*100)/100\<close> in floating point, \<open>cf_redis_url\<close> the variable \<open>REDIS_URL\<close>, \<open>cf_url_host\<close> the host
  of \<open>url.Parse\<close>.
\<close>

record srv_cfg =
  cf_db :: bool
  cf_auth :: bool
  cf_whatsapp :: bool
  cf_dispatcher :: bool
  cf_events :: bool
  cf_queue :: queue_kind
  cf_uuid :: uuid_input
  cf_auth_params :: auth_params
  cf_hooks :: hook_params
  cf_lower :: "string \<Rightarrow> string"
  cf_ilike :: "string \<Rightarrow> string \<Rightarrow> bool"
  cf_split_host :: "string \<Rightarrow> string option"
  cf_rfc3339nano :: "time \<Rightarrow> string"
  cf_day :: "time \<Rightarrow> int"
  cf_date :: "int \<Rightarrow> string"
  cf_rate :: "nat \<Rightarrow> nat \<Rightarrow> json"
  cf_redis_url :: string
  cf_url_host :: "string \<Rightarrow> string option"

record srv =
  sv_mem :: memory
  sv_world :: world
  sv_rate :: "string \<Rightarrow> rate_window option"
  sv_mgr :: manager
  sv_tasks :: "task list"

definition srv_db :: "srv \<Rightarrow> db" where
  "srv_db s = w_db (sv_world s)"

definition put_srv_db :: "db \<Rightarrow> srv \<Rightarrow> srv" where
  "put_srv_db d s = s\<lparr>sv_world := put_db d (sv_world s)\<rparr>"

definition put_mem :: "memory \<Rightarrow> srv \<Rightarrow> srv" where
  "put_mem m s = s\<lparr>sv_mem := m\<rparr>"

definition srv_store :: "srv_cfg \<Rightarrow> srv store" where
  "srv_store cf = (if cf_db cf then lift_store srv_db put_srv_db (postgres_store (cf_uuid cf))
     else lift_store sv_mem put_mem memory_store)"

text \<open>\<open>s.queue.Enqueue\<close>; \<open>None\<close> when no queue is set.\<close>

definition srv_enqueue :: "srv_cfg \<Rightarrow> (ctx \<Rightarrow> message_job \<Rightarrow> string \<Rightarrow> srv \<Rightarrow> err option \<times> srv) option" where
  "srv_enqueue cf = (case cf_queue cf of NoQueue \<Rightarrow> None
     | NopQueue \<Rightarrow> Some (\<lambda>c job i s. (case Enqueue nop_queue c job i (sv_tasks s) of (r, q) \<Rightarrow> (r, s\<lparr>sv_tasks := q\<rparr>)))
     | AsynqQueue \<Rightarrow> Some (\<lambda>c job i s. (case Enqueue asynq_queue c job i (sv_tasks s) of (r, q) \<Rightarrow> (r, s\<lparr>sv_tasks := q\<rparr>))))"

section \<open>Requests and replies\<close>

record request =
  rq_header :: "string \<Rightarrow> string"
  rq_query :: "string \<Rightarrow> string"
  rq_param :: string
  rq_remote :: string
  rq_cookie :: "string option"
  rq_json :: "json option"

datatype cookie = SetRefresh string | ClearRefresh

record response =
  rs_status :: int
  rs_body :: "json option"
  rs_cookie :: "cookie option"

datatype reply = Answer response | Crash

text \<open>\<open>http.StatusText\<close> on the codes the handlers use.\<close>

definition StatusText :: "int \<Rightarrow> string" where
  "StatusText n = (case map_of [(400, ''Bad Request''), (401, ''Unauthorized''), (403, ''Forbidden''), (404, ''Not Found''),
     (409, ''Conflict''), (500, ''Internal Server Error''), (501, ''Not Implemented''), (502, ''Bad Gateway''),
     (503, ''Service Unavailable'')] n of Some t \<Rightarrow> t | None \<Rightarrow> [])"

definition write_json :: "int \<Rightarrow> json \<Rightarrow> reply" where
  "write_json status v = Answer \<lparr>rs_status = status, rs_body = Some v, rs_cookie = None\<rparr>"

definition writeError :: "int \<Rightarrow> string \<Rightarrow> reply" where
  "writeError status text = write_json status (JObj [(''statusCode'', JInt status), (''error'', JStr (StatusText status)),
     (''message'', JStr text)])"

text \<open>The status code the client sees; none on a dropped connection.\<close>

definition reply_status :: "reply \<Rightarrow> int option" where
  "reply_status r = (case r of Answer a \<Rightarrow> Some (rs_status a) | Crash \<Rightarrow> None)"

lemma reply_status_simps [simp]:
  "reply_status (write_json n v) = Some n" "reply_status (writeError n t) = Some n" "reply_status Crash = None"
  by (simp_all add: reply_status_def write_json_def writeError_def)

definition with_cookie :: "cookie \<Rightarrow> reply \<Rightarrow> reply" where
  "with_cookie k r = (case r of Answer a \<Rightarrow> Answer (a\<lparr>rs_cookie := Some k\<rparr>) | Crash \<Rightarrow> Crash)"

definition done_text :: "string \<Rightarrow> json" where
  "done_text t = JObj [(''message'', JStr t)]"

type_synonym handler_result = "reply \<times> srv"
type_synonym handler = "(nat \<Rightarrow> ctx) \<Rightarrow> request \<Rightarrow> principal option \<Rightarrow> srv \<Rightarrow> handler_result"

text \<open>
  A statement sent through \<open>s.db\<close>, and a call of \<open>s.auth\<close>, with what follows as a continuation: on a nil
  pointer it panics.  The environment \<open>E i\<close> of a handler is that of the \<open>i\<close>-th call it makes.
\<close>

definition db_query :: "srv_cfg \<Rightarrow> ctx \<Rightarrow> (db \<Rightarrow> err + 'a) \<Rightarrow> (err + 'a \<Rightarrow> handler_result) \<Rightarrow> srv \<Rightarrow> handler_result" where
  "db_query cf c q k s = (if \<not> cf_db cf then (Crash, s)
     else k (case c_fault c 0 of Some e \<Rightarrow> Inl e | None \<Rightarrow> q (srv_db s)))"

definition db_exec :: "srv_cfg \<Rightarrow> ctx \<Rightarrow> (db \<Rightarrow> (err + 'a) \<times> db) \<Rightarrow> (err + 'a \<Rightarrow> srv \<Rightarrow> handler_result) \<Rightarrow> srv \<Rightarrow> handler_result" where
  "db_exec cf c q k s = (if \<not> cf_db cf then (Crash, s)
     else case (case c_fault c 0 of Some e \<Rightarrow> (Inl e, srv_db s) | None \<Rightarrow> q (srv_db s)) of
       (r, d) \<Rightarrow> k r (put_srv_db d s))"

definition auth_exec :: "srv_cfg \<Rightarrow> (db \<Rightarrow> 'a \<times> db) \<Rightarrow> ('a \<Rightarrow> srv \<Rightarrow> handler_result) \<Rightarrow> srv \<Rightarrow> handler_result" where
  "auth_exec cf q k s = (if \<not> cf_auth cf then (Crash, s) else case q (srv_db s) of (r, d) \<Rightarrow> k r (put_srv_db d s))"

text \<open>A parameter compared with a \<open>uuid\<close> column.\<close>

definition by_uuid :: "srv_cfg \<Rightarrow> string \<Rightarrow> (string \<Rightarrow> err + 'a) \<Rightarrow> err + 'a" where
  "by_uuid cf i f = (case cf_uuid cf i of None \<Rightarrow> Inl invalid_text | Some u \<Rightarrow> f u)"

definition scan_row :: "'a option \<Rightarrow> err + 'a" where
  "scan_row r = (case r of None \<Rightarrow> Inl (Sentinel NoRows) | Some x \<Rightarrow> Inr x)"

section \<open>Request bodies\<close>

text \<open>
  \<open>decode\<close>: \<open>rq_json\<close> is the JSON value at the start of the body, \<open>None\<close> when its first MiB holds none, with its
  keys in the spelling of the struct's tags (\<open>encoding/json\<close> matches them without regard to case, the
  last of several wins).  A struct
  is read from an object or from null; an absent or null field keeps its zero value, a field of
  another type is an error.
\<close>

definition decode :: "request \<Rightarrow> (string \<times> json) list option" where
  "decode r = (case rq_json r of Some (JObj kvs) \<Rightarrow> Some kvs | Some JNull \<Rightarrow> Some [] | _ \<Rightarrow> None)"

definition dec_str :: "string \<Rightarrow> (string \<times> json) list \<Rightarrow> string option" where
  "dec_str k kvs = (case str_field k kvs of Inr s \<Rightarrow> Some s | Inl e \<Rightarrow> None)"

definition dec_int :: "string \<Rightarrow> (string \<times> json) list \<Rightarrow> int option" where
  "dec_int k kvs = (case int_field k kvs of Inr i \<Rightarrow> Some i | Inl e \<Rightarrow> None)"

text \<open>Pointer fields: the inner option is nil.\<close>

definition dec_int_ptr :: "string \<Rightarrow> (string \<times> json) list \<Rightarrow> int option option" where
  "dec_int_ptr k kvs = (case map_of kvs k of None \<Rightarrow> Some None | Some JNull \<Rightarrow> Some None
     | Some (JInt i) \<Rightarrow> (if int8 i then Some (Some i) else None) | Some _ \<Rightarrow> None)"

definition dec_bool_ptr :: "string \<Rightarrow> (string \<times> json) list \<Rightarrow> bool option option" where
  "dec_bool_ptr k kvs = (case map_of kvs k of None \<Rightarrow> Some None | Some JNull \<Rightarrow> Some None
     | Some (JBool b) \<Rightarrow> Some (Some b) | Some _ \<Rightarrow> None)"

fun dec_strings :: "json list \<Rightarrow> string list option" where
  "dec_strings [] = Some []"
| "dec_strings (JStr s # js) = map_option (Cons s) (dec_strings js)"
| "dec_strings (JNull # js) = map_option (Cons []) (dec_strings js)"
| "dec_strings (_ # js) = None"

definition dec_slice :: "string \<Rightarrow> (string \<times> json) list \<Rightarrow> string list option option" where
  "dec_slice k kvs = (case map_of kvs k of None \<Rightarrow> Some None | Some JNull \<Rightarrow> Some None
     | Some (JArr js) \<Rightarrow> map_option Some (dec_strings js) | Some _ \<Rightarrow> None)"

fun dec_pairs :: "(string \<times> json) list \<Rightarrow> (string \<times> string) list option" where
  "dec_pairs [] = Some []"
| "dec_pairs ((k, JStr s) # js) = map_option (Cons (k, s)) (dec_pairs js)"
| "dec_pairs ((k, JNull) # js) = map_option (Cons (k, [])) (dec_pairs js)"
| "dec_pairs (_ # js) = None"

definition dec_map :: "string \<Rightarrow> (string \<times> json) list \<Rightarrow> (string \<times> string) list option" where
  "dec_map k kvs = (case map_of kvs k of None \<Rightarrow> Some [] | Some JNull \<Rightarrow> Some []
     | Some (JObj js) \<Rightarrow> dec_pairs js | Some _ \<Rightarrow> None)"

section \<open>Authentication\<close>

definition clientIP :: "srv_cfg \<Rightarrow> request \<Rightarrow> string" where
  "clientIP cf r = (case cf_split_host cf (rq_remote r) of Some host \<Rightarrow> host | None \<Rightarrow> rq_remote r)"

text \<open>\<open>strings.EqualFold\<close> with a text whose letters have no folding outside ASCII.\<close>

definition fold_char :: "char \<Rightarrow> char" where
  "fold_char c = (let n = of_char c :: nat in if 65 \<le> n \<and> n \<le> 90 then char_of (n + 32) else c)"

definition equal_fold :: "string \<Rightarrow> string \<Rightarrow> bool" where
  "equal_fold a b \<longleftrightarrow> map fold_char a = map fold_char b"

definition auth_of :: "srv \<Rightarrow> auth_state" where
  "auth_of s = \<lparr>au_db = srv_db s, au_rate = sv_rate s\<rparr>"

definition authenticate :: "srv_cfg \<Rightarrow> ctx \<Rightarrow> request \<Rightarrow> srv \<Rightarrow> (err + principal) \<times> srv" where
  "authenticate cf c r s =
     (if rq_header r ''X-Api-Key'' \<noteq> [] then
        (case VerifyAPIKey (cf_auth_params cf) c (rq_header r ''X-Api-Key'') (clientIP cf r) (auth_of s) of
           (p, a) \<Rightarrow> (p, s\<lparr>sv_rate := au_rate a\<rparr>))
      else let h = rq_header r ''Authorization'' in
        if length h < 8 \<or> \<not> equal_fold (take 7 h) ''Bearer '' then (Inl (Sentinel Unauthorized), s)
        else (VerifyAccess (cf_auth_params cf) (c_now c) (trim_space (drop 7 h)), s))"

definition requireAuth ::
  "srv_cfg \<Rightarrow> ctx \<Rightarrow> request \<Rightarrow> (principal option \<Rightarrow> srv \<Rightarrow> handler_result) \<Rightarrow> srv \<Rightarrow> handler_result" where
  "requireAuth cf c r next s =
     (if \<not> cf_auth cf then next None s
      else (case authenticate cf c r s of
          (Inl e, s1) \<Rightarrow> (writeError 401 ''Authentication required'', s1)
        | (Inr p, s1) \<Rightarrow> next (Some p) s1))"

section \<open>Identifiers and templates\<close>

text \<open>When the random source fails, the identifier is the time without its colons.\<close>

definition randomID :: "srv_cfg \<Rightarrow> ctx \<Rightarrow> string" where
  "randomID cf c = (case c_fault c 0 of None \<Rightarrow> hex_encode (randomBytes 16 (c_uuid c 0))
     | Some e \<Rightarrow> replace_all (cf_rfc3339nano cf (c_now c)) '':'' [])"

definition hashString :: "srv_cfg \<Rightarrow> string \<Rightarrow> string" where
  "hashString cf value = hex_encode (ap_sha256 (cf_auth_params cf) value)"

text \<open>Variables in the order in which Go iterates over the map.\<close>

definition resolveTemplate :: "(string list \<Rightarrow> string list) \<Rightarrow> string \<Rightarrow> (string \<times> string) list \<Rightarrow> string" where
  "resolveTemplate order body vars =
     fold (\<lambda>k b. replace_all b (''{{'' @ k @ ''}}'') (the (map_of vars k))) (order (map fst vars)) body"

section \<open>Paging\<close>

text \<open>\<open>strconv.Atoi\<close>: an optional sign and decimal digits, within 64 bits.\<close>

definition digit_val :: "char \<Rightarrow> int option" where
  "digit_val c = (let n = of_char c :: nat in if 48 \<le> n \<and> n \<le> 57 then Some (int n - 48) else None)"

fun digits_val :: "int \<Rightarrow> string \<Rightarrow> int option" where
  "digits_val acc [] = Some acc"
| "digits_val acc (c # s) = (case digit_val c of None \<Rightarrow> None | Some d \<Rightarrow> digits_val (10 * acc + d) s)"

definition Atoi :: "string \<Rightarrow> int option" where
  "Atoi s = (let neg = (has_prefix s ''-''); t = (if has_prefix s ''-'' \<or> has_prefix s ''+'' then tl s else s)
     in if t = [] then None else case digits_val 0 t of None \<Rightarrow> None
        | Some n \<Rightarrow> let v = (if neg then - n else n) in if int8 v then Some v else None)"

definition page_of :: "request \<Rightarrow> int" where
  "page_of r = (case Atoi (rq_query r ''page'') of Some n \<Rightarrow> if n > 0 then n else 1 | None \<Rightarrow> 1)"

definition limit_of :: "request \<Rightarrow> int" where
  "limit_of r = (case Atoi (rq_query r ''limit'') of Some n \<Rightarrow> if n > 0 \<and> n \<le> 100 then n else 20 | None \<Rightarrow> 20)"

text \<open>
  \<open>LIMIT l OFFSET o\<close> on the sorted, filtered rows.  The offset \<open>(page-1)*limit\<close> is computed in 64 bits;
  PostgreSQL refuses a negative one.
\<close>

definition negative_offset :: err where
  "negative_offset = PgError ''2201X'' ''OFFSET must not be negative''"

definition page_rows :: "int \<Rightarrow> int \<Rightarrow> 'r list \<Rightarrow> err + 'r list" where
  "page_rows page limit rows = (let off = wrap64 ((page - 1) * limit)
     in if off < 0 then Inl negative_offset else Inr (take (nat limit) (drop (nat off) rows)))"

section \<open>Values as JSON\<close>

definition time_json :: "time option \<Rightarrow> json" where
  "time_json t = (case t of None \<Rightarrow> JNull | Some x \<Rightarrow> JTime x)"

definition opt_json :: "int option \<Rightarrow> json" where
  "opt_json i = (case i of None \<Rightarrow> JNull | Some x \<Rightarrow> JInt x)"

definition strs_json :: "string list option \<Rightarrow> json" where
  "strs_json xs = (case xs of None \<Rightarrow> JNull | Some ys \<Rightarrow> JArr (map JStr ys))"

definition omit_time :: "string \<Rightarrow> time option \<Rightarrow> (string \<times> json) list" where
  "omit_time k t = (case t of None \<Rightarrow> [] | Some x \<Rightarrow> [(k, JTime x)])"

definition session_json :: "session \<Rightarrow> json" where
  "session_json v = JObj ([(''id'', JStr (s_ID v)), (''session_id'', JStr (s_SessionID v)), (''status'', JStr (s_Status v))]
     @ omit_str ''method'' (s_Method v) @ omit_str ''phone_number'' (s_PhoneNumber v) @ omit_str ''qr_code'' (s_QRCode v)
     @ omit_str ''pairing_code'' (s_PairingCode v) @ omit_time ''qr_expires_at'' (s_QRExpiresAt v)
     @ omit_str ''wa_jid'' (s_WAJID v)
     @ [(''message_count'', JInt (s_MessageCount v)), (''created_at'', JTime (s_CreatedAt v)),
        (''updated_at'', JTime (s_UpdatedAt v))])"

definition message_json :: "message \<Rightarrow> json" where
  "message_json v = JObj ([(''id'', JStr (m_ID v))] @ omit_str ''job_id'' (m_JobID v)
     @ [(''session_id'', JStr (m_SessionID v)), (''to'', JStr (m_To v)), (''type'', JStr (m_Type v))]
     @ omit_str ''content'' (m_Content v) @ [(''status'', JStr (m_Status v))]
     @ omit_str ''wa_message_id'' (m_WAID v) @ omit_str ''error'' (m_Error v) @ omit_str ''reference_id'' (m_ReferenceID v)
     @ omit_str ''source_type'' (m_SourceType v) @ omit_str ''source_id'' (m_SourceID v)
     @ omit_str ''template_id'' (m_TemplateID v) @ omit_str ''url'' (m_URL v) @ omit_str ''filename'' (m_Filename v)
     @ omit_str ''mime_type'' (m_MIMEType v) @ omit_int ''priority'' (m_Priority v) @ omit_int ''delay'' (m_Delay v)
     @ [(''created_at'', JTime (m_CreatedAt v))])"

text \<open>A slice that is nil until the first row is appended is encoded as null when there is none.\<close>

definition nil_json :: "json list \<Rightarrow> json" where
  "nil_json xs = (if xs = [] then JNull else JArr xs)"

definition page_json :: "json list \<Rightarrow> nat \<Rightarrow> int \<Rightarrow> int \<Rightarrow> json" where
  "page_json rows cnt page limit = JObj [(''data'', JArr rows), (''total'', JInt (int cnt)),
     (''page'', JInt page), (''limit'', JInt limit)]"

section \<open>The server's invariant\<close>

text \<open>The stores, the event broker and the session manager keep their own invariants.\<close>

definition srv_ok :: "srv_cfg \<Rightarrow> srv \<Rightarrow> bool" where
  "srv_ok cf s \<longleftrightarrow> memory_ok (sv_mem s) \<and> world_ok (cf_uuid cf) (sv_world s) \<and> mgr_ok (sv_mgr s)"

text \<open>What PostgreSQL stores for a \<open>uuid\<close> is its output form, which it reads as itself.\<close>

definition uuid_canonical :: "uuid_input \<Rightarrow> bool" where
  "uuid_canonical u \<longleftrightarrow> (\<forall>i j. u i = Some j \<longrightarrow> u j = Some j)"

lemma srv_simps [simp]:
  "srv_db (put_srv_db d s) = d" "put_srv_db (srv_db s) s = s" "sv_mem (put_srv_db d s) = sv_mem s"
  "sv_mgr (put_srv_db d s) = sv_mgr s" "sv_tasks (put_srv_db d s) = sv_tasks s" "sv_rate (put_srv_db d s) = sv_rate s"
  "sv_mem (put_mem m s) = m" "put_mem (sv_mem s) s = s" "sv_mgr (put_mem m s) = sv_mgr s"
  "srv_db (put_mem m s) = srv_db s" "sv_world (put_mem m s) = sv_world s" "sv_tasks (put_mem m s) = sv_tasks s"
  "srv_db (s\<lparr>sv_tasks := q\<rparr>) = srv_db s" "srv_db (s\<lparr>sv_mgr := g\<rparr>) = srv_db s" "srv_db (s\<lparr>sv_rate := x\<rparr>) = srv_db s"
  "w_broker (sv_world (put_srv_db d s)) = w_broker (sv_world s)"
  by (simp_all add: srv_db_def put_srv_db_def put_mem_def)

lemma srv_ok_parts:
  "srv_ok cf s \<longleftrightarrow> memory_ok (sv_mem s) \<and> pg_ok (cf_uuid cf) (srv_db s) \<and> broker_ok (w_broker (sv_world s)) \<and> mgr_ok (sv_mgr s)"
  by (auto simp: srv_ok_def world_ok_def srv_db_def)

lemma srv_ok_db: "srv_ok cf s \<Longrightarrow> db_ok (srv_db s)"
  by (simp add: srv_ok_parts pg_ok_def)

lemma srv_ok_pg: "srv_ok cf s \<Longrightarrow> pg_ok (cf_uuid cf) (srv_db s)"
  by (simp add: srv_ok_parts)

lemma srv_ok_put: "srv_ok cf s \<Longrightarrow> pg_ok (cf_uuid cf) d \<Longrightarrow> srv_ok cf (put_srv_db d s)"
  by (simp add: srv_ok_parts)

lemma srv_ok_simple [simp]:
  "srv_ok cf (s\<lparr>sv_tasks := q\<rparr>) = srv_ok cf s" "srv_ok cf (s\<lparr>sv_rate := x\<rparr>) = srv_ok cf s"
  by (simp_all add: srv_ok_def)

text \<open>A statement on other tables than \<open>messages\<close> keeps \<open>pg_ok\<close> when it keeps the schema's constraints.\<close>

lemma pg_ok_other: "pg_ok u d \<Longrightarrow> db_ok d' \<Longrightarrow> t_messages d' = t_messages d \<Longrightarrow> pg_ok u d'"
  by (simp add: pg_ok_def)

lemma db_query_ok:
  "srv_ok cf s \<Longrightarrow> (\<And>res. srv_ok cf (snd (k res))) \<Longrightarrow> srv_ok cf (snd (db_query cf c q k s))"
  by (simp add: db_query_def)

lemma db_exec_ok:
  assumes "srv_ok cf s" "pg_ok (cf_uuid cf) (snd (q (srv_db s)))"
    and "\<And>res s'. srv_ok cf s' \<Longrightarrow> srv_ok cf (snd (k res s'))"
  shows "srv_ok cf (snd (db_exec cf c q k s))"
  using assms srv_ok_put [OF assms(1), of "snd (q (srv_db s))"] srv_ok_put [OF assms(1), of "srv_db s"]
  by (auto simp: db_exec_def split_beta split: option.split)

lemma auth_exec_ok:
  assumes "srv_ok cf s" "pg_ok (cf_uuid cf) (snd (q (srv_db s)))"
    and "\<And>res s'. srv_ok cf s' \<Longrightarrow> srv_ok cf (snd (k res s'))"
  shows "srv_ok cf (snd (auth_exec cf q k s))"
  using assms srv_ok_put [OF assms(1), of "snd (q (srv_db s))"] by (simp add: auth_exec_def split_beta)

text \<open>A handler whose continuations all stop in the same state stops in it.\<close>

lemma db_query_same: "(\<And>res. snd (k res) = s) \<Longrightarrow> snd (db_query cf c q k s) = s"
  by (simp add: db_query_def)

lemma authenticate_frame:
  "authenticate cf c r s = (res, s') \<Longrightarrow> \<exists>x. s' = s\<lparr>sv_rate := x\<rparr>"
proof -
  have *: "\<exists>x. s = s\<lparr>sv_rate := x\<rparr>" by (rule exI [of _ "sv_rate s"]) simp
  show "authenticate cf c r s = (res, s') \<Longrightarrow> \<exists>x. s' = s\<lparr>sv_rate := x\<rparr>"
    using * by (auto simp: authenticate_def Let_def split: if_splits prod.splits)
qed

lemma requireAuth_ok:
  assumes "srv_ok cf s" "\<And>p s'. srv_ok cf s' \<Longrightarrow> srv_ok cf (snd (next p s'))"
  shows "srv_ok cf (snd (requireAuth cf c r next s))"
  using assms by (auto simp: requireAuth_def dest!: authenticate_frame split: prod.splits sum.splits)

section \<open>The server's store\<close>

lemma lift_store_select [simp]:
  "ListSessions (lift_store get put S) c w = ListSessions S c (get w)"
  "GetSession (lift_store get put S) c i w = GetSession S c i (get w)"
  "PutSession (lift_store get put S) c v w = lift_write get put (PutSession S c v) w"
  "PutMessage (lift_store get put S) c m w = lift_write get put (PutMessage S c m) w"
  "ListMessages (lift_store get put S) c w = ListMessages S c (get w)"
  "UpdateSession (lift_store get put S) c i a q p h w = lift_write get put (UpdateSession S c i a q p h) w"
  by (simp_all add: lift_store_def)

definition srv_view :: "srv_cfg \<Rightarrow> srv \<Rightarrow> string \<Rightarrow> session option" where
  "srv_view cf s = (if cf_db cf then pg_view (srv_db s) else memory_view (sv_mem s))"

interpretation srv_pg: session_lens "postgres_store u" "pg_ok u" pg_view srv_db put_srv_db
  "\<lambda>s. memory_ok (sv_mem s) \<and> broker_ok (w_broker (sv_world s)) \<and> mgr_ok (sv_mgr s)"
  for u :: uuid_input
  by (intro session_lens.intro session_lens_axioms.intro pg_session_lens.session_store_axioms) simp_all

interpretation srv_mem: session_lens memory_store memory_ok memory_view sv_mem put_mem
  "\<lambda>s. world_ok u (sv_world s) \<and> mgr_ok (sv_mgr s)"
  for u :: uuid_input
  by unfold_locales simp_all

lemma srv_store_sessions: "session_store (srv_store cf) (srv_ok cf) (srv_view cf)"
proof (cases "cf_db cf")
  case True
  have "srv_ok cf = (\<lambda>s. pg_ok (cf_uuid cf) (srv_db s)
      \<and> memory_ok (sv_mem s) \<and> broker_ok (w_broker (sv_world s)) \<and> mgr_ok (sv_mgr s))"
    by (auto simp: fun_eq_iff srv_ok_parts)
  with True srv_pg.lifted [of "cf_uuid cf"] show ?thesis by (simp add: srv_store_def srv_view_def [abs_def])
next
  case False
  with srv_mem.lifted [of "cf_uuid cf"] show ?thesis
    by (simp add: srv_store_def srv_view_def [abs_def] srv_ok_def [abs_def])
qed

interpretation srv_sessions: session_store "srv_store cf" "srv_ok cf" "srv_view cf"
  for cf :: srv_cfg
  by (rule srv_store_sessions)

lemma pg_PutMessage_pg_ok:
  assumes "uuid_canonical u" "pg_ok u d"
  shows "pg_ok u (snd (pg_PutMessage u c v d))"
proof (cases "pg_PutMessage u c v d")
  case (Pair r d')
  have "db_ok d'" using assms(2) pg_PutMessage_ok [of d u c v] Pair by (simp add: pg_ok_def)
  with assms Pair show ?thesis
    by (cases r) (auto simp: pg_ok_def uuid_canonical_def message_row_of_def
        dest!: pg_PutMessage_None pg_PutMessage_Some)
qed

lemma srv_PutMessage_ok:
  assumes "uuid_canonical (cf_uuid cf)" "srv_ok cf s"
  shows "srv_ok cf (snd (PutMessage (srv_store cf) c v s))"
proof (cases "cf_db cf")
  case True
  with assms show ?thesis
    by (simp add: srv_store_def srv_ok_put pg_PutMessage_pg_ok srv_ok_parts)
next
  case False
  have "memory_ok (snd (mem_PutMessage c v (sv_mem s)))"
    using assms(2) by (simp add: mem_PutMessage_def memory_ok_messages srv_ok_def)
  with False assms(2) show ?thesis by (simp add: srv_store_def srv_ok_def)
qed

section \<open>A sample server\<close>

text \<open>The full configuration on the sample database, and a request of one of its callers.\<close>

definition sample_cfg :: srv_cfg where
  "sample_cfg = \<lparr>cf_db = True, cf_auth = True, cf_whatsapp = True, cf_dispatcher = True, cf_events = True,
     cf_queue = AsynqQueue, cf_uuid = Some, cf_auth_params = sample_auth, cf_hooks = sample_hook_params,
     cf_lower = (\<lambda>x. x), cf_ilike = contains_sub, cf_split_host = Some, cf_rfc3339nano = (\<lambda>t. []),
     cf_day = (\<lambda>t. t div (86400 * second)), cf_date = (\<lambda>n. []), cf_rate = (\<lambda>s t. JNull), cf_redis_url = [],
     cf_url_host = Some\<rparr>"

definition sample_srv :: srv where
  "sample_srv = \<lparr>sv_mem = NewMemory,
     sv_world = \<lparr>w_hooks = \<lparr>hk_db = sample_db, hk_out = []\<rparr>, w_broker = NewBroker, w_limiter = New_limiter, w_sent = []\<rparr>,
     sv_rate = (\<lambda>_. None), sv_mgr = NewSessionManager, sv_tasks = []\<rparr>"

definition sample_user :: principal where
  "sample_user = \<lparr>p_UserID = ''u1'', p_Username = ''admin'', p_APIKeyID = [], p_SessionID = [], p_IsAPIKey = False\<rparr>"

definition sample_request :: "(string \<times> string) list \<Rightarrow> (string \<times> string) list \<Rightarrow> string \<Rightarrow> (string \<times> json) list \<Rightarrow> request" where
  "sample_request headers queries param body = \<lparr>
     rq_header = (\<lambda>k. case map_of headers k of None \<Rightarrow> [] | Some v \<Rightarrow> v),
     rq_query = (\<lambda>k. case map_of queries k of None \<Rightarrow> [] | Some v \<Rightarrow> v),
     rq_param = param, rq_remote = ''10.0.0.1'', rq_cookie = None, rq_json = Some (JObj body)\<rparr>"

lemma sample_cfg_simps [simp]:
  "cf_db sample_cfg" "cf_auth sample_cfg" "cf_whatsapp sample_cfg" "cf_events sample_cfg" "cf_dispatcher sample_cfg"
  "cf_queue sample_cfg = AsynqQueue" "cf_uuid sample_cfg = Some" "cf_auth_params sample_cfg = sample_auth"
  "cf_hooks sample_cfg = sample_hook_params" "cf_split_host sample_cfg h = Some h"
  by (simp_all add: sample_cfg_def)

lemma sample_srv_simps [simp]:
  "srv_db sample_srv = sample_db" "sv_tasks sample_srv = []" "sv_mgr sample_srv = NewSessionManager"
  "sv_rate sample_srv = (\<lambda>_. None)" "sv_mem sample_srv = NewMemory" "w_broker (sv_world sample_srv) = NewBroker"
  by (simp_all add: sample_srv_def srv_db_def w_db_def)

lemma sample_srv_ok [simp]: "srv_ok sample_cfg sample_srv"
  by (simp add: srv_ok_parts pg_ok_def memory_ok_new NewBroker_ok NewSessionManager_ok)

lemma sample_request_simps [simp]:
  "rq_header (sample_request h q i b) k = (case map_of h k of None \<Rightarrow> [] | Some v \<Rightarrow> v)"
  "rq_query (sample_request h q i b) k = (case map_of q k of None \<Rightarrow> [] | Some v \<Rightarrow> v)"
  "rq_param (sample_request h q i b) = i" "rq_remote (sample_request h q i b) = ''10.0.0.1''"
  "rq_cookie (sample_request h q i b) = None" "decode (sample_request h q i b) = Some b"
  by (simp_all add: sample_request_def decode_def)

end
