(* ===== verification/Http_Messages.thy ===== *)
theory Http_Messages
  imports Http_Base
begin

text \<open>
  The message handlers of \<open>internal/httpapi/server.go\<close>: \<open>sendMessage\<close>, \<open>listMessages\<close>, \<open>getMessage\<close>,
  \<open>resendMessage\<close> and \<open>deleteMessage\<close>.  The theorems are about what an accepted message leaves behind, the
  idempotency key, the scope of a restricted API key and the paging of the list.
\<close>

section \<open>Sending\<close>

record send_body =
  sb_SessionID :: string
  sb_To :: string
  sb_Type :: string
  sb_Message :: string
  sb_TemplateID :: string
  sb_Variables :: "(string \<times> string) list"
  sb_ReferenceID :: string
  sb_SourceType :: string
  sb_SourceID :: string
  sb_URL :: string
  sb_Filename :: string
  sb_MIMEType :: string
  sb_Priority :: int
  sb_Delay :: int

definition decode_send :: "request \<Rightarrow> send_body option" where
  "decode_send r = do {
     kvs \<leftarrow> decode r;
     sessionID \<leftarrow> dec_str ''sessionId'' kvs; to \<leftarrow> dec_str ''to'' kvs; typ \<leftarrow> dec_str ''type'' kvs;
     message \<leftarrow> dec_str ''message'' kvs; templateID \<leftarrow> dec_str ''templateId'' kvs;
     variables \<leftarrow> dec_map ''variables'' kvs; referenceID \<leftarrow> dec_str ''referenceId'' kvs;
     sourceType \<leftarrow> dec_str ''sourceType'' kvs; sourceID \<leftarrow> dec_str ''sourceId'' kvs;
     url \<leftarrow> dec_str ''url'' kvs; filename \<leftarrow> dec_str ''filename'' kvs; mimeType \<leftarrow> dec_str ''mimeType'' kvs;
     priority \<leftarrow> dec_int ''priority'' kvs; delay \<leftarrow> dec_int ''delay'' kvs;
     Some \<lparr>sb_SessionID = sessionID, sb_To = to, sb_Type = typ, sb_Message = message,
       sb_TemplateID = templateID, sb_Variables = variables, sb_ReferenceID = referenceID,
       sb_SourceType = sourceType, sb_SourceID = sourceID, sb_URL = url, sb_Filename = filename,
       sb_MIMEType = mimeType, sb_Priority = priority, sb_Delay = delay\<rparr> }"

text \<open>The scope of idempotency keys: the caller, or empty without authentication.\<close>

definition scope_of :: "principal option \<Rightarrow> string" where
  "scope_of p = (case p of None \<Rightarrow> []
     | Some q \<Rightarrow> if p_IsAPIKey q then ''api-key:'' @ p_APIKeyID q else ''user:'' @ p_UserID q)"

definition other_session :: "principal option \<Rightarrow> string \<Rightarrow> bool" where
  "other_session p sessionID \<longleftrightarrow> (case p of None \<Rightarrow> False
     | Some q \<Rightarrow> p_IsAPIKey q \<and> p_SessionID q \<noteq> [] \<and> p_SessionID q \<noteq> sessionID)"

definition idem_row :: "string \<Rightarrow> string \<Rightarrow> db \<Rightarrow> err + message_row" where
  "idem_row scope keyHash d = scan_row (find (\<lambda>m. mr_idempotency_scope m = Some scope
     \<and> mr_idempotency_key_hash m = Some keyHash) (t_messages d))"

definition already_queued :: "message_row \<Rightarrow> reply" where
  "already_queued m = write_json 200 (JObj [(''messageId'', JStr (mr_id m)), (''jobId'', JStr (coalesce (mr_job_id m))),
     (''status'', JStr (mr_status m)), (''message'', JStr ''Message already queued'')])"

definition queued_reply :: "string \<Rightarrow> string \<Rightarrow> reply" where
  "queued_reply i text = write_json 202 (JObj [(''messageId'', JStr i), (''jobId'', JStr i),
     (''status'', JStr ''queued''), (''message'', JStr text)])"

definition new_message :: "send_body \<Rightarrow> string \<Rightarrow> time \<Rightarrow> string \<Rightarrow> string \<Rightarrow> string \<Rightarrow> message" where
  "new_message b i now key scope keyHash = zero_message\<lparr>m_ID := i, m_JobID := i, m_SessionID := sb_SessionID b,
     m_To := sb_To b, m_Type := sb_Type b, m_Content := sb_Message b, m_URL := sb_URL b,
     m_Filename := sb_Filename b, m_MIMEType := sb_MIMEType b, m_TemplateID := sb_TemplateID b,
     m_ReferenceID := sb_ReferenceID b, m_SourceType := sb_SourceType b, m_SourceID := sb_SourceID b,
     m_Priority := sb_Priority b, m_Delay := (if sb_Delay b < 0 then 0 else sb_Delay b), m_Status := ''queued'',
     m_CreatedAt := now,
     m_IdempotencyScope := (if key \<noteq> [] \<and> scope \<noteq> [] then scope else []),
     m_IdempotencyKeyHash := (if key \<noteq> [] \<and> scope \<noteq> [] then keyHash else [])\<rparr>"

definition job_of_message :: "message \<Rightarrow> message_job" where
  "job_of_message v = \<lparr>j_MessageID = m_ID v, j_SessionID = m_SessionID v, j_To = m_To v, j_Type = m_Type v,
     j_Content = m_Content v, j_URL = m_URL v, j_Filename = m_Filename v, j_MIMEType = m_MIMEType v,
     j_Priority = m_Priority v, j_Delay = m_Delay v\<rparr>"

definition enqueue_message :: "srv_cfg \<Rightarrow> ctx \<Rightarrow> message_job \<Rightarrow> string \<Rightarrow> reply \<Rightarrow> srv \<Rightarrow> handler_result" where
  "enqueue_message cf c job jobID ok s = (case srv_enqueue cf of None \<Rightarrow> (ok, s)
     | Some enqueue \<Rightarrow> (case enqueue c job jobID s of
         (Some e, s1) \<Rightarrow> (writeError 503 ''message queue unavailable'', s1) | (None, s1) \<Rightarrow> (ok, s1)))"

text \<open>
  From \<open>randomID()\<close> on.  Calls 3 and 4 are \<open>PutMessage\<close> and the look-up after it failed, 5 is the queue, 6 the
  identifier and the clock.
\<close>

definition send_new :: "srv_cfg \<Rightarrow> (nat \<Rightarrow> ctx) \<Rightarrow> principal option \<Rightarrow> send_body \<Rightarrow> string \<Rightarrow> srv \<Rightarrow> handler_result" where
  "send_new cf E p b key s =
     (let v = new_message b (randomID cf (E 6)) (c_now (E 6)) key (scope_of p) (hashString cf key) in
      case PutMessage (srv_store cf) (E 3) v s of
        (Some e, s1) \<Rightarrow>
          (if key \<noteq> [] \<and> scope_of p \<noteq> []
           then db_query cf (E 4) (idem_row (scope_of p) (hashString cf key))
             (\<lambda>res. case res of Inr m \<Rightarrow> (already_queued m, s1) | Inl _ \<Rightarrow> (writeError 500 (err_text e), s1)) s1
           else (writeError 500 (err_text e), s1))
      | (None, s1) \<Rightarrow> enqueue_message cf (E 5) (job_of_message v) (m_JobID v)
          (queued_reply (m_ID v) ''Message queued for delivery'') s1)"

text \<open>From the idempotency key on; call 2 is the first look-up.\<close>

definition send_resolved :: "srv_cfg \<Rightarrow> (nat \<Rightarrow> ctx) \<Rightarrow> principal option \<Rightarrow> send_body \<Rightarrow> string \<Rightarrow> srv \<Rightarrow> handler_result" where
  "send_resolved cf E p b key s =
     (if key \<noteq> [] \<and> cf_db cf \<and> scope_of p \<noteq> []
      then db_query cf (E 2) (idem_row (scope_of p) (hashString cf key))
        (\<lambda>res. case res of Inr m \<Rightarrow> (already_queued m, s) | Inl _ \<Rightarrow> send_new cf E p b key s) s
      else send_new cf E p b key s)"

definition idempotency_key :: "request \<Rightarrow> string" where
  "idempotency_key r = trim_space (rq_header r ''Idempotency-Key'')"

definition template_body :: "srv_cfg \<Rightarrow> string \<Rightarrow> db \<Rightarrow> err + string" where
  "template_body cf i d = by_uuid cf i (\<lambda>u. scan_row (map_option tr_body (find (\<lambda>t. tr_id t = u) (t_templates d))))"

text \<open>The checks on the body, in their order; each answers 400.\<close>

definition send_invalid :: "send_body \<Rightarrow> string option" where
  "send_invalid b =
     (if sb_SessionID b = [] \<or> sb_To b = [] \<or> sb_Type b = []
      then Some ''sessionId, to, and type are required''
      else if sb_Type b \<notin> {''text'', ''image'', ''document'', ''pdf''}
      then Some ''type must be one of: text, image, document, pdf''
      else if length (sb_ReferenceID b) > 255
      then Some ''referenceId must not exceed 255 characters''
      else None)"

definition sendMessage :: "srv_cfg \<Rightarrow> handler" where
  "sendMessage cf E r p s =
     (case decode_send r of None \<Rightarrow> (writeError 400 ''sessionId, to, and type are required'', s)
      | Some b \<Rightarrow>
     (case send_invalid b of Some e \<Rightarrow> (writeError 400 e, s)
      | None \<Rightarrow>
     (case GetSession (srv_store cf) (E 0) (sb_SessionID b) s of
        Inl e \<Rightarrow> (writeError 500 (err_text e), s)
      | Inr None \<Rightarrow> (writeError 404 ''session not found'', s)
      | Inr (Some v) \<Rightarrow>
         if other_session p (sb_SessionID b)
         then (writeError 403 ''API key is restricted to another session'', s)
         else if sb_TemplateID b = [] then send_resolved cf E p b (idempotency_key r) s
         else db_query cf (E 1) (template_body cf (sb_TemplateID b))
           (\<lambda>res. case res of Inl e \<Rightarrow> (writeError 404 ''Template not found'', s)
             | Inr template \<Rightarrow> send_resolved cf E p
                 (b\<lparr>sb_Message := resolveTemplate (c_order (E 1)) template (sb_Variables b)\<rparr>)
                 (idempotency_key r) s) s)))"

section \<open>Listing\<close>

definition message_shown :: "srv_cfg \<Rightarrow> request \<Rightarrow> message \<Rightarrow> bool" where
  "message_shown cf r v =
     (let search = cf_lower cf (trim_space (rq_query r ''search'')); status = rq_query r ''status'';
          sessionID = rq_query r ''sessionId''
      in \<not> (status \<noteq> [] \<and> m_Status v \<noteq> status \<or> sessionID \<noteq> [] \<and> m_SessionID v \<noteq> sessionID
        \<or> search \<noteq> [] \<and> \<not> contains_sub (cf_lower cf (m_To v)) search
            \<and> \<not> contains_sub (cf_lower cf (m_Content v)) search))"

text \<open>\<open>filtered[start:end]\<close> with the 64-bit bounds of the code; a negative bound panics.\<close>

definition memory_page :: "int \<Rightarrow> int \<Rightarrow> 'a list \<Rightarrow> 'a list option" where
  "memory_page page limit xs =
     (let start0 = wrap64 ((page - 1) * limit);
          start = (if start0 > int (length xs) then int (length xs) else start0);
          end0 = wrap64 (start + limit);
          end' = (if end0 > int (length xs) then int (length xs) else end0)
      in if start < 0 \<or> end' < start then None
         else Some (take (nat (end' - start)) (drop (nat start) xs)))"

definition message_filter :: "srv_cfg \<Rightarrow> request \<Rightarrow> message_row \<Rightarrow> bool" where
  "message_filter cf r m =
     (let sessionID = trim_space (rq_query r ''sessionId''); status = trim_space (rq_query r ''status'');
          search = trim_space (rq_query r ''search'')
      in (sessionID = [] \<or> mr_session_id m = sessionID) \<and> (status = [] \<or> mr_status m = status)
        \<and> (search = [] \<or> cf_ilike cf (mr_to m) search \<or> cf_ilike cf (coalesce (mr_content m)) search))"

definition listMessages :: "srv_cfg \<Rightarrow> handler" where
  "listMessages cf E r p s =
     (let page = page_of r; limit = limit_of r in
      if \<not> cf_db cf then
        (case ListMessages (srv_store cf) (E 0) s of Inl e \<Rightarrow> (writeError 500 (err_text e), s)
         | Inr xs \<Rightarrow>
            let shown = filter (message_shown cf r) xs
            in case memory_page page limit shown of None \<Rightarrow> (Crash, s)
               | Some ys \<Rightarrow> (write_json 200 (page_json (map message_json ys) (length shown) page limit), s))
      else
        db_query cf (E 0) (\<lambda>d. Inr (length (filter (message_filter cf r) (t_messages d))))
          (\<lambda>res. case res of Inl e \<Rightarrow> (writeError 500 (err_text e), s)
           | Inr n \<Rightarrow>
              db_query cf (E 1) (\<lambda>d. page_rows page limit
                  (sort_key (\<lambda>m. - mr_created_at m) (filter (message_filter cf r) (t_messages d))))
                (\<lambda>res. case res of Inl e \<Rightarrow> (writeError 500 (err_text e), s)
                 | Inr rows \<Rightarrow> (write_json 200 (page_json (map (message_json \<circ> listed_message) rows) n page limit), s)) s) s)"

section \<open>One message\<close>

definition find_message :: "srv_cfg \<Rightarrow> string \<Rightarrow> db \<Rightarrow> err + message_row" where
  "find_message cf i d = by_uuid cf i (\<lambda>u. scan_row (find (\<lambda>m. mr_id m = u) (t_messages d)))"

definition message_details :: "message_row \<Rightarrow> json" where
  "message_details m = JObj [(''id'', JStr (mr_id m)), (''job_id'', JStr (coalesce (mr_job_id m))),
     (''session_id'', JStr (mr_session_id m)), (''to'', JStr (mr_to m)), (''type'', JStr (mr_type m)),
     (''content'', JStr (coalesce (mr_content m))), (''status'', JStr (mr_status m)),
     (''wa_message_id'', JStr (coalesce (mr_wa_message_id m))), (''error'', JStr (coalesce (mr_error m))),
     (''url'', JStr (coalesce (mr_url m))), (''filename'', JStr (coalesce (mr_filename m))),
     (''mime_type'', JStr (coalesce (mr_mime_type m))), (''created_at'', JTime (mr_created_at m)),
     (''queued_at'', JTime (mr_queued_at m)), (''sent_at'', time_json (mr_sent_at m)),
     (''delivered_at'', time_json (mr_delivered_at m)), (''read_at'', time_json (mr_read_at m)),
     (''updated_at'', JTime (mr_updated_at m))]"

definition row_error :: "string \<Rightarrow> err \<Rightarrow> reply" where
  "row_error text e = (if is_no_rows e then writeError 404 text else writeError 500 (err_text e))"

definition getMessage :: "srv_cfg \<Rightarrow> handler" where
  "getMessage cf E r p s = db_query cf (E 0) (find_message cf (rq_param r))
     (\<lambda>res. case res of Inl e \<Rightarrow> (row_error ''Message not found'' e, s)
       | Inr m \<Rightarrow> (write_json 200 (message_details m), s)) s"

text \<open>The columns the query selects, under a new identifier; the other fields are zero.\<close>

definition resent_message :: "message_row \<Rightarrow> string \<Rightarrow> time \<Rightarrow> message" where
  "resent_message m i now = zero_message\<lparr>m_ID := i, m_JobID := i, m_SessionID := mr_session_id m, m_To := mr_to m,
     m_Type := mr_type m, m_Content := coalesce (mr_content m), m_Status := ''queued'', m_CreatedAt := now\<rparr>"

definition resent_job :: "message \<Rightarrow> message_job" where
  "resent_job v = \<lparr>j_MessageID = m_ID v, j_SessionID = m_SessionID v, j_To = m_To v, j_Type = m_Type v,
     j_Content = m_Content v, j_URL = [], j_Filename = [], j_MIMEType = [], j_Priority = 0, j_Delay = 0\<rparr>"

definition resendMessage :: "srv_cfg \<Rightarrow> handler" where
  "resendMessage cf E r p s = db_query cf (E 0) (find_message cf (rq_param r))
     (\<lambda>res. case res of Inl e \<Rightarrow> (row_error ''Message not found'' e, s)
       | Inr m \<Rightarrow>
          let old = resent_message m (randomID cf (E 6)) (c_now (E 6)) in
          (case PutMessage (srv_store cf) (E 3) old s of
             (Some e, s1) \<Rightarrow> (writeError 500 (err_text e), s1)
           | (None, s1) \<Rightarrow> enqueue_message cf (E 5) (resent_job old) (m_JobID old)
               (queued_reply (m_ID old) ''Message requeued'') s1)) s"

definition deleteMessage :: "srv_cfg \<Rightarrow> handler" where
  "deleteMessage cf E r p s = db_query cf (E 0) (find_message cf (rq_param r))
     (\<lambda>res. case res of Inl e \<Rightarrow> (row_error ''Message not found'' e, s)
       | Inr m \<Rightarrow>
          if mr_status m = ''queued'' \<or> mr_status m = ''processing''
          then (writeError 409 ''Message cannot be deleted while queued or processing'', s)
          else db_exec cf (E 1) (\<lambda>d. case cf_uuid cf (rq_param r) of None \<Rightarrow> (Inl invalid_text, d)
                | Some u \<Rightarrow> (Inr (), delete_message_rows u d))
            (\<lambda>res s1. case res of Inl e \<Rightarrow> (writeError 500 (err_text e), s1)
              | Inr _ \<Rightarrow> (write_json 200 (done_text ''Message deleted''), s1)) s) s"

section \<open>The invariant is kept\<close>

lemma enqueue_message_cases:
  assumes "enqueue_message cf c job i ok s = (rep, s')"
  shows "(rep = ok \<and> s' = s\<lparr>sv_tasks := sv_tasks s @ (if cf_queue cf = AsynqQueue then [task_of job i] else [])\<rparr>)
    \<or> (rep = writeError 503 ''message queue unavailable'' \<and> s' = s)"
  using assms
  by (auto simp: enqueue_message_def srv_enqueue_def nop_queue_def Nop_Enqueue_def asynq_queue_def asynq_Enqueue_def
      split: queue_kind.splits option.splits prod.splits)

lemma enqueue_message_ok: "srv_ok cf s \<Longrightarrow> srv_ok cf (snd (enqueue_message cf c job i ok s))"
  by (cases "enqueue_message cf c job i ok s") (auto dest!: enqueue_message_cases)

lemma send_new_ok:
  assumes "uuid_canonical (cf_uuid cf)" "srv_ok cf s"
  shows "srv_ok cf (snd (send_new cf E p b key s))"
proof -
  let ?v = "new_message b (randomID cf (E 6)) (c_now (E 6)) key (scope_of p) (hashString cf key)"
  obtain r s1 where put: "PutMessage (srv_store cf) (E 3) ?v s = (r, s1)" by force
  have "srv_ok cf s1" using srv_PutMessage_ok [OF assms, of "E 3" ?v] put by simp
  then show ?thesis
    by (auto simp: send_new_def Let_def put enqueue_message_ok intro!: db_query_ok split: option.split sum.split)
qed

lemma send_resolved_ok:
  "uuid_canonical (cf_uuid cf) \<Longrightarrow> srv_ok cf s \<Longrightarrow> srv_ok cf (snd (send_resolved cf E p b key s))"
  by (auto simp: send_resolved_def send_new_ok intro!: db_query_ok split: sum.split)

lemma sendMessage_ok:
  "uuid_canonical (cf_uuid cf) \<Longrightarrow> srv_ok cf s \<Longrightarrow> srv_ok cf (snd (sendMessage cf E r p s))"
  by (auto simp: sendMessage_def send_resolved_ok intro!: db_query_ok split: option.split sum.split)

lemma listMessages_same: "snd (listMessages cf E r p s) = s"
  by (auto simp: listMessages_def Let_def intro!: db_query_same split: option.split sum.split)

lemma getMessage_same: "snd (getMessage cf E r p s) = s"
  by (auto simp: getMessage_def intro!: db_query_same split: sum.split)

lemma resendMessage_ok:
  assumes "uuid_canonical (cf_uuid cf)" "srv_ok cf s"
  shows "srv_ok cf (snd (resendMessage cf E r p s))"
  using assms srv_PutMessage_ok [OF assms]
  by (auto simp: resendMessage_def Let_def enqueue_message_ok intro!: db_query_ok split: option.split sum.split prod.split)
     (metis enqueue_message_ok snd_conv)+

lemma delete_message_rows_pg_ok: "pg_ok u d \<Longrightarrow> pg_ok u (delete_message_rows i d)"
  by (auto simp: pg_ok_def delete_message_rows_ok) (auto simp: delete_message_rows_def)

lemma deleteMessage_ok: "srv_ok cf s \<Longrightarrow> srv_ok cf (snd (deleteMessage cf E r p s))"
  by (auto simp: deleteMessage_def srv_ok_pg delete_message_rows_pg_ok
      intro!: db_query_ok db_exec_ok split: option.split sum.split)

section \<open>Idempotency\<close>

lemma idem_row_unique:
  assumes "db_ok d" "m \<in> set (t_messages d)" "idem_key m = Some (scope, h)"
  shows "idem_row scope h d = Inr m"
proof -
  have m: "mr_idempotency_scope m = Some scope \<and> mr_idempotency_key_hash m = Some h"
    using assms(3) by (auto simp: idem_key_def split: if_splits)
  then obtain x where x: "find (\<lambda>m. mr_idempotency_scope m = Some scope \<and> mr_idempotency_key_hash m = Some h) (t_messages d) = Some x"
    using assms(2) by (cases "find (\<lambda>m. mr_idempotency_scope m = Some scope \<and> mr_idempotency_key_hash m = Some h) (t_messages d)")
      (auto simp: find_None_iff)
  then have "idem_key x = Some (scope, h)" "x \<in> set (t_messages d)"
    by (auto simp: idem_key_def dest!: find_SomeD)
  then have "x = m" using idem_keys_unique [of "t_messages d"] assms by (auto simp: db_ok_def idem_ok_def)
  with x show ?thesis by (simp add: idem_row_def scan_row_def)
qed

text \<open>A message whose idempotency key is taken is never stored.\<close>

lemma pg_PutMessage_taken:
  assumes "m \<in> set (t_messages d)" "idem_key m = Some (scope, h)"
    and "m_IdempotencyScope v = scope" "m_IdempotencyKeyHash v = h" "scope \<noteq> []" "h \<noteq> []"
  shows "\<exists>e. pg_PutMessage u c v d = (Some e, d)"
proof (cases "pg_PutMessage u c v d")
  case (Pair r d')
  show ?thesis
  proof (cases r)
    case None
    with Pair obtain i t where ins: "insert_message (message_row_of i t (c_now c) v) d
        = Inr (d\<lparr>t_messages := t_messages d @ [message_row_of i t (c_now c) v]\<rparr>)"
      by (auto dest!: pg_PutMessage_None)
    have "idem_key (message_row_of i t (c_now c) v) = Some (scope, h)"
      using assms by (simp add: idem_key_def message_row_of_def nullif_def)
    with ins assms(1,2) have False by (auto simp: insert_message_Inr image_iff set_idem_keys)
    then show ?thesis ..
  qed (use Pair in \<open>auto dest: pg_PutMessage_Some\<close>)
qed

lemma srv_PutMessage_db: "cf_db cf \<Longrightarrow> PutMessage (srv_store cf) c v s
    = (case pg_PutMessage (cf_uuid cf) c v (srv_db s) of (r, d) \<Rightarrow> (r, put_srv_db d s))"
  by (simp add: srv_store_def lift_write_def)

text \<open>The race: the request that looks up before and inserts after the other one's insert.\<close>

lemma send_new_taken:
  assumes "cf_db cf" "db_ok (srv_db s)" "m \<in> set (t_messages (srv_db s))"
    and "idem_key m = Some (scope_of p, hashString cf key)" "key \<noteq> []" "scope_of p \<noteq> []" "hashString cf key \<noteq> []"
    and "c_fault (E 4) 0 = None"
  shows "send_new cf E p b key s = (already_queued m, s)"
proof -
  let ?v = "new_message b (randomID cf (E 6)) (c_now (E 6)) key (scope_of p) (hashString cf key)"
  obtain e where "pg_PutMessage (cf_uuid cf) (E 3) ?v (srv_db s) = (Some e, srv_db s)"
    using pg_PutMessage_taken [of m "srv_db s" "scope_of p" "hashString cf key" ?v] assms
    by (auto simp: new_message_def)
  then show ?thesis
    using assms idem_row_unique [OF assms(2-4)]
    by (simp add: send_new_def Let_def srv_PutMessage_db db_query_def)
qed

lemma send_resolved_taken:
  assumes "cf_db cf" "db_ok (srv_db s)" "m \<in> set (t_messages (srv_db s))"
    and "idem_key m = Some (scope_of p, hashString cf key)" "key \<noteq> []" "scope_of p \<noteq> []" "hashString cf key \<noteq> []"
    and "c_fault (E 4) 0 = None"
  shows "send_resolved cf E p b key s = (already_queued m, s)"
  using assms send_new_taken [of cf s m p key E b] idem_row_unique [OF assms(2-4)]
  by (simp add: send_resolved_def db_query_def split: option.split)

section \<open>What a request to send leaves behind\<close>

lemma status_replies [simp]:
  "reply_status (already_queued m) = Some 200" "reply_status (queued_reply i t) = Some 202"
  by (simp_all add: already_queued_def queued_reply_def)

lemma decode_job_data:
  assumes "int8 (m_Priority v)" "int8 (m_Delay v)"
  shows "decode_job (job_data v) = Inr (job_of_message v)"
  using assms by (simp add: decode_job_def decode_fields_def job_data_def job_of_message_def str_field_def int_field_def)

lemma int4_int8: "int4 i \<Longrightarrow> int8 i"
  by (simp add: int4_def int8_def)

text \<open>The message a body becomes, up to the text a template gave.\<close>

definition message_for :: "srv_cfg \<Rightarrow> (nat \<Rightarrow> ctx) \<Rightarrow> request \<Rightarrow> principal option \<Rightarrow> send_body \<Rightarrow> string \<Rightarrow> message" where
  "message_for cf E r p b body = new_message (b\<lparr>sb_Message := body\<rparr>) (randomID cf (E 6)) (c_now (E 6)) (idempotency_key r)
     (scope_of p) (hashString cf (idempotency_key r))"

text \<open>Either nothing was stored, or the message was stored and handed to the queue.\<close>

definition stored_reply :: "srv_cfg \<Rightarrow> (nat \<Rightarrow> ctx) \<Rightarrow> message \<Rightarrow> srv \<Rightarrow> reply \<Rightarrow> srv \<Rightarrow> bool" where
  "stored_reply cf E v s rep s' \<longleftrightarrow> (\<exists>d. pg_PutMessage (cf_uuid cf) (E 3) v (srv_db s) = (None, d)
     \<and> enqueue_message cf (E 5) (job_of_message v) (m_JobID v)
         (queued_reply (m_ID v) ''Message queued for delivery'') (put_srv_db d s) = (rep, s'))"

definition nothing_stored :: "srv \<Rightarrow> reply \<Rightarrow> srv \<Rightarrow> bool" where
  "nothing_stored s rep s' \<longleftrightarrow> s' = s \<and> reply_status rep \<in> Some ` {200, 400, 403, 404, 500}"

lemma send_new_cases:
  assumes "cf_db cf" "send_new cf E p (b\<lparr>sb_Message := body\<rparr>) (idempotency_key r) s = (rep, s')"
  shows "nothing_stored s rep s' \<or> stored_reply cf E (message_for cf E r p b body) s rep s'"
proof (cases "pg_PutMessage (cf_uuid cf) (E 3) (message_for cf E r p b body) (srv_db s)")
  case (Pair res d)
  show ?thesis
  proof (cases res)
    case None
    with assms Pair show ?thesis
      by (auto simp: send_new_def Let_def srv_PutMessage_db stored_reply_def message_for_def)
  next
    case (Some e)
    then have "d = srv_db s" using Pair pg_PutMessage_Some by blast
    with assms Pair Some show ?thesis
      by (auto simp: send_new_def Let_def srv_PutMessage_db nothing_stored_def message_for_def db_query_def
          split: if_splits sum.splits)
  qed
qed

lemma send_resolved_cases:
  assumes "cf_db cf" "send_resolved cf E p (b\<lparr>sb_Message := body\<rparr>) (idempotency_key r) s = (rep, s')"
  shows "nothing_stored s rep s' \<or> stored_reply cf E (message_for cf E r p b body) s rep s'"
  using assms send_new_cases [OF assms(1)]
  by (auto simp: send_resolved_def db_query_def nothing_stored_def split: if_splits sum.splits option.splits)

lemma sendMessage_cases:
  assumes "cf_db cf" "sendMessage cf E r p s = (rep, s')"
  shows "nothing_stored s rep s'
    \<or> (\<exists>b body. decode_send r = Some b \<and> \<not> other_session p (sb_SessionID b)
        \<and> stored_reply cf E (message_for cf E r p b body) s rep s')"
proof (cases "nothing_stored s rep s'")
  case False
  have "\<exists>b. decode_send r = Some b \<and> \<not> other_session p (sb_SessionID b)
      \<and> (send_resolved cf E p b (idempotency_key r) s = (rep, s')
        \<or> (\<exists>body. send_resolved cf E p (b\<lparr>sb_Message := body\<rparr>) (idempotency_key r) s = (rep, s')))"
    using assms False unfolding sendMessage_def db_query_def nothing_stored_def
    by (auto split: option.splits sum.splits if_splits)
  moreover have "b = b\<lparr>sb_Message := sb_Message b\<rparr>" for b :: send_body by simp
  ultimately obtain b body where b: "decode_send r = Some b" "\<not> other_session p (sb_SessionID b)"
    "send_resolved cf E p (b\<lparr>sb_Message := body\<rparr>) (idempotency_key r) s = (rep, s')"
    by metis
  with False send_resolved_cases [OF assms(1) b(3)] show ?thesis by blast
qed simp

text \<open>
  The idempotency key.  When a message with the caller's scope and key exists, \<open>sendMessage\<close> changes
  nothing and answers 200 with that message, or refuses the request because of its body, its session, its
  template or the database; and the same holds for a request that had looked the key up before the
  message was stored and inserts after it (\<open>send_new\<close>): whatever its body, it finds the stored message.
\<close>

theorem send_idempotent:
  assumes "cf_db cf" "srv_ok cf s" "m \<in> set (t_messages (srv_db s))"
    and "idem_key m = Some (scope_of (Some q), hashString cf (idempotency_key r))"
    and "idempotency_key r \<noteq> []" "hashString cf (idempotency_key r) \<noteq> []" "c_fault (E 4) 0 = None"
  shows "snd (sendMessage cf E r (Some q) s) = s
    \<and> (fst (sendMessage cf E r (Some q) s) = already_queued m
      \<or> reply_status (fst (sendMessage cf E r (Some q) s)) \<in> Some ` {400, 403, 404, 500})
    \<and> send_new cf E (Some q) b (idempotency_key r) s = (already_queued m, s)"
proof -
  have "scope_of (Some q) \<noteq> []" by (simp add: scope_of_def)
  note taken = assms(1) srv_ok_db [OF assms(2)] assms(3-5) this assms(6,7)
  have new: "send_new cf E (Some q) b (idempotency_key r) s = (already_queued m, s)"
    using send_new_taken [of cf s m "Some q" "idempotency_key r" E b] taken by blast
  have res: "send_resolved cf E (Some q) b' (idempotency_key r) s = (already_queued m, s)" for b'
    using send_resolved_taken [of cf s m "Some q" "idempotency_key r" E b'] taken by blast
  have "snd (sendMessage cf E r (Some q) s) = s"
    by (auto simp: sendMessage_def res intro!: db_query_same split: option.split sum.split)
  moreover have "fst (sendMessage cf E r (Some q) s) = already_queued m
      \<or> reply_status (fst (sendMessage cf E r (Some q) s)) \<in> Some ` {400, 403, 404, 500}"
    using assms(1) by (auto simp: sendMessage_def res db_query_def split: option.split sum.split)
  ultimately show ?thesis using new by blast
qed

text \<open>A stored message with the key of user \<open>u1\<close>, and requests for the concrete examples.\<close>

definition sample_keyed_row :: message_row where
  "sample_keyed_row = message_row_of ''m1'' None 0
     (sample_message\<lparr>m_IdempotencyScope := ''user:u1'', m_IdempotencyKeyHash := hex_encode ''k1''\<rparr>)"

definition sample_sent :: srv where
  "sample_sent = put_srv_db (sample_db\<lparr>t_messages := [sample_keyed_row]\<rparr>) sample_srv"

definition sample_send :: request where
  "sample_send = sample_request [(''Idempotency-Key'', ''k1'')] [] []
     [(''sessionId'', JStr ''main''), (''to'', JStr ''62812''), (''type'', JStr ''text''), (''message'', JStr ''hi'')]"

lemma sample_sent_ok: "srv_ok sample_cfg sample_sent"
  by (simp add: sample_sent_def srv_ok_parts pg_ok_def db_ok_defs memory_ok_new NewBroker_ok NewSessionManager_ok
      sample_keyed_row_def message_row_of_def idem_key_def sample_message_def zero_message_def nullif_def refs_def)

lemma sample_send_key: "idempotency_key sample_send = ''k1''"
  by (simp add: idempotency_key_def sample_send_def trim_space_def space_seqs_def strip_front.simps)

theorem send_idempotent_witness:
  "snd (sendMessage sample_cfg (\<lambda>_. sample_ctx) sample_send (Some sample_user) sample_sent) = sample_sent
   \<and> (fst (sendMessage sample_cfg (\<lambda>_. sample_ctx) sample_send (Some sample_user) sample_sent) = already_queued sample_keyed_row
     \<or> reply_status (fst (sendMessage sample_cfg (\<lambda>_. sample_ctx) sample_send (Some sample_user) sample_sent)) \<in> Some ` {400, 403, 404, 500})"
proof -
  have "idem_key sample_keyed_row = Some (scope_of (Some sample_user), hashString sample_cfg (idempotency_key sample_send))"
    by (simp add: sample_send_key hashString_def scope_of_def sample_user_def sample_keyed_row_def idem_key_def
        message_row_of_def nullif_def)
  then show ?thesis
    using send_idempotent [of sample_cfg sample_sent sample_keyed_row sample_user sample_send "\<lambda>_. sample_ctx"] sample_sent_ok
    by (simp add: sample_send_key hashString_def) (simp add: sample_sent_def)
qed

text \<open>
  C4.  An accepted message.  When \<open>sendMessage\<close> answers 202 on the PostgreSQL store, exactly one message and
  one queue job were added, in one transaction, for the session, recipient and type of the body and in a
  session the caller may use; the message is \<open>queued\<close>, the job \<open>waiting\<close>, and the queue got one task under
  the job's identifier whose payload decodes to the same job as the row in \<open>queue_jobs\<close>.  When it answers
  503 the same rows were stored and the queue got nothing.  On any other answer nothing changed.
\<close>

theorem send_outcome:
  assumes "cf_db cf" "srv_ok cf s" "sendMessage cf E r p s = (rep, s')"
  shows "(s' = s \<and> reply_status rep \<in> Some ` {200, 400, 403, 404, 500})
    \<or> (reply_status rep \<in> Some ` {202, 503}
        \<and> (\<exists>b m j job. decode_send r = Some b
          \<and> srv_db s' = (srv_db s)\<lparr>t_messages := t_messages (srv_db s) @ [m], t_queue_jobs := t_queue_jobs (srv_db s) @ [j]\<rparr>
          \<and> mr_session_id m = sb_SessionID b \<and> mr_to m = sb_To b \<and> mr_type m = sb_Type b \<and> mr_status m = ''queued''
          \<and> \<not> other_session p (mr_session_id m) \<and> mr_session_id m \<in> sr_session_id ` set (t_sessions (srv_db s))
          \<and> qj_status j = ''waiting'' \<and> mr_job_id m = Some (qj_job_id j)
          \<and> decode_job (qj_data j) = Inr job \<and> decode_job (tk_payload (task_of job (qj_job_id j))) = Inr job
          \<and> sv_tasks s' = sv_tasks s @ (if cf_queue cf = AsynqQueue \<and> reply_status rep = Some 202
              then [task_of job (qj_job_id j)] else [])))"
proof (cases "nothing_stored s rep s'")
  case True
  then show ?thesis by (simp add: nothing_stored_def)
next
  case False
  then obtain b body where b: "decode_send r = Some b" "\<not> other_session p (sb_SessionID b)"
    and st: "stored_reply cf E (message_for cf E r p b body) s rep s'"
    using sendMessage_cases [OF assms(1,3)] by blast
  define v where "v = message_for cf E r p b body"
  have v: "m_SessionID v = sb_SessionID b" "m_To v = sb_To b" "m_Type v = sb_Type b" "m_Status v = ''queued''"
    by (simp_all add: v_def message_for_def new_message_def)
  from st obtain d where put: "pg_PutMessage (cf_uuid cf) (E 3) v (srv_db s) = (None, d)"
    and enq: "enqueue_message cf (E 5) (job_of_message v) (m_JobID v)
        (queued_reply (m_ID v) ''Message queued for delivery'') (put_srv_db d s) = (rep, s')"
    by (auto simp: stored_reply_def v_def)
  from pg_PutMessage_None [OF put] obtain i t where row: "int4 (m_Priority v)" "int4 (m_Delay v)"
    "insert_message (message_row_of i t (c_now (E 3)) v) (srv_db s)
      = Inr ((srv_db s)\<lparr>t_messages := t_messages (srv_db s) @ [message_row_of i t (c_now (E 3)) v]\<rparr>)"
    "d = (srv_db s)\<lparr>t_messages := t_messages (srv_db s) @ [message_row_of i t (c_now (E 3)) v],
        t_queue_jobs := t_queue_jobs (srv_db s) @ [job_row_of (c_gen (E 3)) (c_now (E 3)) v]\<rparr>" by blast
  have job: "decode_job (job_data v) = Inr (job_of_message v)"
    using row(1,2) by (simp add: decode_job_data int4_int8)
  have task: "decode_job (tk_payload (task_of (job_of_message v) k)) = Inr (job_of_message v)" for k
    using row(1,2) by (simp add: task_of_def decode_encode_job int4_int8 job_of_message_def)
  have "m_SessionID v \<in> sr_session_id ` set (t_sessions (srv_db s))"
    using row(3) by (auto simp: insert_message_Inr message_row_of_def)
  with enqueue_message_cases [OF enq] b v row(4) job task show ?thesis
    by (intro disjI2 conjI exI [of _ b] exI [of _ "message_row_of i t (c_now (E 3)) v"]
        exI [of _ "job_row_of (c_gen (E 3)) (c_now (E 3)) v"] exI [of _ "job_of_message v"])
      (auto simp: message_row_of_def job_row_of_def)
qed

definition sample_body :: send_body where
  "sample_body = \<lparr>sb_SessionID = ''main'', sb_To = ''62812'', sb_Type = ''text'', sb_Message = ''hi'',
     sb_TemplateID = [], sb_Variables = [], sb_ReferenceID = [], sb_SourceType = [], sb_SourceID = [], sb_URL = [],
     sb_Filename = [], sb_MIMEType = [], sb_Priority = 0, sb_Delay = 0\<rparr>"

lemma sample_send_body: "decode_send sample_send = Some sample_body"
  by (simp add: decode_send_def sample_send_def sample_body_def dec_str_def dec_int_def dec_map_def str_field_def
      int_field_def)

theorem send_outcome_witness:
  "reply_status (fst (sendMessage sample_cfg (\<lambda>_. sample_ctx) sample_send (Some sample_user) sample_srv)) = Some 202
   \<and> length (sv_tasks (snd (sendMessage sample_cfg (\<lambda>_. sample_ctx) sample_send (Some sample_user) sample_srv))) = 1"
proof -
  define x where "x = sendMessage sample_cfg (\<lambda>_. sample_ctx) sample_send (Some sample_user) sample_srv"
  have "reply_status (fst x) = Some 202"
    by (simp add: x_def sendMessage_def sample_send_body sample_body_def send_invalid_def srv_store_def pg_GetSession_def
        other_session_def sample_user_def sample_send_key send_resolved_def db_query_def idem_row_def scan_row_def
        send_new_def new_message_def zero_message_def scope_of_def hashString_def lift_write_def pg_PutMessage_def
        put_message_row_def put_job_row_def template_ref_def insert_message_def insert_queue_job_def message_row_of_def
        idem_key_def nullif_def int4_def enqueue_message_def srv_enqueue_def asynq_queue_def asynq_Enqueue_def Let_def)
  with send_outcome [of sample_cfg sample_srv "\<lambda>_. sample_ctx" sample_send "Some sample_user" "fst x" "snd x"]
  show ?thesis by (auto simp: x_def)
qed

section \<open>Paging\<close>

lemma page_range: "1 \<le> page_of r" "1 \<le> limit_of r" "limit_of r \<le> 100"
  by (simp_all add: page_of_def limit_of_def split: option.split)

lemma memory_page_cases:
  assumes "1 \<le> limit" "limit \<le> 100" "int8 (int (length xs) + 100)"
  shows "memory_page page limit xs = (let off = wrap64 ((page - 1) * limit)
    in if off < 0 then None else Some (take (nat limit) (drop (nat off) xs)))"
proof -
  let ?off = "wrap64 ((page - 1) * limit)"
  show ?thesis
  proof (cases "?off > int (length xs)")
    case True
    with assms have "wrap64 (int (length xs) + limit) = int (length xs) + limit"
      by (intro wrap64_id) (auto simp: int8_def)
    with True assms(1) show ?thesis by (simp add: memory_page_def Let_def)
  next
    case False
    then have "wrap64 (?off + limit) = ?off + limit"
      using assms wrap64_range [of "(page - 1) * limit"] by (intro wrap64_id) (auto simp: int8_def)
    moreover have "take (nat (int (length xs) - ?off)) (drop (nat ?off) xs) = take (nat limit) (drop (nat ?off) xs)"
      if "?off + limit > int (length xs)" "0 \<le> ?off" using that by simp
    ultimately show ?thesis using False assms(1) by (auto simp: memory_page_def Let_def not_less)
  qed
qed

text \<open>The messages a list request selects, in the order of the list.\<close>

definition listed_rows :: "srv_cfg \<Rightarrow> ctx \<Rightarrow> request \<Rightarrow> srv \<Rightarrow> json list" where
  "listed_rows cf c r s = (if cf_db cf
     then map (message_json \<circ> listed_message) (sort_key (\<lambda>m. - mr_created_at m) (filter (message_filter cf r) (t_messages (srv_db s))))
     else map message_json (filter (message_shown cf r) (map snd (iterate c (mem_messages (sv_mem s))))))"

text \<open>
  C33.  The list of messages.  The page is at least 1 and the limit between 1 and 100 whatever the query
  says, and nothing changes.  The offset is \<open>(page-1)*limit\<close> as a 64-bit integer: the product itself
  when it fits, otherwise what it wraps to.  From a non-negative offset on, the answer holds the selected
  rows, at most \<open>limit\<close> of them, with the number of all selected rows; a negative offset, which only a
  wrapped product can be, is a panic with the in-memory store and a 500 with PostgreSQL.
\<close>

theorem list_pages:
  assumes "no_fault (E 0)" "no_fault (E 1)" "int8 (int (length (listed_rows cf (E 0) r s)) + 100)"
  shows "1 \<le> page_of r \<and> 1 \<le> limit_of r \<and> limit_of r \<le> 100
    \<and> (let off = wrap64 ((page_of r - 1) * limit_of r) in
        (int8 ((page_of r - 1) * limit_of r) \<longrightarrow> off = (page_of r - 1) * limit_of r \<and> 0 \<le> off)
        \<and> listMessages cf E r p s =
          (if off < 0 then (if cf_db cf then writeError 500 ''OFFSET must not be negative'' else Crash)
           else write_json 200 (page_json (take (nat (limit_of r)) (drop (nat off) (listed_rows cf (E 0) r s)))
             (length (listed_rows cf (E 0) r s)) (page_of r) (limit_of r)), s))"
proof -
  let ?p = "page_of r" and ?l = "limit_of r"
  have "listMessages cf E r p s =
      (let off = wrap64 ((?p - 1) * ?l) in
       (if off < 0 then (if cf_db cf then writeError 500 ''OFFSET must not be negative'' else Crash)
        else write_json 200 (page_json (take (nat ?l) (drop (nat off) (listed_rows cf (E 0) r s)))
          (length (listed_rows cf (E 0) r s)) ?p ?l), s))"
  proof (cases "cf_db cf")
    case True
    with assms(1,2) show ?thesis
      by (simp add: listMessages_def db_query_def page_rows_def listed_rows_def negative_offset_def Let_def
          take_map drop_map)
  next
    case False
    let ?xs = "filter (message_shown cf r) (map snd (iterate (E 0) (mem_messages (sv_mem s))))"
    have "memory_page ?p ?l ?xs = (let off = wrap64 ((?p - 1) * ?l) in if off < 0 then None else Some (take (nat ?l) (drop (nat off) ?xs)))"
      using assms(3) False page_range by (intro memory_page_cases) (simp_all add: listed_rows_def)
    with False show ?thesis
      by (simp add: listMessages_def srv_store_def mem_ListMessages_def listed_rows_def Let_def take_map drop_map)
  qed
  then show ?thesis using page_range [of r] by (auto simp: Let_def wrap64_id)
qed

theorem list_pages_witness:
  "listMessages sample_cfg (\<lambda>_. sample_ctx) (sample_request [] [(''page'', ''2'')] [] []) None sample_sent
   = (write_json 200 (page_json [] 1 2 20), sample_sent)"
proof -
  let ?r = "sample_request [] [(''page'', ''2'')] [] []"
  have r: "page_of ?r = 2" "limit_of ?r = 20"
    by (simp_all add: page_of_def limit_of_def Atoi_def digit_val_def int8_def Let_def)
  have l: "length (listed_rows sample_cfg sample_ctx ?r sample_sent) = 1"
    by (simp add: listed_rows_def sample_sent_def message_filter_def Let_def)
  have "wrap64 20 = 20" by (simp add: wrap64_id int8_def)
  with r l list_pages [of "\<lambda>_. sample_ctx" sample_cfg ?r sample_sent None] show ?thesis by (simp add: int8_def Let_def)
qed

text \<open>A page number that wraps to the offset 0: page \<open>2 ^ 62 + 1\<close> with four rows per page is the first page.\<close>

lemma list_page_wraps:
  "page_of r = 2 ^ 62 + 1 \<Longrightarrow> limit_of r = 4 \<Longrightarrow> wrap64 ((page_of r - 1) * limit_of r) = 0"
  "page_of (sample_request [] [(''page'', ''4611686018427387905'')] [] []) = 2 ^ 62 + 1"
  by (simp_all add: wrap64_def page_of_def Atoi_def digit_val_def int8_def Let_def)

section \<open>Deleting and resending\<close>

lemma find_message_Inr:
  "find_message cf i d = Inr m \<Longrightarrow> cf_uuid cf i = Some (mr_id m) \<and> m \<in> set (t_messages d)"
  by (auto simp: find_message_def by_uuid_def scan_row_def dest: find_SomeD split: option.splits)

lemma row_error_status: "reply_status (row_error t e) \<in> {Some 404, Some 500}"
  by (simp add: row_error_def)

lemma delete_message_rows_keeps:
  "x \<in> set (t_messages (delete_message_rows i d)) \<longleftrightarrow> x \<in> set (t_messages d) \<and> mr_id x \<noteq> i"
  by (simp add: delete_message_rows_def)

lemma delete_message_status:
  assumes "srv_ok cf s" "deleteMessage cf E r p s = (rep, s')" "cf_db cf" "no_fault (E 0)" "no_fault (E 1)"
    and u: "cf_uuid cf (rq_param r) = Some u"
  shows "reply_status rep = Some (if u \<notin> mr_id ` set (t_messages (srv_db s)) then 404
    else if \<exists>m \<in> set (t_messages (srv_db s)). mr_id m = u \<and> mr_status m \<in> {''queued'', ''processing''} then 409 else 200)"
proof (cases "find (\<lambda>m. mr_id m = u) (t_messages (srv_db s))")
  case None
  then have "u \<notin> mr_id ` set (t_messages (srv_db s))" by (auto simp: find_None_iff)
  with None assms show ?thesis
    by (auto simp: deleteMessage_def db_query_def find_message_def by_uuid_def scan_row_def row_error_def)
next
  case (Some m)
  then have m: "m \<in> set (t_messages (srv_db s))" "mr_id m = u" by (auto dest: find_SomeD)
  have "x = m" if "x \<in> set (t_messages (srv_db s))" "mr_id x = u" for x
    using that m srv_ok_db [OF assms(1)] by (auto simp: db_ok_def keys_ok_def distinct_map inj_on_def)
  then have "(\<exists>x \<in> set (t_messages (srv_db s)). mr_id x = u \<and> mr_status x \<in> {''queued'', ''processing''})
      \<longleftrightarrow> mr_status m \<in> {''queued'', ''processing''}" using m by blast
  moreover have "u \<in> mr_id ` set (t_messages (srv_db s))" using m by force
  ultimately show ?thesis using Some assms
    by (auto simp: deleteMessage_def db_query_def db_exec_def find_message_def by_uuid_def scan_row_def split: if_splits)
qed

text \<open>
  C31.  Deleting a message.  A message that is queued or being processed survives every call of
  \<open>deleteMessage\<close>; an answer other than 200 changes nothing; after 200 exactly the named message, which was
  neither queued nor being processed, is gone.  Without faults of the database the answer to a well-formed
  identifier is 404 when there is no such message, 409 while it is queued or being processed, and 200 otherwise.
\<close>

theorem delete_message_guarded:
  assumes "srv_ok cf s" "deleteMessage cf E r p s = (rep, s')"
  shows "(\<forall>m \<in> set (t_messages (srv_db s)). mr_status m \<in> {''queued'', ''processing''} \<longrightarrow> m \<in> set (t_messages (srv_db s')))
    \<and> (reply_status rep \<noteq> Some 200 \<longrightarrow> s' = s)
    \<and> (reply_status rep = Some 200 \<longrightarrow> (\<exists>m \<in> set (t_messages (srv_db s)). cf_uuid cf (rq_param r) = Some (mr_id m)
        \<and> mr_status m \<notin> {''queued'', ''processing''}
        \<and> srv_db s' = delete_message_rows (mr_id m) (srv_db s)))
    \<and> (cf_db cf \<longrightarrow> no_fault (E 0) \<longrightarrow> no_fault (E 1) \<longrightarrow> (\<forall>u. cf_uuid cf (rq_param r) = Some u \<longrightarrow>
        reply_status rep = Some (if u \<notin> mr_id ` set (t_messages (srv_db s)) then 404
          else if \<exists>m \<in> set (t_messages (srv_db s)). mr_id m = u \<and> mr_status m \<in> {''queued'', ''processing''} then 409
          else 200)))"
proof (cases "s' = s \<and> reply_status rep \<noteq> Some 200")
  case False
  let ?res = "case c_fault (E 0) 0 of Some e \<Rightarrow> Inl e | None \<Rightarrow> find_message cf (rq_param r) (srv_db s)"
  have err: "row_error t e = rep \<Longrightarrow> reply_status rep \<noteq> Some 200" for t e
    using row_error_status [of t e] by auto
  have "\<exists>m. ?res = Inr m \<and> mr_status m \<notin> {''queued'', ''processing''} \<and> reply_status rep = Some 200
      \<and> s' = put_srv_db (delete_message_rows (mr_id m) (srv_db s)) s"
    using assms(2) False err
    by (auto simp: deleteMessage_def db_query_def db_exec_def dest!: find_message_Inr
        split: option.splits sum.splits if_splits)
  then obtain m where m: "find_message cf (rq_param r) (srv_db s) = Inr m" "mr_status m \<notin> {''queued'', ''processing''}"
    "reply_status rep = Some 200" "s' = put_srv_db (delete_message_rows (mr_id m) (srv_db s)) s"
    by (auto split: option.splits)
  then have in_db: "cf_uuid cf (rq_param r) = Some (mr_id m)" "m \<in> set (t_messages (srv_db s))"
    by (auto dest: find_message_Inr)
  have "x = m" if "x \<in> set (t_messages (srv_db s))" "mr_id x = mr_id m" for x
    using that in_db(2) srv_ok_db [OF assms(1)] by (auto simp: db_ok_def keys_ok_def distinct_map inj_on_def)
  with m in_db show ?thesis using delete_message_status [OF assms] by (auto simp: delete_message_rows_keeps)
qed (use delete_message_status [OF assms] in auto)

theorem delete_message_guarded_witness:
  "deleteMessage sample_cfg (\<lambda>_. sample_ctx) (sample_request [] [] ''m1'' []) None sample_sent
     = (writeError 409 ''Message cannot be deleted while queued or processing'', sample_sent)
   \<and> sample_keyed_row \<in> set (t_messages (srv_db (snd (deleteMessage sample_cfg (\<lambda>_. sample_ctx) (sample_request [] [] ''m1'' []) None sample_sent))))"
proof -
  have run: "deleteMessage sample_cfg (\<lambda>_. sample_ctx) (sample_request [] [] ''m1'' []) None sample_sent
     = (writeError 409 ''Message cannot be deleted while queued or processing'', sample_sent)"
    by (simp add: deleteMessage_def db_query_def find_message_def by_uuid_def scan_row_def sample_sent_def
        sample_keyed_row_def message_row_of_def sample_message_def zero_message_def)
  have "mr_status sample_keyed_row = ''queued''" "sample_keyed_row \<in> set (t_messages (srv_db sample_sent))"
    by (simp_all add: sample_keyed_row_def message_row_of_def sample_message_def zero_message_def sample_sent_def)
  with delete_message_guarded [OF sample_sent_ok run] run show ?thesis by simp
qed

text \<open>
  C32.  Resending.  When \<open>resendMessage\<close> answers 202, the original message is still there and one new queued
  message was added with its session, recipient, type and content, together with its waiting job.  The
  address of the media is not copied: when the original is an image, a document or a pdf, the worker
  refuses the resent job whatever the client.
\<close>

theorem resend_copies:
  assumes "cf_db cf" "srv_ok cf s" "resendMessage cf E r p s = (rep, s')" "reply_status rep = Some 202"
  shows "\<exists>m n j job. m \<in> set (t_messages (srv_db s)) \<and> cf_uuid cf (rq_param r) = Some (mr_id m)
    \<and> srv_db s' = (srv_db s)\<lparr>t_messages := t_messages (srv_db s) @ [n], t_queue_jobs := t_queue_jobs (srv_db s) @ [j]\<rparr>
    \<and> mr_session_id n = mr_session_id m \<and> mr_to n = mr_to m \<and> mr_type n = mr_type m
    \<and> coalesce (mr_content n) = coalesce (mr_content m) \<and> mr_status n = ''queued'' \<and> qj_status j = ''waiting''
    \<and> decode_job (qj_data j) = Inr job
    \<and> (cf_queue cf = AsynqQueue \<longrightarrow> sv_tasks s' = sv_tasks s @ [task_of job (qj_job_id j)])
    \<and> (isMediaMessageType (mr_type m) \<longrightarrow> (\<forall>S c (w :: world). \<exists>e. send_job S c job w = (Inl e, w)))"
proof -
  have err: "row_error t e = rep \<Longrightarrow> False" for t e
    using row_error_status [of t e] assms(4) by auto
  obtain m where m: "find_message cf (rq_param r) (srv_db s) = Inr m"
    and run: "(case PutMessage (srv_store cf) (E 3) (resent_message m (randomID cf (E 6)) (c_now (E 6))) s of
        (Some e, s1) \<Rightarrow> (writeError 500 (err_text e), s1)
      | (None, s1) \<Rightarrow> enqueue_message cf (E 5) (resent_job (resent_message m (randomID cf (E 6)) (c_now (E 6))))
          (m_JobID (resent_message m (randomID cf (E 6)) (c_now (E 6))))
          (queued_reply (m_ID (resent_message m (randomID cf (E 6)) (c_now (E 6)))) ''Message requeued'') s1) = (rep, s')"
    using assms(1,3) err
    by (auto simp: resendMessage_def db_query_def Let_def split: option.splits sum.splits)
  define v where "v = resent_message m (randomID cf (E 6)) (c_now (E 6))"
  have v: "m_SessionID v = mr_session_id m" "m_To v = mr_to m" "m_Type v = mr_type m"
    "m_Content v = coalesce (mr_content m)" "m_Status v = ''queued''" "m_Priority v = 0" "m_Delay v = 0" "m_URL v = []"
    "resent_job v = job_of_message v"
    by (simp_all add: v_def resent_message_def zero_message_def resent_job_def job_of_message_def)
  from run assms(1,4) obtain d where put: "pg_PutMessage (cf_uuid cf) (E 3) v (srv_db s) = (None, d)"
    and enq: "enqueue_message cf (E 5) (job_of_message v) (m_JobID v) (queued_reply (m_ID v) ''Message requeued'')
      (put_srv_db d s) = (rep, s')"
    unfolding v_def [symmetric] v(9)
    by (auto simp: srv_PutMessage_db split: prod.splits option.splits)
  from pg_PutMessage_None [OF put] obtain i t where
    d: "d = (srv_db s)\<lparr>t_messages := t_messages (srv_db s) @ [message_row_of i t (c_now (E 3)) v],
        t_queue_jobs := t_queue_jobs (srv_db s) @ [job_row_of (c_gen (E 3)) (c_now (E 3)) v]\<rparr>" by blast
  have job: "decode_job (job_data v) = Inr (job_of_message v)" by (simp add: decode_job_data v int8_def)
  have "isMediaMessageType (mr_type m) \<Longrightarrow> \<exists>e. send_job S c (job_of_message v) w = (Inl e, w)" for S c and w :: world
    by (auto simp: send_job_def job_of_message_def v isMediaMessageType_def)
  with find_message_Inr [OF m] d v job enqueue_message_cases [OF enq] assms(4) show ?thesis
    by (intro exI [of _ m] exI [of _ "message_row_of i t (c_now (E 3)) v"]
        exI [of _ "job_row_of (c_gen (E 3)) (c_now (E 3)) v"] exI [of _ "job_of_message v"])
      (auto simp: message_row_of_def job_row_of_def)
qed

theorem resend_copies_witness:
  "\<exists>rep s'. resendMessage sample_cfg (\<lambda>_. sample_ctx) (sample_request [] [] ''m1'' []) None sample_sent = (rep, s')
     \<and> reply_status rep = Some 202 \<and> length (t_messages (srv_db s')) = 2"
proof -
  define x where "x = resendMessage sample_cfg (\<lambda>_. sample_ctx) (sample_request [] [] ''m1'' []) None sample_sent"
  have "randomID sample_cfg sample_ctx \<noteq> ''m1''"
    by (simp add: randomID_def randomBytes_def hex_encode_def)
  then have "reply_status (fst x) = Some 202"
    by (simp add: x_def resendMessage_def db_query_def find_message_def by_uuid_def scan_row_def sample_sent_def
        sample_keyed_row_def message_row_of_def sample_message_def zero_message_def resent_message_def srv_store_def
        lift_write_def pg_PutMessage_def put_message_row_def put_job_row_def template_ref_def insert_message_def
        insert_queue_job_def idem_key_def nullif_def int4_def enqueue_message_def srv_enqueue_def asynq_queue_def
        asynq_Enqueue_def Let_def)
  with resend_copies [of sample_cfg sample_sent "\<lambda>_. sample_ctx" "sample_request [] [] ''m1'' []" None "fst x" "snd x"] sample_sent_ok
  have "\<exists>n j. srv_db (snd x) = (srv_db sample_sent)\<lparr>t_messages := t_messages (srv_db sample_sent) @ [n],
      t_queue_jobs := t_queue_jobs (srv_db sample_sent) @ [j]\<rparr>" by (auto simp: x_def)
  then have "length (t_messages (srv_db (snd x))) = 2" by (auto simp: sample_sent_def)
  with \<open>reply_status (fst x) = Some 202\<close> show ?thesis by (intro exI [of _ "fst x"] exI [of _ "snd x"]) (simp add: x_def)
qed

end
