(* ===== verification/Http_Sessions.thy ===== *)
theory Http_Sessions
  imports Http_Base
begin

text \<open>
  The session handlers of \<open>internal/httpapi/server.go\<close>: \<open>listSessions\<close>, \<open>createSession\<close>, \<open>getSession\<close>,
  \<open>sessionAction\<close>, \<open>deleteSession\<close> and \<open>updateThrottle\<close>, with the events they publish to the stream of the
  dashboard.
\<close>

section \<open>Handlers\<close>

text \<open>The error of \<open>Dispatch\<close> is dropped; a panic of the broker would end the handler.\<close>

definition dispatchSessionEvent :: "srv_cfg \<Rightarrow> ctx \<Rightarrow> string \<Rightarrow> string \<Rightarrow> string \<Rightarrow> (srv \<Rightarrow> handler_result) \<Rightarrow> srv \<Rightarrow> handler_result" where
  "dispatchSessionEvent cf c status sessionID phone k s =
     (if \<not> cf_events cf then k s
      else case broker_dispatch c (''session.'' @ status) (JObj [(''sessionId'', JStr sessionID),
          (''status'', JStr status), (''phoneNumber'', JStr phone)]) (sv_world s) of
        (e, w) \<Rightarrow> if panicked e then (Crash, s\<lparr>sv_world := w\<rparr>) else k (s\<lparr>sv_world := w\<rparr>))"

definition listSessions :: "srv_cfg \<Rightarrow> handler" where
  "listSessions cf E r p s = (case ListSessions (srv_store cf) (E 0) s of
       Inl e \<Rightarrow> (writeError 500 (err_text e), s)
     | Inr items \<Rightarrow> (write_json 200 ((if cf_db cf then nil_json else JArr) (map session_json items)), s))"

definition getSession :: "srv_cfg \<Rightarrow> handler" where
  "getSession cf E r p s = (case GetSession (srv_store cf) (E 0) (rq_param r) s of
       Inl e \<Rightarrow> (writeError 500 (err_text e), s)
     | Inr None \<Rightarrow> (writeError 404 ''session not found'', s)
     | Inr (Some v) \<Rightarrow> (write_json 200 (session_json v), s))"

definition decode_create :: "request \<Rightarrow> (string \<times> string \<times> string) option" where
  "decode_create r = do {
     kvs \<leftarrow> decode r;
     sessionID \<leftarrow> dec_str ''sessionId'' kvs; method \<leftarrow> dec_str ''method'' kvs; phone \<leftarrow> dec_str ''phoneNumber'' kvs;
     Some (sessionID, method, phone) }"

text \<open>The checks on method and phone number: an error, or the number as it is used from then on.\<close>

definition pairing_phone :: "string \<Rightarrow> string \<Rightarrow> string + string" where
  "pairing_phone method phone =
     (if method \<noteq> ''qr'' \<and> method \<noteq> ''pairing'' then Inl ''method must be qr or pairing''
      else if method = ''pairing'' then
        (if length (digits phone) < 10 \<or> length (digits phone) > 15
         then Inl ''phoneNumber must contain 10-15 digits for pairing'' else Inr (digits phone))
      else Inr phone)"

definition new_session :: "string \<Rightarrow> string \<Rightarrow> time \<Rightarrow> session" where
  "new_session i method now = \<lparr>s_ID = i, s_SessionID = i, s_Status = ''connecting'', s_Method = method,
     s_PhoneNumber = [], s_QRCode = [], s_PairingCode = [], s_QRExpiresAt = None, s_WAJID = [], s_MessageCount = 0,
     s_CreatedAt = now, s_UpdatedAt = now\<rparr>"

text \<open>\<open>s.whatsapp.Create\<close> and what follows it; calls 3 and 4 are \<open>Create\<close> and \<open>UpdateSession\<close>.\<close>

definition start_client :: "srv_cfg \<Rightarrow> (nat \<Rightarrow> ctx) \<Rightarrow> string \<Rightarrow> string \<Rightarrow> string \<Rightarrow> session \<Rightarrow> srv \<Rightarrow> handler_result" where
  "start_client cf E i method phone v s =
     (if \<not> cf_whatsapp cf then (write_json 201 (session_json v), s)
      else case sm_Create (E 3) i method phone (sv_mgr s) of
        (None, m) \<Rightarrow> (write_json 201 (session_json v), s\<lparr>sv_mgr := m\<rparr>)
      | (Some e, m) \<Rightarrow>
         (case UpdateSession (srv_store cf) (E 4) i ''failed'' [] [] [] (s\<lparr>sv_mgr := m\<rparr>) of
            (_, s1) \<Rightarrow> dispatchSessionEvent cf (E 2) ''failed'' i phone (\<lambda>s2. (writeError 502 (err_text e), s2)) s1))"

definition createSession :: "srv_cfg \<Rightarrow> handler" where
  "createSession cf E r p s =
     (case decode_create r of None \<Rightarrow> (writeError 400 ''sessionId is required'', s)
      | Some (i, method0, phone0) \<Rightarrow>
         if i = [] then (writeError 400 ''sessionId is required'', s)
         else
     (case GetSession (srv_store cf) (E 0) i s of
        Inl e \<Rightarrow> (writeError 500 (err_text e), s)
      | Inr (Some v) \<Rightarrow> (writeError 409 ''session already exists'', s)
      | Inr None \<Rightarrow>
         let method = (if method0 = [] then ''qr'' else method0) in
     (case pairing_phone method phone0 of
        Inl t \<Rightarrow> (writeError 400 t, s)
      | Inr phone \<Rightarrow>
         let v = new_session i method (c_now (E 1)) in
     (case PutSession (srv_store cf) (E 1) v s of
        (Some e, s1) \<Rightarrow> (writeError 500 (err_text e), s1)
      | (None, s1) \<Rightarrow>
         dispatchSessionEvent cf (E 2) ''created'' i phone
           (dispatchSessionEvent cf (E 2) ''connecting'' i phone (start_client cf E i method phone v)) s1))))"

text \<open>The call of the session manager, by the action; \<open>Reconnect\<close> has the environments from 10 on.\<close>

definition client_action :: "srv_cfg \<Rightarrow> (nat \<Rightarrow> ctx) \<Rightarrow> string \<Rightarrow> string \<Rightarrow> srv \<Rightarrow> err option \<times> manager" where
  "client_action cf E status i s =
     (if \<not> cf_whatsapp cf then (None, sv_mgr s)
      else if status = ''reconnecting'' then sm_Reconnect (srv_store cf) (\<lambda>k. E (10 + k)) i s (sv_mgr s)
      else if status = ''disconnected'' then sm_Disconnect i (sv_mgr s)
      else if status = ''logged_out'' then sm_Logout (E 2) i (sv_mgr s)
      else (None, sv_mgr s))"

text \<open>From the published event on; call 4 is the second \<open>PutSession\<close>, whose error is dropped.\<close>

definition action_done :: "srv_cfg \<Rightarrow> (nat \<Rightarrow> ctx) \<Rightarrow> string \<Rightarrow> session \<Rightarrow> srv \<Rightarrow> handler_result" where
  "action_done cf E status v s =
     (if status = ''logged_out'' then
        (case PutSession (srv_store cf) (E 4) (v\<lparr>s_Status := ''disconnected'', s_QRCode := [], s_PairingCode := [],
            s_QRExpiresAt := None\<rparr>) s of
           (_, s1) \<Rightarrow> (write_json 200 (done_text ''Session logged out''), s1))
      else if status = ''disconnected'' then (write_json 200 (done_text ''Session disconnected''), s)
      else (write_json 200 (session_json v), s))"

definition sessionAction :: "srv_cfg \<Rightarrow> string \<Rightarrow> handler" where
  "sessionAction cf status E r p s =
     (case GetSession (srv_store cf) (E 0) (rq_param r) s of
        Inl e \<Rightarrow> (writeError 500 (err_text e), s)
      | Inr None \<Rightarrow> (writeError 404 ''session not found'', s)
      | Inr (Some v0) \<Rightarrow>
         let v = v0\<lparr>s_Status := status, s_UpdatedAt := c_now (E 1)\<rparr> in
     (case PutSession (srv_store cf) (E 1) v s of
        (Some e, s1) \<Rightarrow> (writeError 500 (err_text e), s1)
      | (None, s1) \<Rightarrow>
     (case client_action cf E status (rq_param r) s1 of
        (Some e, m) \<Rightarrow> (writeError 502 (err_text e), s1\<lparr>sv_mgr := m\<rparr>)
      | (None, m) \<Rightarrow>
         if status = ''reconnecting'' \<or> status = ''logged_out''
         then dispatchSessionEvent cf (E 3) status (rq_param r) (s_PhoneNumber v) (action_done cf E status v) (s1\<lparr>sv_mgr := m\<rparr>)
         else action_done cf E status v (s1\<lparr>sv_mgr := m\<rparr>))))"

definition session_message_count :: "string \<Rightarrow> db \<Rightarrow> nat" where
  "session_message_count i d = length (filter (\<lambda>m. mr_session_id m = i) (t_messages d))"

text \<open>\<open>_ = s.whatsapp.Logout\<close>, and the statement that deletes with the number of rows it affected.\<close>

definition logged_out :: "srv_cfg \<Rightarrow> ctx \<Rightarrow> string \<Rightarrow> srv \<Rightarrow> srv" where
  "logged_out cf c i s = (if cf_whatsapp cf then s\<lparr>sv_mgr := snd (sm_Logout c i (sv_mgr s))\<rparr> else s)"

definition delete_session_exec :: "string \<Rightarrow> db \<Rightarrow> (err + nat) \<times> db" where
  "delete_session_exec i d = (case delete_session_rows i d of Inl e \<Rightarrow> (Inl e, d)
     | Inr d' \<Rightarrow> (Inr (length (t_sessions d) - length (t_sessions d')), d'))"

definition deleteSession :: "srv_cfg \<Rightarrow> handler" where
  "deleteSession cf E r p s =
     db_query cf (E 0) (\<lambda>d. Inr (session_message_count (rq_param r) d))
       (\<lambda>res. case res of Inl e \<Rightarrow> (writeError 500 (err_text e), s)
        | Inr n \<Rightarrow>
           if n > 0 then (writeError 409 ''Session cannot be deleted because it has message history. Disconnect or logout the session instead.'', s)
           else
             db_exec cf (E 2) (delete_session_exec (rq_param r))
               (\<lambda>res s2. case res of Inl e \<Rightarrow> (writeError 500 (err_text e), s2)
                | Inr n \<Rightarrow>
                   if n = 0 then (writeError 404 ''Session not found'', s2)
                   else dispatchSessionEvent cf (E 3) ''deleted'' (rq_param r) []
                     (\<lambda>s3. (write_json 200 (done_text ''Session deleted''), s3)) s2)
               (logged_out cf (E 1) (rq_param r) s)) s"

section \<open>Throttle settings\<close>

record throttle_body =
  tb_MinIntervalMs :: "int option"
  tb_JitterMs :: "int option"
  tb_MaxMessagesPerMinute :: "int option"
  tb_FailureThreshold :: "int option"
  tb_PauseDurationMs :: "int option"

definition decode_throttle :: "request \<Rightarrow> throttle_body option" where
  "decode_throttle r = do {
     kvs \<leftarrow> decode r;
     a \<leftarrow> dec_int_ptr ''minIntervalMs'' kvs; b \<leftarrow> dec_int_ptr ''jitterMs'' kvs;
     c \<leftarrow> dec_int_ptr ''maxMessagesPerMinute'' kvs; d \<leftarrow> dec_int_ptr ''failureThreshold'' kvs;
     e \<leftarrow> dec_int_ptr ''pauseDurationMs'' kvs;
     Some \<lparr>tb_MinIntervalMs = a, tb_JitterMs = b, tb_MaxMessagesPerMinute = c, tb_FailureThreshold = d,
       tb_PauseDurationMs = e\<rparr> }"

definition throttle_checks :: "throttle_body \<Rightarrow> (string \<times> int option \<times> int \<times> int) list" where
  "throttle_checks b = [(''minIntervalMs'', tb_MinIntervalMs b, 100, 60000), (''jitterMs'', tb_JitterMs b, 0, 60000),
     (''maxMessagesPerMinute'', tb_MaxMessagesPerMinute b, 1, 600), (''failureThreshold'', tb_FailureThreshold b, 1, 100),
     (''pauseDurationMs'', tb_PauseDurationMs b, 10000, 86400000)]"

fun out_of_range_check :: "(string \<times> int option \<times> int \<times> int) list \<Rightarrow> string option" where
  "out_of_range_check [] = None"
| "out_of_range_check ((name, v, lo, hi) # cs) =
     (case v of Some x \<Rightarrow> if x < lo \<or> x > hi then Some (name @ '' is out of range'') else out_of_range_check cs
      | None \<Rightarrow> out_of_range_check cs)"

definition or_kept :: "int option \<Rightarrow> int \<Rightarrow> int" where
  "or_kept v old = (case v of None \<Rightarrow> old | Some x \<Rightarrow> x)"

definition throttle_row :: "time \<Rightarrow> throttle_body \<Rightarrow> session_row \<Rightarrow> session_row" where
  "throttle_row now b r = r\<lparr>sr_min_interval_ms := or_kept (tb_MinIntervalMs b) (sr_min_interval_ms r),
     sr_jitter_ms := or_kept (tb_JitterMs b) (sr_jitter_ms r),
     sr_max_messages_per_minute := or_kept (tb_MaxMessagesPerMinute b) (sr_max_messages_per_minute r),
     sr_failure_threshold := or_kept (tb_FailureThreshold b) (sr_failure_threshold r),
     sr_pause_duration_ms := or_kept (tb_PauseDurationMs b) (sr_pause_duration_ms r), sr_updated_at := now\<rparr>"

definition throttle_json :: "session_row \<Rightarrow> json" where
  "throttle_json r = JObj [(''minIntervalMs'', JInt (sr_min_interval_ms r)), (''jitterMs'', JInt (sr_jitter_ms r)),
     (''maxMessagesPerMinute'', JInt (sr_max_messages_per_minute r)), (''failureThreshold'', JInt (sr_failure_threshold r)),
     (''pauseDurationMs'', JInt (sr_pause_duration_ms r))]"

definition update_throttle_rows :: "ctx \<Rightarrow> string \<Rightarrow> throttle_body \<Rightarrow> db \<Rightarrow> (err + session_row) \<times> db" where
  "update_throttle_rows c i b d = (case find (\<lambda>x. sr_session_id x = i) (t_sessions d) of None \<Rightarrow> (Inl (Sentinel NoRows), d)
     | Some row \<Rightarrow> (Inr (throttle_row (c_now c) b row), upd_sessions (\<lambda>x. sr_session_id x = i) (throttle_row (c_now c) b) d))"

definition updateThrottle :: "srv_cfg \<Rightarrow> handler" where
  "updateThrottle cf E r p s =
     (case decode_throttle r of None \<Rightarrow> (writeError 400 ''invalid throttle body'', s)
      | Some b \<Rightarrow>
     (case out_of_range_check (throttle_checks b) of Some t \<Rightarrow> (writeError 400 t, s)
      | None \<Rightarrow>
         db_exec cf (E 0) (update_throttle_rows (E 0) (rq_param r) b)
           (\<lambda>res s1. case res of
              Inl e \<Rightarrow> (if is_no_rows e then writeError 404 ''Session not found'' else writeError 400 (err_text e), s1)
            | Inr row \<Rightarrow> (write_json 200 (throttle_json row), s1)) s))"

section \<open>The invariant is kept\<close>

lemma srv_db_world [simp]: "srv_db (s\<lparr>sv_world := w\<rparr>) = w_db w"
  by (simp add: srv_db_def)

text \<open>With an intact broker, publishing neither panics nor touches anything but the subscribers' buffers.\<close>

lemma dispatch_event_run:
  assumes "srv_ok cf s"
  shows "\<exists>w. (\<forall>k. dispatchSessionEvent cf c a i h k s = k (s\<lparr>sv_world := w\<rparr>))
    \<and> srv_ok cf (s\<lparr>sv_world := w\<rparr>) \<and> w_db w = srv_db s"
proof (cases "cf_events cf")
  case False
  with assms show ?thesis
    by (intro exI [of _ "sv_world s"]) (simp add: dispatchSessionEvent_def srv_db_def)
next
  case True
  let ?p = "JObj [(''sessionId'', JStr i), (''status'', JStr a), (''phoneNumber'', JStr h)]"
  have b: "broker_ok (w_broker (sv_world s))" using assms by (simp add: srv_ok_parts)
  obtain b' where b': "Broker_Dispatch (''session.'' @ a) ?p (w_broker (sv_world s)) = Some b'" "broker_ok b'"
    using Broker_Dispatch_ok [OF b] by blast
  then have "broker_dispatch c (''session.'' @ a) ?p (sv_world s) = (None, (sv_world s)\<lparr>w_broker := b'\<rparr>)"
    by (simp add: broker_dispatch_def)
  with True b' assms show ?thesis
    by (intro exI [of _ "(sv_world s)\<lparr>w_broker := b'\<rparr>"]) (auto simp: dispatchSessionEvent_def srv_ok_parts srv_db_def)
qed

lemma dispatch_event_ok:
  assumes "srv_ok cf s" "\<And>s'. srv_ok cf s' \<Longrightarrow> srv_ok cf (snd (k s'))"
  shows "srv_ok cf (snd (dispatchSessionEvent cf c a i h k s))"
  using dispatch_event_run [OF assms(1), of c a i h] assms(2) by auto

lemma srv_ok_mgr: "srv_ok cf s \<Longrightarrow> mgr_ok m \<Longrightarrow> srv_ok cf (s\<lparr>sv_mgr := m\<rparr>)"
  by (simp add: srv_ok_def)

lemma srv_ok_mgrD: "srv_ok cf s \<Longrightarrow> mgr_ok (sv_mgr s)"
  by (simp add: srv_ok_def)

lemma mgr_ops_ok:
  assumes "mgr_ok m"
  shows "mgr_ok (snd (sm_Reconnect S E i st m))" "mgr_ok (snd (sm_Disconnect i m))" "mgr_ok (snd (sm_Logout c i m))"
  using assms by (simp_all add: sm_Reconnect_ok sm_Disconnect_def sm_Logout_def split: option.split)

lemma start_client_ok:
  assumes "srv_ok cf s"
  shows "srv_ok cf (snd (start_client cf E i me h v s))"
proof (cases "sm_Create (E 3) i me h (sv_mgr s)")
  case (Pair e m)
  have ok: "srv_ok cf (s\<lparr>sv_mgr := m\<rparr>)"
    using sm_Create_ok [OF srv_ok_mgrD [OF assms], of "E 3" i me h] Pair assms by (simp add: srv_ok_mgr)
  then have "srv_ok cf (snd (UpdateSession (srv_store cf) (E 4) i ''failed'' [] [] [] (s\<lparr>sv_mgr := m\<rparr>)))"
    by (rule srv_sessions.update_ok)
  with ok Pair assms show ?thesis
    by (auto simp: start_client_def split_beta intro!: dispatch_event_ok split: option.split)
qed

lemma createSession_ok:
  assumes "srv_ok cf s"
  shows "srv_ok cf (snd (createSession cf E r p s))"
proof -
  have "PutSession (srv_store cf) (E 1) v s = (e, s1) \<Longrightarrow> srv_ok cf s1" for v e s1
    using srv_sessions.put_ok [OF assms, of "E 1" v] by simp
  with assms show ?thesis
    by (auto simp: createSession_def Let_def start_client_ok intro!: dispatch_event_ok
        split: option.split sum.split prod.split)
qed

lemma client_action_ok: "srv_ok cf s \<Longrightarrow> mgr_ok (snd (client_action cf E a i s))"
  by (auto simp: client_action_def srv_ok_mgrD mgr_ops_ok)

lemma action_done_ok: "srv_ok cf s \<Longrightarrow> srv_ok cf (snd (action_done cf E a v s))"
  using srv_sessions.put_ok [of cf s] by (simp add: action_done_def split_beta)

lemma sessionAction_ok:
  assumes "srv_ok cf s"
  shows "srv_ok cf (snd (sessionAction cf a E r p s))"
proof -
  have "srv_ok cf s1 \<Longrightarrow> client_action cf E a i s1 = (e, m) \<Longrightarrow> srv_ok cf (s1\<lparr>sv_mgr := m\<rparr>)" for s1 e m i
    using client_action_ok [of cf s1 E a i] by (simp add: srv_ok_mgr)
  moreover have "PutSession (srv_store cf) (E 1) v s = (e, s1) \<Longrightarrow> srv_ok cf s1" for v e s1
    using srv_sessions.put_ok [OF assms, of "E 1" v] by simp
  ultimately show ?thesis using assms
    by (auto simp: sessionAction_def Let_def action_done_ok intro!: dispatch_event_ok
        split: option.split sum.split prod.split)
qed

lemma delete_session_exec_ok:
  assumes "pg_ok u d"
  shows "pg_ok u (snd (delete_session_exec i d))"
proof (cases "delete_session_rows i d")
  case (Inr d')
  then have "t_messages d' = t_messages d" by (auto simp: delete_session_rows_def split: if_splits)
  with Inr delete_session_rows_ok [OF pg_ok_db_ok [OF assms] Inr] assms show ?thesis
    by (simp add: delete_session_exec_def pg_ok_other)
qed (simp add: delete_session_exec_def assms)

lemma deleteSession_ok:
  assumes "srv_ok cf s"
  shows "srv_ok cf (snd (deleteSession cf E r p s))"
proof -
  have "mgr_ok (snd (sm_Logout (E 1) (rq_param r) (sv_mgr s)))"
    using srv_ok_mgrD [OF assms] by (rule mgr_ops_ok)
  with assms have "srv_ok cf (logged_out cf (E 1) (rq_param r) s)"
    by (simp add: logged_out_def srv_ok_mgr)
  then show ?thesis unfolding deleteSession_def
    by (auto intro!: db_query_ok db_exec_ok dispatch_event_ok delete_session_exec_ok srv_ok_pg assms split: sum.split)
qed

lemma throttle_row_keys [simp]: "sr_id (throttle_row n b r) = sr_id r" "sr_session_id (throttle_row n b r) = sr_session_id r"
  by (simp_all add: throttle_row_def)

lemma update_throttle_pg_ok: "pg_ok u d \<Longrightarrow> pg_ok u (snd (update_throttle_rows c i b d))"
  by (rule pg_ok_other [of u d]) (auto simp: update_throttle_rows_def db_ok_upd_sessions pg_ok_db_ok split: option.split)

lemma updateThrottle_ok: "srv_ok cf s \<Longrightarrow> srv_ok cf (snd (updateThrottle cf E r p s))"
  by (auto simp: updateThrottle_def intro!: db_exec_ok update_throttle_pg_ok srv_ok_pg split: option.split sum.split)

lemma session_reads_same: "snd (listSessions cf E r p s) = s" "snd (getSession cf E r p s) = s"
  by (simp_all add: listSessions_def getSession_def split: sum.split option.split)

section \<open>Creating a session\<close>

lemma srv_view_frame [simp]: "srv_view cf (s\<lparr>sv_mgr := m\<rparr>) = srv_view cf s"
  by (simp add: srv_view_def)

lemma srv_view_world: "w_db w = srv_db s \<Longrightarrow> srv_view cf (s\<lparr>sv_world := w\<rparr>) = srv_view cf s"
  by (simp add: srv_view_def)

text \<open>The two events after a successful insert change neither the database nor the clients.\<close>

lemma created_events:
  assumes "srv_ok cf s" "PutSession (srv_store cf) c v s = (None, s1)"
  shows "\<exists>w. srv_ok cf (s1\<lparr>sv_world := w\<rparr>) \<and> w_db w = srv_db s1 \<and> sv_mgr s1 = sv_mgr s
    \<and> dispatchSessionEvent cf c' ''created'' i h (dispatchSessionEvent cf c' ''connecting'' i h k) s1 = k (s1\<lparr>sv_world := w\<rparr>)"
proof -
  have ok1: "srv_ok cf s1" using srv_sessions.put_ok [OF assms(1), of c v] assms(2) by simp
  obtain w1 where w1: "\<forall>k. dispatchSessionEvent cf c' ''created'' i h k s1 = k (s1\<lparr>sv_world := w1\<rparr>)"
    "srv_ok cf (s1\<lparr>sv_world := w1\<rparr>)" "w_db w1 = srv_db s1" using dispatch_event_run [OF ok1] by blast
  obtain w2 where "\<forall>k. dispatchSessionEvent cf c' ''connecting'' i h k (s1\<lparr>sv_world := w1\<rparr>)
      = k (s1\<lparr>sv_world := w1\<rparr>\<lparr>sv_world := w2\<rparr>)"
    "srv_ok cf (s1\<lparr>sv_world := w1\<rparr>\<lparr>sv_world := w2\<rparr>)" "w_db w2 = srv_db (s1\<lparr>sv_world := w1\<rparr>)"
    using dispatch_event_run [OF w1(2)] by blast
  moreover have "sv_mgr s1 = sv_mgr s"
    using assms(2) by (auto simp: srv_store_def lift_write_def split: if_splits prod.splits)
  ultimately show ?thesis using w1 by (intro exI [of _ w2]) simp
qed

lemma sm_Create_client: "sm_clients (snd (sm_Create c i me h m)) i \<noteq> None"
  by (auto simp: sm_Create_def new_client_def spawn_def Let_def split: option.split sum.split)

text \<open>Recording the failure of a client: the status becomes \<open>failed\<close> unless the statement fails.\<close>

lemma update_failed_view:
  assumes "srv_ok cf s" "srv_view cf s i = Some v" "UpdateSession (srv_store cf) c i ''failed'' [] [] [] s = (res, s')"
  shows "\<exists>v'. srv_view cf s' i = Some v' \<and> s_Status v' \<in> {s_Status v, ''failed''}
    \<and> (c_fault c 0 = None \<longrightarrow> s_Status v' = ''failed'') \<and> (\<forall>j. j \<noteq> i \<longrightarrow> srv_view cf s' j = srv_view cf s j)"
proof (cases res)
  case None
  with srv_sessions.update_view [OF assms(1)] assms(2,3) show ?thesis by auto
next
  case (Some x)
  then have "s' = s" using srv_sessions.update_fail assms(3) by blast
  moreover have "c_fault c 0 = None \<Longrightarrow> False"
    using assms Some by (auto simp: srv_store_def lift_write_def pg_UpdateSession_def mem_UpdateSession_def
        srv_view_def memory_view_def Let_def split: if_splits prod.splits option.splits)
  ultimately show ?thesis using assms(2) by auto
qed

text \<open>\<open>Create\<close> fails only for a session without a client, when the QR channel of a new client cannot be had.\<close>

definition create_fails :: "srv_cfg \<Rightarrow> ctx \<Rightarrow> string \<Rightarrow> manager \<Rightarrow> bool" where
  "create_fails cf c i m \<longleftrightarrow> cf_whatsapp cf \<and> sm_clients m i = None \<and> \<not> client_IsLoggedIn c
     \<and> (\<exists>e. client_QRChannel c = Inl e)"

lemma sm_Create_fails: "fst (sm_Create c i me h m) \<noteq> None \<longleftrightarrow>
    sm_clients m i = None \<and> \<not> client_IsLoggedIn c \<and> (\<exists>e. client_QRChannel c = Inl e)"
  by (auto simp: sm_Create_def Let_def split: option.split sum.split)

lemma start_client_view:
  assumes "srv_ok cf s" "srv_view cf s i = Some v" "s_Status v = ''connecting''" "start_client cf E i me h x s = (rep, s')"
  shows "\<exists>v'. srv_view cf s' i = Some v' \<and> (\<forall>j. j \<noteq> i \<longrightarrow> srv_view cf s' j = srv_view cf s j)
    \<and> (if create_fails cf (E 3) i (sv_mgr s)
       then reply_status rep = Some 502 \<and> s_Status v' \<in> {''connecting'', ''failed''}
          \<and> (c_fault (E 4) 0 = None \<longrightarrow> s_Status v' = ''failed'')
       else reply_status rep = Some 201 \<and> s_Status v' = ''connecting''
          \<and> (cf_whatsapp cf \<longrightarrow> sm_clients (sv_mgr s') i \<noteq> None))"
proof (cases "create_fails cf (E 3) i (sv_mgr s)")
  case False
  then have "\<not> (cf_whatsapp cf \<and> fst (sm_Create (E 3) i me h (sv_mgr s)) \<noteq> None)"
    using sm_Create_fails [of "E 3" i me h "sv_mgr s"] unfolding create_fails_def by blast
  then have "reply_status rep = Some 201 \<and> (\<exists>m. s' = s\<lparr>sv_mgr := m\<rparr> \<and> (cf_whatsapp cf \<longrightarrow> sm_clients m i \<noteq> None))"
    using assms(4) sm_Create_client [of "E 3" i me h "sv_mgr s"]
    by (auto simp: start_client_def split: if_splits prod.splits option.splits intro: exI [of _ "sv_mgr s"])
  then show ?thesis using assms(2,3) False by auto
next
  case True
  then obtain e m where m: "cf_whatsapp cf" "sm_Create (E 3) i me h (sv_mgr s) = (Some e, m)"
    using sm_Create_fails [of "E 3" i me h "sv_mgr s"] by (auto simp: create_fails_def) (metis prod.collapse option.exhaust)
  obtain res s3 where upd: "UpdateSession (srv_store cf) (E 4) i ''failed'' [] [] [] (s\<lparr>sv_mgr := m\<rparr>) = (res, s3)" by force
  have ok2: "srv_ok cf (s\<lparr>sv_mgr := m\<rparr>)"
    using sm_Create_ok [OF srv_ok_mgrD [OF assms(1)], of "E 3" i me h] m(2) assms(1) by (simp add: srv_ok_mgr)
  then have "srv_ok cf s3" using srv_sessions.update_ok [OF ok2] upd by (metis snd_conv)
  then obtain w where w: "\<forall>k. dispatchSessionEvent cf (E 2) ''failed'' i h k s3 = k (s3\<lparr>sv_world := w\<rparr>)" "w_db w = srv_db s3"
    using dispatch_event_run by blast
  have s': "reply_status rep = Some 502" "srv_view cf s' = srv_view cf s3"
    using assms(4) m upd w srv_view_world [OF w(2)] by (auto simp: start_client_def)
  from update_failed_view [OF ok2 _ upd] assms(2,3) s' True show ?thesis by auto
qed

text \<open>What the methods and phone numbers are that \<open>createSession\<close> takes.\<close>

definition create_valid :: "string \<Rightarrow> string \<Rightarrow> bool" where
  "create_valid method phone \<longleftrightarrow> method \<in> {[], ''qr''}
     \<or> method = ''pairing'' \<and> 10 \<le> length (digits phone) \<and> length (digits phone) \<le> 15"

lemma pairing_phone_valid:
  "(\<exists>h. pairing_phone (if me = [] then ''qr'' else me) h0 = Inr h) \<longleftrightarrow> create_valid me h0"
  by (auto simp: pairing_phone_def create_valid_def)

text \<open>From the insert on: two events and the client.\<close>

lemma created_effect:
  assumes "srv_ok cf s" "PutSession (srv_store cf) (E 1) (new_session i me now) s = (None, s1)"
    and "dispatchSessionEvent cf (E 2) ''created'' i h (dispatchSessionEvent cf (E 2) ''connecting'' i h
      (start_client cf E i me h (new_session i me now))) s1 = (rep, s')"
  shows "\<exists>v. srv_view cf s' i = Some v \<and> (\<forall>j. j \<noteq> i \<longrightarrow> srv_view cf s' j = srv_view cf s j)
    \<and> (if create_fails cf (E 3) i (sv_mgr s)
       then reply_status rep = Some 502 \<and> s_Status v \<in> {''connecting'', ''failed''}
          \<and> (c_fault (E 4) 0 = None \<longrightarrow> s_Status v = ''failed'')
       else reply_status rep = Some 201 \<and> s_Status v = ''connecting''
          \<and> (cf_whatsapp cf \<longrightarrow> sm_clients (sv_mgr s') i \<noteq> None))"
proof -
  let ?k = "start_client cf E i me h (new_session i me now)"
  obtain w where w: "srv_ok cf (s1\<lparr>sv_world := w\<rparr>)" "w_db w = srv_db s1" "sv_mgr s1 = sv_mgr s"
    "dispatchSessionEvent cf (E 2) ''created'' i h (dispatchSessionEvent cf (E 2) ''connecting'' i h ?k) s1
      = ?k (s1\<lparr>sv_world := w\<rparr>)"
    using created_events [OF assms(1,2)] by blast
  then have run: "?k (s1\<lparr>sv_world := w\<rparr>) = (rep, s')" using assms(3) by simp
  obtain v where v: "srv_view cf (s1\<lparr>sv_world := w\<rparr>) i = Some v" "s_Status v = ''connecting''"
    using srv_sessions.put_view [OF assms(1,2)] srv_view_world [OF w(2)] by (auto simp: new_session_def)
  have "j \<noteq> i \<Longrightarrow> srv_view cf (s1\<lparr>sv_world := w\<rparr>) j = srv_view cf s j" for j
    using srv_sessions.put_frame [OF assms(1,2), of j] srv_view_world [OF w(2)] by (simp add: new_session_def)
  then show ?thesis using start_client_view [OF w(1) v run] w(3) by auto
qed

text \<open>
  C34.  Creating a session, branch by branch: 400 for a body that cannot be decoded or names no session; 500 when
  the look-up fails; 409 for a session that exists; 400 for a method other than \<open>qr\<close> and \<open>pairing\<close> or a
  pairing number without 10 to 15 digits; 500 when the insert fails.  In all these cases nothing changes.
  Otherwise the session exists afterwards, no other session changed, and the answer is 201 with
  the status \<open>connecting\<close> and, where there is a session manager, a client for the session; or 502 exactly when a new
  client is needed whose QR channel cannot be had, and then the status is \<open>failed\<close>, unless the
  statement that records it fails itself.
\<close>

theorem create_session_effect:
  assumes "srv_ok cf s" "createSession cf E r p s = (rep, s')"
  shows "case decode_create r of None \<Rightarrow> reply_status rep = Some 400 \<and> s' = s
    | Some (i, method, phone) \<Rightarrow>
       if i = [] then reply_status rep = Some 400 \<and> s' = s
       else if \<exists>e. GetSession (srv_store cf) (E 0) i s = Inl e then reply_status rep = Some 500 \<and> s' = s
       else if srv_view cf s i \<noteq> None then reply_status rep = Some 409 \<and> s' = s
       else if \<not> create_valid method phone then reply_status rep = Some 400 \<and> s' = s
       else if fst (PutSession (srv_store cf) (E 1)
           (new_session i (if method = [] then ''qr'' else method) (c_now (E 1))) s) \<noteq> None
         then reply_status rep = Some 500 \<and> s' = s
       else \<exists>v. srv_view cf s' i = Some v \<and> (\<forall>j. j \<noteq> i \<longrightarrow> srv_view cf s' j = srv_view cf s j)
         \<and> (if create_fails cf (E 3) i (sv_mgr s)
            then reply_status rep = Some 502 \<and> s_Status v \<in> {''connecting'', ''failed''}
              \<and> (c_fault (E 4) 0 = None \<longrightarrow> s_Status v = ''failed'')
            else reply_status rep = Some 201 \<and> s_Status v = ''connecting''
              \<and> (cf_whatsapp cf \<longrightarrow> sm_clients (sv_mgr s') i \<noteq> None))"
proof (cases "decode_create r")
  case None
  then show ?thesis using assms(2) by (auto simp: createSession_def)
next
  case (Some x)
  then obtain i me0 h0 where d: "decode_create r = Some (i, me0, h0)" by (cases x) auto
  consider "i = []" | e where "i \<noteq> []" "GetSession (srv_store cf) (E 0) i s = Inl e"
    | v where "i \<noteq> []" "GetSession (srv_store cf) (E 0) i s = Inr (Some v)"
    | "i \<noteq> []" "GetSession (srv_store cf) (E 0) i s = Inr None"
    by (metis obj_sumE option.exhaust)
  then show ?thesis
  proof cases
    case 3
    then have "srv_view cf s i = Some v" using srv_sessions.get_view [OF assms(1)] by metis
    then show ?thesis using assms(2) d 3 by (auto simp: createSession_def)
  next
    case 4
    then have new: "srv_view cf s i = None" using srv_sessions.get_view [OF assms(1)] by metis
    let ?me = "if me0 = [] then ''qr'' else me0"
    obtain res s1 where put: "PutSession (srv_store cf) (E 1) (new_session i ?me (c_now (E 1))) s = (res, s1)" by force
    show ?thesis
    proof (cases "create_valid me0 h0 \<and> res = None")
      case False
      then show ?thesis using d 4 new put assms srv_sessions.put_fail pairing_phone_valid [of me0 h0]
        by (auto simp: createSession_def Let_def split: sum.splits option.splits)
    next
      case True
      then obtain h where "pairing_phone ?me h0 = Inr h" using pairing_phone_valid by blast
      then show ?thesis using True d 4 new put assms(2) created_effect [OF assms(1), of E i ?me "c_now (E 1)" s1 h rep s']
        by (simp add: createSession_def Let_def)
    qed
  qed (use assms(2) d in \<open>auto simp: createSession_def\<close>)
qed

definition sample_create :: request where
  "sample_create = sample_request [] [] [] [(''sessionId'', JStr ''new''), (''method'', JStr ''qr'')]"

definition sample_create_again :: request where
  "sample_create_again = sample_request [] [] [] [(''sessionId'', JStr ''main''), (''method'', JStr ''bad'')]"

theorem create_session_effect_witness:
  "(\<exists>v. srv_view sample_cfg (snd (createSession sample_cfg (\<lambda>_. sample_ctx) sample_create None sample_srv)) ''new'' = Some v
      \<and> s_Status v = ''connecting'')
   \<and> reply_status (fst (createSession sample_cfg (\<lambda>_. sample_ctx) sample_create_again None sample_srv)) = Some 409"
proof (rule conjI)
  define x where "x = createSession sample_cfg (\<lambda>_. sample_ctx) sample_create None sample_srv"
  have d: "decode_create sample_create = Some (''new'', ''qr'', [])"
    by (simp add: decode_create_def sample_create_def dec_str_def str_field_def)
  have "reply_status (fst x) = Some 201"
    by (simp add: x_def createSession_def d srv_store_def pg_GetSession_def pairing_phone_def Let_def new_session_def
        lift_write_def pg_PutSession_def insert_session_def new_session_row_def dispatchSessionEvent_def broker_dispatch_def
        Broker_Dispatch_def NewBroker_def start_client_def sm_Create_def NewSessionManager_def new_client_def wa_yes_def
        spawn_def sample_session_row_def)
  with create_session_effect [of sample_cfg sample_srv "\<lambda>_. sample_ctx" sample_create None "fst x" "snd x"] d
  show "\<exists>v. srv_view sample_cfg (snd (createSession sample_cfg (\<lambda>_. sample_ctx) sample_create None sample_srv)) ''new'' = Some v
      \<and> s_Status v = ''connecting''" by (auto simp: x_def split: if_splits)
next
  define x where "x = createSession sample_cfg (\<lambda>_. sample_ctx) sample_create_again None sample_srv"
  have d: "decode_create sample_create_again = Some (''main'', ''bad'', [])"
    by (simp add: decode_create_def sample_create_again_def dec_str_def str_field_def)
  have "GetSession (srv_store sample_cfg) sample_ctx ''main'' sample_srv \<noteq> Inl e" "srv_view sample_cfg sample_srv ''main'' \<noteq> None" for e
    by (simp_all add: srv_store_def pg_GetSession_def srv_view_def pg_view_def sample_session_row_def)
  with create_session_effect [of sample_cfg sample_srv "\<lambda>_. sample_ctx" sample_create_again None "fst x" "snd x"] d
  show "reply_status (fst (createSession sample_cfg (\<lambda>_. sample_ctx) sample_create_again None sample_srv)) = Some 409"
    by (simp add: x_def)
qed

section \<open>Deleting a session\<close>

lemma session_message_count_pos: "session_message_count i d > 0 \<longleftrightarrow> i \<in> mr_session_id ` set (t_messages d)"
  by (auto simp: session_message_count_def filter_empty_conv)

lemma length_delete_where: "length xs \<le> length (delete_where (\<lambda>x. f x = i) xs) \<longleftrightarrow> i \<notin> f ` set xs"
proof (induction xs)
  case (Cons x xs)
  have "\<not> Suc (length xs) \<le> length (filter (\<lambda>y. f y \<noteq> i) xs)" by (simp add: not_le le_imp_less_Suc)
  with Cons.IH show ?case by (cases "f x = i") (auto simp: delete_where_def)
qed (simp add: delete_where_def)

lemma pg_view_delete:
  assumes "d' = d\<lparr>t_sessions := delete_where (\<lambda>x. sr_session_id x = i) (t_sessions d)\<rparr>"
  shows "pg_view d' j = (if j = i then None else pg_view d j)"
proof -
  have "session_of_row d' = session_of_row d" by (simp add: assms fun_eq_iff session_of_row_def message_count_def)
  then show ?thesis by (auto simp: pg_view_def assms find_delete_where)
qed

text \<open>
  C35.  Deleting a session.  A session with messages is never deleted: \<open>deleteSession\<close> then changes nothing,
  not even the session's client.  After 200 the session, which existed, is gone together with its
  client, and no other session changed.
\<close>

theorem delete_session_guarded:
  assumes "cf_db cf" "srv_ok cf s" "deleteSession cf E r p s = (rep, s')"
  shows "(rq_param r \<in> mr_session_id ` set (t_messages (srv_db s)) \<longrightarrow> s' = s \<and> reply_status rep \<in> Some ` {409, 500})
    \<and> (reply_status rep = Some 200 \<longrightarrow> srv_view cf s (rq_param r) \<noteq> None
        \<and> (\<forall>j. srv_view cf s' j = (if j = rq_param r then None else srv_view cf s j))
        \<and> (cf_whatsapp cf \<longrightarrow> sm_clients (sv_mgr s') (rq_param r) = None))"
proof (cases "c_fault (E 0) 0 = None \<and> session_message_count (rq_param r) (srv_db s) = 0")
  case False
  with assms(1,3) show ?thesis
    by (auto simp: deleteSession_def db_query_def split: option.splits)
next
  case True
  then have none: "rq_param r \<notin> mr_session_id ` set (t_messages (srv_db s))"
    using session_message_count_pos [of "rq_param r" "srv_db s"] by simp
  let ?d' = "(srv_db s)\<lparr>t_sessions := delete_where (\<lambda>x. sr_session_id x = rq_param r) (t_sessions (srv_db s))\<rparr>"
  let ?s1 = "logged_out cf (E 1) (rq_param r) s"
  have s1: "srv_db ?s1 = srv_db s" "cf_whatsapp cf \<Longrightarrow> sm_clients (sv_mgr ?s1) (rq_param r) = None"
    by (auto simp: logged_out_def sm_Logout_def drop_client_def split: option.split)
  have ok1: "srv_ok cf (put_srv_db ?d' ?s1)"
    using assms(2) delete_session_exec_ok [OF srv_ok_pg [OF assms(2)], of "rq_param r"] none srv_ok_mgrD [OF assms(2)]
    by (intro srv_ok_put) (auto simp: logged_out_def srv_ok_mgr mgr_ops_ok delete_session_exec_def delete_session_rows_def)
  then obtain w where w: "\<forall>k. dispatchSessionEvent cf (E 3) ''deleted'' (rq_param r) [] k (put_srv_db ?d' ?s1)
      = k ((put_srv_db ?d' ?s1)\<lparr>sv_world := w\<rparr>)" "w_db w = ?d'"
    using dispatch_event_run [OF ok1] by fastforce
  have run: "reply_status rep = Some 200 \<Longrightarrow> s' = (put_srv_db ?d' ?s1)\<lparr>sv_world := w\<rparr> \<and> srv_view cf s (rq_param r) \<noteq> None"
    using assms(1,3) True none s1(1) w(1)
    by (auto simp: length_delete_where deleteSession_def db_query_def db_exec_def delete_session_exec_def delete_session_rows_def srv_view_def
        pg_view_None split: option.splits if_splits)
  then show ?thesis using none assms(1) w(2) s1(2) pg_view_delete [of ?d' "rq_param r" "srv_db s"]
    by (auto simp: srv_view_def)
qed

theorem delete_session_guarded_witness:
  "reply_status (fst (deleteSession sample_cfg (\<lambda>_. sample_ctx) (sample_request [] [] ''main'' []) None sample_srv)) = Some 200
   \<and> srv_view sample_cfg (snd (deleteSession sample_cfg (\<lambda>_. sample_ctx) (sample_request [] [] ''main'' []) None sample_srv)) ''main'' = None"
proof -
  let ?r = "sample_request [] [] ''main'' []"
  define x where "x = deleteSession sample_cfg (\<lambda>_. sample_ctx) ?r None sample_srv"
  have "reply_status (fst x) = Some 200"
    by (simp add: x_def deleteSession_def db_query_def session_message_count_def db_exec_def delete_session_exec_def
        delete_session_rows_def logged_out_def delete_where_def dispatchSessionEvent_def broker_dispatch_def
        Broker_Dispatch_def put_srv_db_def sample_srv_def NewBroker_def srv_db_def w_db_def put_db_def)
  with delete_session_guarded [of sample_cfg sample_srv "\<lambda>_. sample_ctx" ?r None "fst x" "snd x"]
  show ?thesis by (simp add: x_def)
qed

section \<open>Throttle settings\<close>

text \<open>The ranges the handler accepts.\<close>

definition settings_ok :: "session_row \<Rightarrow> bool" where
  "settings_ok r \<longleftrightarrow> sr_min_interval_ms r \<in> {100..60000} \<and> sr_jitter_ms r \<in> {0..60000}
     \<and> sr_max_messages_per_minute r \<in> {1..600} \<and> sr_failure_threshold r \<in> {1..100}
     \<and> sr_pause_duration_ms r \<in> {10000..86400000}"

lemma out_of_range_None:
  "out_of_range_check cs = None \<longleftrightarrow> (\<forall>(name, v, lo, hi) \<in> set cs. \<forall>x. v = Some x \<longrightarrow> x \<in> {lo..hi})"
  by (induction cs rule: out_of_range_check.induct) (auto split: option.splits)

lemma or_kept_range: "\<forall>x. v = Some x \<longrightarrow> x \<in> {lo..hi} \<Longrightarrow> old \<in> {lo..hi} \<Longrightarrow> or_kept v old \<in> {lo..hi}"
  by (simp add: or_kept_def split: option.split)

lemma throttle_row_settings:
  assumes "out_of_range_check (throttle_checks b) = None" "settings_ok r"
  shows "settings_ok (throttle_row now b r)"
  using assms unfolding out_of_range_None throttle_checks_def settings_ok_def throttle_row_def
  by (simp add: or_kept_range del: atLeastAtMost_iff)

lemma updateThrottle_cases:
  assumes "updateThrottle cf E r p s = (rep, s')"
  shows "(s' = s \<and> reply_status rep \<noteq> Some 200)
    \<or> (\<exists>b. decode_throttle r = Some b \<and> out_of_range_check (throttle_checks b) = None
        \<and> reply_status rep = Some 200
        \<and> s' = put_srv_db (upd_sessions (\<lambda>x. sr_session_id x = rq_param r) (throttle_row (c_now (E 0)) b) (srv_db s)) s)"
  using assms
  by (auto simp: updateThrottle_def db_exec_def update_throttle_rows_def
      split: option.splits sum.splits if_splits)

text \<open>
  Throttle settings.  \<open>updateThrottle\<close> keeps every session's settings within the ranges the handler
  checks, which are those the limiter needs (at least 100 ms between messages, at least one message a
  minute); an answer other than 200 changes nothing; with 200 only the named session's row changed, and
  it has the values of the body where the body has them and its old ones elsewhere.
\<close>

theorem throttle_settings_kept:
  assumes "\<forall>x \<in> set (t_sessions (srv_db s)). settings_ok x" "updateThrottle cf E r p s = (rep, s')"
  shows "(\<forall>x \<in> set (t_sessions (srv_db s')). settings_ok x)
    \<and> (reply_status rep \<noteq> Some 200 \<longrightarrow> s' = s)
    \<and> (reply_status rep = Some 200 \<longrightarrow> (\<exists>b. decode_throttle r = Some b
        \<and> out_of_range_check (throttle_checks b) = None
        \<and> srv_db s' = (srv_db s)\<lparr>t_sessions := map (\<lambda>x. if sr_session_id x = rq_param r then throttle_row (c_now (E 0)) b x else x)
            (t_sessions (srv_db s))\<rparr>))"
proof (cases "s' = s \<and> reply_status rep \<noteq> Some 200")
  case False
  then obtain b where b: "decode_throttle r = Some b" "out_of_range_check (throttle_checks b) = None"
    "reply_status rep = Some 200"
    "s' = put_srv_db (upd_sessions (\<lambda>x. sr_session_id x = rq_param r) (throttle_row (c_now (E 0)) b) (srv_db s)) s"
    using updateThrottle_cases [OF assms(2)] by blast
  then have "\<forall>x \<in> set (t_sessions (srv_db s')). settings_ok x"
    using assms(1) throttle_row_settings [OF b(2)] by (auto simp: set_update_where)
  with b show ?thesis by (auto simp: upd_sessions_def update_where_def)
qed (use assms(1) in simp)

definition sample_throttle :: request where
  "sample_throttle = sample_request [] [] ''main'' [(''maxMessagesPerMinute'', JInt 60)]"

theorem throttle_settings_kept_witness:
  "list_all settings_ok (t_sessions (srv_db (snd (updateThrottle sample_cfg (\<lambda>_. sample_ctx) sample_throttle None sample_srv))))"
proof -
  have "\<forall>x \<in> set (t_sessions (srv_db sample_srv)). settings_ok x"
    by (simp add: settings_ok_def sample_session_row_def)
  from throttle_settings_kept [OF this, of sample_cfg "\<lambda>_. sample_ctx" sample_throttle None
      "fst (updateThrottle sample_cfg (\<lambda>_. sample_ctx) sample_throttle None sample_srv)"
      "snd (updateThrottle sample_cfg (\<lambda>_. sample_ctx) sample_throttle None sample_srv)"]
  show ?thesis by (simp add: list_all_iff)
qed

section \<open>Logging out\<close>

lemma logout_client:
  assumes "client_action cf E ''logged_out'' i s = (None, m)" "cf_whatsapp cf"
  shows "sm_clients m i = None"
proof -
  have "m = snd (sm_Logout (E 2) i (sv_mgr s))" using assms by (simp add: client_action_def)
  then show ?thesis by (simp add: sm_Logout_def drop_client_def split: option.split)
qed

lemma srv_view_id: "srv_ok cf s \<Longrightarrow> srv_view cf s i = Some v \<Longrightarrow> s_SessionID v = i"
  by (auto simp: srv_view_def pg_view_def session_of_row_def memory_view_def srv_ok_def
      dest: find_SomeD memory_ok_key split: if_splits)

text \<open>Putting a session that exists; on PostgreSQL its codes stay as they are.\<close>

lemma put_existing:
  assumes "srv_ok cf s" "srv_view cf s i = Some v" "s_SessionID x = i" "PutSession (srv_store cf) c x s = (res, s1)"
  shows "\<exists>v1. srv_view cf s1 i = Some v1 \<and> (res = None \<longrightarrow> s_Status v1 = s_Status x) \<and> (res \<noteq> None \<longrightarrow> s1 = s)
    \<and> (\<forall>j. j \<noteq> i \<longrightarrow> srv_view cf s1 j = srv_view cf s j)
    \<and> (cf_db cf \<longrightarrow> s_QRCode v1 = s_QRCode v \<and> s_PairingCode v1 = s_PairingCode v)"
proof (cases res)
  case (Some e)
  with assms srv_sessions.put_fail show ?thesis by fastforce
next
  case None
  with assms obtain v1 where v1: "srv_view cf s1 i = Some v1" "s_Status v1 = s_Status x"
    using srv_sessions.put_view by metis
  have "s_QRCode v1 = s_QRCode v \<and> s_PairingCode v1 = s_PairingCode v" if "cf_db cf"
  proof -
    have "pg_PutSession c x (srv_db s) = (None, srv_db s1)"
      using assms(4) None that by (auto simp: srv_store_def lift_write_def split: prod.splits)
    from pg_view_put_existing [OF this, of i] that assms(2,3) v1(1) show ?thesis by (auto simp: srv_view_def)
  qed
  with v1 None assms srv_sessions.put_frame show ?thesis by blast
qed

lemma put_existing_total:
  assumes "srv_view cf s i = Some v" "s_SessionID x = i" "c_fault c 0 = None"
  shows "fst (PutSession (srv_store cf) c x s) = None"
proof (cases "cf_db cf")
  case True
  with assms have "i \<in> sr_session_id ` set (t_sessions (srv_db s))"
    using pg_view_None [of "srv_db s" i] by (simp add: srv_view_def)
  with True assms show ?thesis by (simp add: srv_store_def pg_PutSession_def)
qed (simp add: srv_store_def mem_PutSession_def)

text \<open>
  Logging a session out.  After \<open>POST /sessions/{id}/logout\<close> answered 200, the session manager has no client
  for the session any more, so that the worker cannot send for it, its status is \<open>disconnected\<close>, or
  \<open>logged_out\<close> when the second statement failed, and no other session changed.  With PostgreSQL the QR code
  and the pairing code the session had are still stored: the upsert does not write these columns.
\<close>

theorem logout_effect:
  assumes "srv_ok cf s" "sessionAction cf ''logged_out'' E r p s = (rep, s')" "reply_status rep = Some 200"
  shows "\<exists>v v'. srv_view cf s (rq_param r) = Some v \<and> srv_view cf s' (rq_param r) = Some v'
    \<and> s_Status v' \<in> {''disconnected'', ''logged_out''} \<and> (c_fault (E 4) 0 = None \<longrightarrow> s_Status v' = ''disconnected'')
    \<and> (cf_whatsapp cf \<longrightarrow> sm_clients (sv_mgr s') (rq_param r) = None)
    \<and> (\<forall>j. j \<noteq> rq_param r \<longrightarrow> srv_view cf s' j = srv_view cf s j)
    \<and> (cf_db cf \<longrightarrow> s_QRCode v' = s_QRCode v \<and> s_PairingCode v' = s_PairingCode v)"
proof -
  let ?i = "rq_param r"
  obtain v0 where get: "GetSession (srv_store cf) (E 0) ?i s = Inr (Some v0)"
    using assms(2,3) by (auto simp: sessionAction_def split: sum.splits option.splits)
  then have v0: "srv_view cf s ?i = Some v0" using srv_sessions.get_view [OF assms(1)] by metis
  define v where "v = v0\<lparr>s_Status := ''logged_out'', s_UpdatedAt := c_now (E 1)\<rparr>"
  obtain s1 m where put: "PutSession (srv_store cf) (E 1) v s = (None, s1)"
    and act: "client_action cf E ''logged_out'' ?i s1 = (None, m)"
    and rest: "dispatchSessionEvent cf (E 3) ''logged_out'' ?i (s_PhoneNumber v) (action_done cf E ''logged_out'' v)
      (s1\<lparr>sv_mgr := m\<rparr>) = (rep, s')"
    using assms(2,3) get by (auto simp: sessionAction_def v_def Let_def split: prod.splits option.splits)
  have id: "s_SessionID v = ?i" using srv_view_id [OF assms(1) v0] by (simp add: v_def)
  have "srv_ok cf s1" using srv_sessions.put_ok [OF assms(1), of "E 1" v] put by simp
  then have "srv_ok cf (s1\<lparr>sv_mgr := m\<rparr>)" using client_action_ok [of cf s1 E "''logged_out''" ?i] act by (simp add: srv_ok_mgr)
  from dispatch_event_run [OF this, of "E 3" "''logged_out''" ?i "s_PhoneNumber v"] obtain w where w:
    "\<forall>k. dispatchSessionEvent cf (E 3) ''logged_out'' ?i (s_PhoneNumber v) k (s1\<lparr>sv_mgr := m\<rparr>) = k (s1\<lparr>sv_mgr := m, sv_world := w\<rparr>)"
    "srv_ok cf (s1\<lparr>sv_mgr := m, sv_world := w\<rparr>)" "w_db w = srv_db (s1\<lparr>sv_mgr := m\<rparr>)" by auto
  let ?s2 = "s1\<lparr>sv_mgr := m, sv_world := w\<rparr>" and ?x = "v\<lparr>s_Status := ''disconnected'', s_QRCode := [], s_PairingCode := [], s_QRExpiresAt := None\<rparr>"
  obtain res where put2: "PutSession (srv_store cf) (E 4) ?x ?s2 = (res, s')"
    using rest w(1) by (auto simp: action_done_def split: prod.splits)
  have view2: "srv_view cf ?s2 = srv_view cf s1" using srv_view_world [OF w(3)] by simp
  from put_existing [OF assms(1) v0 id put] obtain v1 where v1: "srv_view cf s1 ?i = Some v1" "s_Status v1 = ''logged_out''"
    "\<forall>j. j \<noteq> ?i \<longrightarrow> srv_view cf s1 j = srv_view cf s j"
    "cf_db cf \<longrightarrow> s_QRCode v1 = s_QRCode v0 \<and> s_PairingCode v1 = s_PairingCode v0" by (auto simp: v_def)
  from put_existing [OF w(2) _ _ put2, of ?i v1] v1 view2 id obtain v2 where v2: "srv_view cf s' ?i = Some v2"
    "res = None \<longrightarrow> s_Status v2 = ''disconnected''" "res \<noteq> None \<longrightarrow> s' = ?s2"
    "\<forall>j. j \<noteq> ?i \<longrightarrow> srv_view cf s' j = srv_view cf s1 j"
    "cf_db cf \<longrightarrow> s_QRCode v2 = s_QRCode v1 \<and> s_PairingCode v2 = s_PairingCode v1" by auto
  have mgr: "sv_mgr s' = m" using put2 by (auto simp: srv_store_def lift_write_def split: if_splits prod.splits)
  have "c_fault (E 4) 0 = None \<Longrightarrow> res = None"
    using put_existing_total [of cf ?s2 ?i v1 ?x "E 4"] put2 v1(1) view2 id by simp
  with v0 v1 v2 mgr view2 logout_client [OF act] show ?thesis by (cases res) auto
qed

theorem logout_effect_witness:
  "\<exists>v. srv_view sample_cfg (snd (sessionAction (sample_cfg\<lparr>cf_whatsapp := False\<rparr>) ''logged_out'' (\<lambda>_. sample_ctx)
      (sample_request [] [] ''main'' []) None sample_srv)) ''main'' = Some v \<and> s_Status v = ''disconnected''"
proof -
  let ?cf = "sample_cfg\<lparr>cf_whatsapp := False\<rparr>" and ?r = "sample_request [] [] ''main'' []"
  define x where "x = sessionAction ?cf ''logged_out'' (\<lambda>_. sample_ctx) ?r None sample_srv"
  have "reply_status (fst x) = Some 200"
    by (simp add: x_def sessionAction_def srv_store_def pg_GetSession_def session_of_row_def sample_session_row_def lift_write_def
        pg_PutSession_def client_action_def dispatchSessionEvent_def broker_dispatch_def Broker_Dispatch_def NewBroker_def
        action_done_def split_beta Let_def)
  moreover have "srv_ok ?cf sample_srv" using sample_srv_ok by (simp add: srv_ok_def)
  ultimately show ?thesis
    using logout_effect [of ?cf sample_srv "\<lambda>_. sample_ctx" ?r None "fst x" "snd x"] by (auto simp: x_def srv_view_def)
qed

end
