(* ===== verification/Http_Account.thy ===== *)
theory Http_Account
  imports Http_Base
begin

text \<open>
  The handlers of \<open>internal/httpapi/server.go\<close> for users and API keys: \<open>login\<close>, \<open>refresh\<close>, \<open>refreshFromCookie\<close>,
  \<open>logout\<close>, \<open>changePassword\<close> and the API-key operations, over the service of \<open>Auth_Model\<close>.  They show the service's
  errors to the client as status codes and carry the refresh token in a cookie.
\<close>

section \<open>Tokens\<close>

definition tokens_reply :: "string \<times> string \<times> int \<Rightarrow> reply" where
  "tokens_reply t = (case t of (access, refresh, expires) \<Rightarrow>
     with_cookie (SetRefresh refresh) (write_json 200 (JObj [(''accessToken'', JStr access), (''expiresIn'', JInt expires)])))"

definition decode_two :: "string \<Rightarrow> string \<Rightarrow> request \<Rightarrow> (string \<times> string) option" where
  "decode_two a b r = do { kvs \<leftarrow> decode r; x \<leftarrow> dec_str a kvs; y \<leftarrow> dec_str b kvs; Some (x, y) }"

text \<open>A decoded body in which both texts are non-empty.\<close>

definition nonempty_two :: "(string \<times> string) option \<Rightarrow> (string \<times> string) option" where
  "nonempty_two b = (case b of Some (x, y) \<Rightarrow> if x = [] \<or> y = [] then None else Some (x, y) | None \<Rightarrow> None)"

definition login :: "srv_cfg \<Rightarrow> handler" where
  "login cf E r p s =
     (if \<not> cf_auth cf then (writeError 501 ''authentication is not configured'', s)
      else case nonempty_two (decode_two ''username'' ''password'' r) of
        None \<Rightarrow> (writeError 400 ''username and password must be non-empty strings'', s)
      | Some (username, password) \<Rightarrow>
         auth_exec cf (Login (cf_auth_params cf) (E 0) username password)
           (\<lambda>res s1. case res of Inl e \<Rightarrow> (writeError 401 ''Invalid credentials'', s1)
             | Inr t \<Rightarrow> (tokens_reply t, s1)) s)"

definition refreshToken :: "srv_cfg \<Rightarrow> handler" where
  "refreshToken cf E r p s =
     (if \<not> cf_auth cf then (writeError 501 ''authentication is not configured'', s)
      else case rq_cookie r of None \<Rightarrow> (writeError 401 ''Missing refresh token'', s)
      | Some token \<Rightarrow>
         auth_exec cf (Refresh (cf_auth_params cf) (E 0) token)
           (\<lambda>res s1. case res of Inl e \<Rightarrow> (with_cookie ClearRefresh (writeError 401 ''Invalid refresh token''), s1)
             | Inr t \<Rightarrow> (tokens_reply t, s1)) s)"

definition refresh_handler :: "srv_cfg \<Rightarrow> handler" where
  "refresh_handler cf = refreshToken cf"

definition no_content :: reply where
  "no_content = Answer \<lparr>rs_status = 204, rs_body = None, rs_cookie = None\<rparr>"

definition refreshFromCookie :: "srv_cfg \<Rightarrow> handler" where
  "refreshFromCookie cf E r p s = (if rq_cookie r = None then (no_content, s) else refreshToken cf E r p s)"

text \<open>The error of \<open>Logout\<close> is dropped.\<close>

definition logout :: "srv_cfg \<Rightarrow> handler" where
  "logout cf E r p s =
     (let ok = (\<lambda>s1. (with_cookie ClearRefresh (write_json 200 (done_text ''Logged out'')), s1)) in
      case p of Some q \<Rightarrow> if \<not> p_IsAPIKey q
          then auth_exec cf (Logout (cf_auth_params cf) (E 0) (p_UserID q)) (\<lambda>_. ok) s else ok s
      | None \<Rightarrow> ok s)"

definition changePassword :: "srv_cfg \<Rightarrow> handler" where
  "changePassword cf E r p s =
     (case p of None \<Rightarrow> (writeError 401 ''User authentication required'', s)
      | Some q \<Rightarrow>
         if p_IsAPIKey q then (writeError 401 ''User authentication required'', s)
         else case nonempty_two (decode_two ''oldPassword'' ''newPassword'' r) of
           None \<Rightarrow> (writeError 400 ''oldPassword and newPassword are required'', s)
         | Some (old, new) \<Rightarrow>
            auth_exec cf (ChangePassword (cf_auth_params cf) (E 0) (p_UserID q) old new)
              (\<lambda>res s1. case res of
                 Some e \<Rightarrow> (if is_unauthorized e then writeError 401 ''Invalid old password'' else writeError 500 (err_text e), s1)
               | None \<Rightarrow> (with_cookie ClearRefresh (write_json 200 (done_text ''Password changed'')), s1)) s)"

section \<open>API keys\<close>

definition api_key_fields :: "api_key \<Rightarrow> (string \<times> json) list" where
  "api_key_fields k = [(''allowed_ips'', JArr (map JStr (k_AllowedIPs k))), (''rate_limit'', opt_json (k_RateLimit k)),
     (''session_id'', JStr (k_SessionID k)), (''is_active'', JBool (k_IsActive k)), (''created_at'', JTime (k_CreatedAt k)),
     (''updated_at'', JTime (k_UpdatedAt k))]"

definition api_key_json :: "api_key \<Rightarrow> json" where
  "api_key_json k = JObj ([(''id'', JStr (k_ID k)), (''name'', JStr (k_Name k)), (''key_prefix'', JStr (k_KeyPrefix k))]
     @ api_key_fields k)"

text \<open>The answer of \<open>createAPIKey\<close> is the only one that shows the key itself.\<close>

definition created_key_json :: "api_key \<Rightarrow> string \<Rightarrow> json" where
  "created_key_json k key = JObj ([(''id'', JStr (k_ID k)), (''name'', JStr (k_Name k)), (''key_prefix'', JStr (k_KeyPrefix k)),
     (''key'', JStr key)] @ api_key_fields k)"

definition listAPIKeys :: "srv_cfg \<Rightarrow> handler" where
  "listAPIKeys cf E r p s = (if \<not> cf_auth cf then (Crash, s)
     else case ListAPIKeys (E 0) (srv_db s) of Inl e \<Rightarrow> (writeError 500 (err_text e), s)
       | Inr ks \<Rightarrow> (write_json 200 (nil_json (map api_key_json ks)), s))"

record key_body =
  kb_Name :: string
  kb_AllowedIPs :: "string list option"
  kb_RateLimit :: "int option"
  kb_SessionID :: string
  kb_IsActive :: "bool option"

definition decode_key :: "request \<Rightarrow> key_body option" where
  "decode_key r = do {
     kvs \<leftarrow> decode r;
     name \<leftarrow> dec_str ''name'' kvs; ips \<leftarrow> dec_slice ''allowedIps'' kvs; limit \<leftarrow> dec_int_ptr ''rateLimit'' kvs;
     sessionID \<leftarrow> dec_str ''sessionId'' kvs; active \<leftarrow> dec_bool_ptr ''isActive'' kvs;
     if trim_space name = [] then None
     else Some \<lparr>kb_Name = trim_space name, kb_AllowedIPs = ips, kb_RateLimit = limit, kb_SessionID = sessionID,
       kb_IsActive = active\<rparr> }"

definition createAPIKey :: "srv_cfg \<Rightarrow> handler" where
  "createAPIKey cf E r p s =
     (case decode_key r of None \<Rightarrow> (writeError 400 ''name is required'', s)
      | Some b \<Rightarrow>
         auth_exec cf (CreateAPIKey (cf_auth_params cf) (E 0) (kb_Name b) (kb_AllowedIPs b) (kb_RateLimit b) (kb_SessionID b)
             (case kb_IsActive b of None \<Rightarrow> True | Some a \<Rightarrow> a))
           (\<lambda>res s1. case res of Inl e \<Rightarrow> (writeError 500 (err_text e), s1)
             | Inr (k, key) \<Rightarrow> (write_json 201 (created_key_json k key), s1)) s)"

definition key_error :: "err \<Rightarrow> reply" where
  "key_error e = (if is_no_rows e then writeError 404 ''API key not found'' else writeError 500 (err_text e))"

definition updateAPIKey :: "srv_cfg \<Rightarrow> handler" where
  "updateAPIKey cf E r p s =
     (case decode_key r of None \<Rightarrow> (writeError 400 ''name is required'', s)
      | Some b \<Rightarrow>
         auth_exec cf (UpdateAPIKey (cf_auth_params cf) (E 0) (rq_param r) (kb_Name b) (kb_AllowedIPs b) (kb_RateLimit b)
             (kb_SessionID b) (kb_IsActive b))
           (\<lambda>res s1. case res of Inl e \<Rightarrow> (key_error e, s1) | Inr k \<Rightarrow> (write_json 200 (api_key_json k), s1)) s)"

definition deleteAPIKey :: "srv_cfg \<Rightarrow> handler" where
  "deleteAPIKey cf E r p s =
     auth_exec cf (DeleteAPIKey (cf_auth_params cf) (E 0) (rq_param r))
       (\<lambda>res s1. case res of Some e \<Rightarrow> (key_error e, s1)
         | None \<Rightarrow> (write_json 200 (done_text ''API key deleted''), s1)) s"

section \<open>The invariant is kept\<close>

text \<open>The service never touches the messages.\<close>

lemma auth_messages [simp]:
  "t_messages (snd (issue P c n i u d)) = t_messages d" "t_messages (snd (Login P c u pw d)) = t_messages d"
  "t_messages (snd (Refresh P c t d)) = t_messages d" "t_messages (snd (Logout P c i d)) = t_messages d"
  "t_messages (snd (ChangePassword P c i old new d)) = t_messages d"
  "t_messages (snd (CreateAPIKey P c nm a rl se b d)) = t_messages d"
  "t_messages (snd (DeleteAPIKey P c i d)) = t_messages d"
  "t_messages (snd (UpdateAPIKey P c i nm a rl se ac d)) = t_messages d"
  by (simp_all add: Login_def Refresh_def issue_def Logout_def ChangePassword_def CreateAPIKey_def DeleteAPIKey_def
      UpdateAPIKey_def delete_api_key_rows_def Let_def split: option.split sum.split)

lemma auth_pg_ok:
  assumes "pg_ok u d"
  shows "pg_ok u (snd (Login P c n pw d))" "pg_ok u (snd (Refresh P c t d))" "pg_ok u (snd (Logout P c i d))"
    "pg_ok u (snd (ChangePassword P c i old new d))" "pg_ok u (snd (CreateAPIKey P c nm a rl se b d))"
    "pg_ok u (snd (DeleteAPIKey P c i d))" "pg_ok u (snd (UpdateAPIKey P c i nm a rl se ac d))"
  using assms pg_ok_db_ok [OF assms] by (auto intro!: pg_ok_other [OF assms] auth_ok)

lemma account_ok:
  assumes "srv_ok cf s"
  shows "srv_ok cf (snd (login cf E r p s))" "srv_ok cf (snd (refreshToken cf E r p s))"
    "srv_ok cf (snd (logout cf E r p s))" "srv_ok cf (snd (changePassword cf E r p s))"
    "srv_ok cf (snd (createAPIKey cf E r p s))" "srv_ok cf (snd (updateAPIKey cf E r p s))"
    "srv_ok cf (snd (deleteAPIKey cf E r p s))" "srv_ok cf (snd (listAPIKeys cf E r p s))"
  using assms srv_ok_pg [OF assms]
  by (auto simp: login_def refreshToken_def logout_def changePassword_def createAPIKey_def updateAPIKey_def deleteAPIKey_def
      listAPIKeys_def auth_pg_ok Let_def intro!: auth_exec_ok split: option.split sum.split)

lemma refresh_handlers_ok:
  "srv_ok cf s \<Longrightarrow> srv_ok cf (snd (refresh_handler cf E r p s))"
  "srv_ok cf s \<Longrightarrow> srv_ok cf (snd (refreshFromCookie cf E r p s))"
  by (simp_all add: refresh_handler_def refreshFromCookie_def account_ok)

end
