(* ===== verification/Http_Config.thy ===== *)
theory Http_Config
  imports Http_Base
begin

text \<open>
  The handlers of \<open>internal/httpapi/server.go\<close> for message templates and webhooks, with the statements they send.
\<close>

section \<open>Templates\<close>

definition template_json :: "template_row \<Rightarrow> json" where
  "template_json t = JObj [(''id'', JStr (tr_id t)), (''name'', JStr (tr_name t)), (''body'', JStr (tr_body t)),
     (''created_at'', JTime (tr_created_at t)), (''updated_at'', JTime (tr_updated_at t))]"

definition listTemplates :: "srv_cfg \<Rightarrow> handler" where
  "listTemplates cf E r p s = (if \<not> cf_db cf then (writeError 501 ''database is not configured'', s)
     else db_query cf (E 0) (\<lambda>d. Inr (sort_key (\<lambda>t. - tr_created_at t) (t_templates d)))
       (\<lambda>res. case res of Inl e \<Rightarrow> (writeError 500 (err_text e), s)
         | Inr ts \<Rightarrow> (write_json 200 (JArr (map template_json ts)), s)) s)"

text \<open>Name and body, trimmed; \<open>None\<close> when the body does not decode or one of them is empty.\<close>

definition decode_template :: "request \<Rightarrow> (string \<times> string) option" where
  "decode_template r = do {
     kvs \<leftarrow> decode r;
     name \<leftarrow> dec_str ''name'' kvs; body \<leftarrow> dec_str ''body'' kvs;
     if trim_space name = [] \<or> trim_space body = [] then None else Some (trim_space name, trim_space body) }"

definition insert_template :: "ctx \<Rightarrow> string \<Rightarrow> string \<Rightarrow> db \<Rightarrow> (err + template_row) \<times> db" where
  "insert_template c name body d =
     (let t = \<lparr>tr_id = c_gen c, tr_name = name, tr_body = body, tr_created_at = c_now c, tr_updated_at = c_now c\<rparr> in
      if tr_id t \<in> tr_id ` set (t_templates d) \<or> name \<in> tr_name ` set (t_templates d) then (Inl unique_violation, d)
      else (Inr t, d\<lparr>t_templates := t_templates d @ [t]\<rparr>))"

definition createTemplate :: "srv_cfg \<Rightarrow> handler" where
  "createTemplate cf E r p s = (case decode_template r of None \<Rightarrow> (writeError 400 ''name and body are required'', s)
     | Some (name, body) \<Rightarrow> db_exec cf (E 0) (insert_template (E 0) name body)
         (\<lambda>res s1. case res of Inl e \<Rightarrow> (writeError 400 (err_text e), s1) | Inr t \<Rightarrow> (write_json 201 (template_json t), s1)) s)"

definition getTemplate :: "srv_cfg \<Rightarrow> handler" where
  "getTemplate cf E r p s = db_query cf (E 0)
     (\<lambda>d. by_uuid cf (rq_param r) (\<lambda>u. scan_row (find (\<lambda>t. tr_id t = u) (t_templates d))))
     (\<lambda>res. case res of Inl e \<Rightarrow> (if is_no_rows e then writeError 404 ''Template not found'' else writeError 500 (err_text e), s)
       | Inr t \<Rightarrow> (write_json 200 (template_json t), s)) s"

definition template_update_row :: "time \<Rightarrow> string \<Rightarrow> string \<Rightarrow> template_row \<Rightarrow> template_row" where
  "template_update_row now name body t = t\<lparr>tr_name := name, tr_body := body, tr_updated_at := now\<rparr>"

text \<open>The name is unique: taking that of another template violates the constraint.\<close>

definition update_template :: "srv_cfg \<Rightarrow> ctx \<Rightarrow> string \<Rightarrow> string \<Rightarrow> string \<Rightarrow> db \<Rightarrow> (err + template_row) \<times> db" where
  "update_template cf c i name body d = (case cf_uuid cf i of None \<Rightarrow> (Inl invalid_text, d)
     | Some u \<Rightarrow> (case find (\<lambda>t. tr_id t = u) (t_templates d) of None \<Rightarrow> (Inl (Sentinel NoRows), d)
        | Some t \<Rightarrow>
           if \<exists>x \<in> set (t_templates d). tr_name x = name \<and> tr_id x \<noteq> u then (Inl unique_violation, d)
           else (Inr (template_update_row (c_now c) name body t),
             d\<lparr>t_templates := update_where (\<lambda>x. tr_id x = u) (template_update_row (c_now c) name body) (t_templates d)\<rparr>)))"

definition updateTemplate :: "srv_cfg \<Rightarrow> handler" where
  "updateTemplate cf E r p s = (case decode_template r of None \<Rightarrow> (writeError 400 ''name and body are required'', s)
     | Some (name, body) \<Rightarrow> db_exec cf (E 0) (update_template cf (E 0) (rq_param r) name body)
         (\<lambda>res s1. case res of
            Inl e \<Rightarrow> (if is_no_rows e then writeError 404 ''Template not found'' else writeError 400 (err_text e), s1)
          | Inr t \<Rightarrow> (write_json 200 (template_json t), s1)) s)"

definition delete_template :: "srv_cfg \<Rightarrow> string \<Rightarrow> db \<Rightarrow> (err + nat) \<times> db" where
  "delete_template cf i d = (case cf_uuid cf i of None \<Rightarrow> (Inl invalid_text, d)
     | Some u \<Rightarrow> (case delete_template_rows u d of Inl e \<Rightarrow> (Inl e, d)
        | Inr d' \<Rightarrow> (Inr (length (t_templates d) - length (t_templates d')), d')))"

text \<open>\<open>err.(*pq.Error)\<close> holds for errors of the lib/pq driver only.\<close>

definition pq_foreign_key :: "err \<Rightarrow> bool" where
  "pq_foreign_key e \<longleftrightarrow> (case e of PqError code t \<Rightarrow> code = ''23503'' | _ \<Rightarrow> False)"

definition deleteTemplate :: "srv_cfg \<Rightarrow> handler" where
  "deleteTemplate cf E r p s = db_exec cf (E 0) (delete_template cf (rq_param r))
     (\<lambda>res s1. case res of
        Inl e \<Rightarrow> (if pq_foreign_key e then writeError 409 ''Template cannot be deleted because it is used by message history''
                  else writeError 500 (err_text e), s1)
      | Inr n \<Rightarrow> (if n = 0 then writeError 404 ''Template not found''
                  else write_json 200 (done_text ''Template deleted''), s1)) s"

section \<open>Webhooks\<close>

definition listed_webhook_json :: "webhook_row \<Rightarrow> json" where
  "listed_webhook_json w = JObj [(''id'', JStr (wr_id w)), (''url'', JStr (wr_url w)), (''events'', JArr (map JStr (wr_events w))),
     (''session_ids'', JArr (map JStr (case wr_session_ids w of None \<Rightarrow> [] | Some xs \<Rightarrow> xs))),
     (''api_key_id'', JStr (coalesce (wr_api_key_id w))), (''has_secret'', JBool (coalesce (wr_secret_encrypted w) \<noteq> [])),
     (''is_active'', JBool (wr_is_active w)), (''created_at'', JTime (wr_created_at w)), (''updated_at'', JTime (wr_updated_at w))]"

definition listWebhooks :: "srv_cfg \<Rightarrow> handler" where
  "listWebhooks cf E r p s = db_query cf (E 0) (\<lambda>d. Inr (sort_key (\<lambda>w. - wr_created_at w) (t_webhooks d)))
     (\<lambda>res. case res of Inl e \<Rightarrow> (writeError 500 (err_text e), s)
       | Inr ws \<Rightarrow> (write_json 200 (nil_json (map listed_webhook_json ws)), s)) s"

record webhook_body =
  wb_URL :: string
  wb_Events :: "string list"
  wb_Secret :: string
  wb_SessionIDs :: "string list option"
  wb_IsActive :: "bool option"

definition decode_webhook :: "request \<Rightarrow> webhook_body option" where
  "decode_webhook r = do {
     kvs \<leftarrow> decode r;
     url \<leftarrow> dec_str ''url'' kvs; events \<leftarrow> dec_slice ''events'' kvs; secret \<leftarrow> dec_str ''secret'' kvs;
     sessions \<leftarrow> dec_slice ''sessionIds'' kvs; active \<leftarrow> dec_bool_ptr ''isActive'' kvs;
     (case events of Some (v # vs) \<Rightarrow>
        if trim_space url = [] then None
        else Some \<lparr>wb_URL = url, wb_Events = v # vs, wb_Secret = secret, wb_SessionIDs = sessions, wb_IsActive = active\<rparr>
      | _ \<Rightarrow> None) }"

definition encrypt_secret :: "srv_cfg \<Rightarrow> ctx \<Rightarrow> webhook_body \<Rightarrow> err + string" where
  "encrypt_secret cf c b = Encrypt (hp_cipher (cf_hooks cf)) c (trim_space (wb_Secret b)) (hp_key (cf_hooks cf))"

definition insert_webhook :: "ctx \<Rightarrow> webhook_body \<Rightarrow> string \<Rightarrow> bool \<Rightarrow> db \<Rightarrow> (err + webhook_row) \<times> db" where
  "insert_webhook c b enc active d =
     (let w = \<lparr>wr_id = c_gen c, wr_url = wb_URL b, wr_events = wb_Events b, wr_secret_encrypted = Some enc,
          wr_session_ids = wb_SessionIDs b, wr_api_key_id = None, wr_is_active = active,
          wr_created_at = c_now c, wr_updated_at = c_now c\<rparr> in
      if wr_id w \<in> wr_id ` set (t_webhooks d) then (Inl unique_violation, d)
      else (Inr w, d\<lparr>t_webhooks := t_webhooks d @ [w]\<rparr>))"

definition webhook_json :: "webhook_row \<Rightarrow> webhook_body \<Rightarrow> json \<Rightarrow> json" where
  "webhook_json w b active = JObj [(''id'', JStr (wr_id w)), (''url'', JStr (wb_URL b)), (''events'', JArr (map JStr (wb_Events b))),
     (''session_ids'', strs_json (wb_SessionIDs b)), (''is_active'', active),
     (''created_at'', JTime (wr_created_at w)), (''updated_at'', JTime (wr_updated_at w))]"

definition createWebhook :: "srv_cfg \<Rightarrow> handler" where
  "createWebhook cf E r p s = (case decode_webhook r of None \<Rightarrow> (writeError 400 ''url and events are required'', s)
     | Some b \<Rightarrow>
        let active = (case wb_IsActive b of None \<Rightarrow> True | Some a \<Rightarrow> a) in
     (case encrypt_secret cf (E 0) b of Inl e \<Rightarrow> (writeError 500 (err_text e), s)
      | Inr enc \<Rightarrow> db_exec cf (E 1) (insert_webhook (E 1) b enc active)
          (\<lambda>res s1. case res of Inl e \<Rightarrow> (writeError 400 (err_text e), s1)
            | Inr w \<Rightarrow> (write_json 201 (webhook_json w b (JBool active)), s1)) s))"

definition webhook_update_row :: "time \<Rightarrow> webhook_body \<Rightarrow> string \<Rightarrow> webhook_row \<Rightarrow> webhook_row" where
  "webhook_update_row now b enc w = w\<lparr>wr_url := wb_URL b, wr_events := wb_Events b,
     wr_secret_encrypted := (if enc = [] then wr_secret_encrypted w else Some enc), wr_session_ids := wb_SessionIDs b,
     wr_is_active := (case wb_IsActive b of None \<Rightarrow> wr_is_active w | Some a \<Rightarrow> a), wr_updated_at := now\<rparr>"

definition update_webhook :: "srv_cfg \<Rightarrow> ctx \<Rightarrow> string \<Rightarrow> webhook_body \<Rightarrow> string \<Rightarrow> db \<Rightarrow> (err + webhook_row) \<times> db" where
  "update_webhook cf c i b enc d = (case cf_uuid cf i of None \<Rightarrow> (Inl invalid_text, d)
     | Some u \<Rightarrow> (case find (\<lambda>w. wr_id w = u) (t_webhooks d) of None \<Rightarrow> (Inl (Sentinel NoRows), d)
        | Some w \<Rightarrow> (Inr (webhook_update_row (c_now c) b enc w),
            d\<lparr>t_webhooks := update_where (\<lambda>x. wr_id x = u) (webhook_update_row (c_now c) b enc) (t_webhooks d)\<rparr>)))"

definition updateWebhook :: "srv_cfg \<Rightarrow> handler" where
  "updateWebhook cf E r p s = (case decode_webhook r of None \<Rightarrow> (writeError 400 ''url and events are required'', s)
     | Some b \<Rightarrow>
     (case encrypt_secret cf (E 0) b of Inl e \<Rightarrow> (writeError 500 (err_text e), s)
      | Inr enc \<Rightarrow> db_exec cf (E 1) (update_webhook cf (E 1) (rq_param r) b enc)
          (\<lambda>res s1. case res of
             Inl e \<Rightarrow> (if is_no_rows e then writeError 404 ''Webhook not found'' else writeError 400 (err_text e), s1)
           | Inr w \<Rightarrow> (write_json 200 (webhook_json w b (case wb_IsActive b of None \<Rightarrow> JNull | Some a \<Rightarrow> JBool a)), s1)) s))"

definition delete_webhook :: "srv_cfg \<Rightarrow> string \<Rightarrow> db \<Rightarrow> (err + nat) \<times> db" where
  "delete_webhook cf i d = (case cf_uuid cf i of None \<Rightarrow> (Inl invalid_text, d)
     | Some u \<Rightarrow> (Inr (length (t_webhooks d) - length (t_webhooks (delete_webhook_rows u d))), delete_webhook_rows u d))"

definition deleteWebhook :: "srv_cfg \<Rightarrow> handler" where
  "deleteWebhook cf E r p s = db_exec cf (E 0) (delete_webhook cf (rq_param r))
     (\<lambda>res s1. case res of Inl e \<Rightarrow> (writeError 500 (err_text e), s1)
       | Inr n \<Rightarrow> (if n = 0 then writeError 404 ''Webhook not found'' else write_json 200 (done_text ''Webhook deleted''), s1)) s"

definition put_hooks :: "hooks \<Rightarrow> srv \<Rightarrow> srv" where
  "put_hooks h s = s\<lparr>sv_world := (sv_world s)\<lparr>w_hooks := h\<rparr>\<rparr>"

definition queued_json :: "string \<Rightarrow> json" where
  "queued_json i = JObj [(''deliveryId'', JStr i), (''status'', JStr ''queued'')]"

definition hook_error :: "string \<Rightarrow> err \<Rightarrow> reply" where
  "hook_error t e = (if is_no_rows e then writeError 404 t else writeError 500 (err_text e))"

definition testWebhook :: "srv_cfg \<Rightarrow> handler" where
  "testWebhook cf E r p s =
     (if cf_dispatcher cf then
        (case Test (cf_hooks cf) (E 0) (rq_param r) (w_hooks (sv_world s)) of
           (i, Some e, h) \<Rightarrow> (hook_error ''Webhook not found'' e, put_hooks h s)
         | (i, None, h) \<Rightarrow> (write_json 202 (queued_json i), put_hooks h s))
      else db_query cf (E 0) (\<lambda>d. by_uuid cf (rq_param r) (\<lambda>u. scan_row (find (\<lambda>w. wr_id w = u) (t_webhooks d))))
        (\<lambda>res. case res of Inl e \<Rightarrow> (hook_error ''Webhook not found'' e, s)
          | Inr w \<Rightarrow> (write_json 202 (queued_json []), s)) s)"

definition retryWebhook :: "srv_cfg \<Rightarrow> handler" where
  "retryWebhook cf E r p s =
     (if \<not> cf_dispatcher cf then (writeError 501 ''webhook dispatcher is not configured'', s)
      else case Retry (cf_hooks cf) (E 0) (rq_param r) (w_hooks (sv_world s)) of
        (Some e, h) \<Rightarrow> (hook_error ''Delivery not found'' e, put_hooks h s)
      | (None, h) \<Rightarrow> (write_json 200 (JObj [(''id'', JStr (rq_param r)), (''status'', JStr ''queued'')]), put_hooks h s))"

section \<open>The invariant is kept\<close>

lemma insert_template_pg_ok: "pg_ok u d \<Longrightarrow> pg_ok u (snd (insert_template c n b d))"
  by (auto simp: insert_template_def Let_def pg_ok_def db_ok_defs)

lemma template_update_row_name [simp]: "tr_name (template_update_row now n b t) = n"
  by (simp add: template_update_row_def)

lemma update_template_ids:
  "map tr_id (update_where q (template_update_row now n b) ts) = map tr_id ts"
  by (rule map_update_where) (simp add: template_update_row_def)

lemma update_template_names:
  assumes "distinct (map tr_name ts)" "distinct (map tr_id ts)" "\<not> (\<exists>x \<in> set ts. tr_name x = n \<and> tr_id x \<noteq> i)"
  shows "distinct (map tr_name (update_where (\<lambda>x. tr_id x = i) (template_update_row now n b) ts))"
  using assms
proof (induction ts)
  case (Cons t ts)
  let ?u = "update_where (\<lambda>x. tr_id x = i) (template_update_row now n b) ts"
  show ?case
  proof (cases "tr_id t = i")
    case True
    then have "?u = ts" using Cons.prems(2) by (intro update_where_none) (auto simp: rev_image_eqI)
    moreover have "n \<notin> tr_name ` set ts" using True Cons.prems(2,3) by (auto simp: image_iff)
    ultimately show ?thesis using True Cons.prems by simp
  next
    case False
    then have "tr_name t \<noteq> n" using Cons.prems(3) by auto
    then have "tr_name t \<notin> tr_name ` set ?u"
      using Cons.prems(1) by (auto simp: set_update_where template_update_row_def split: if_splits)
    with False Cons show ?thesis by simp
  qed
qed simp

lemma update_template_pg_ok:
  assumes "pg_ok u d"
  shows "pg_ok u (snd (update_template cf c i n b d))"
proof -
  have "db_ok (d\<lparr>t_templates := update_where (\<lambda>x. tr_id x = j) (template_update_row (c_now c) n b) (t_templates d)\<rparr>)"
    if "\<not> (\<exists>x \<in> set (t_templates d). tr_name x = n \<and> tr_id x \<noteq> j)" for j
    using pg_ok_db_ok [OF assms] update_template_names [OF _ _ that, of "c_now c" b]
      image_update_where [of "\<lambda>x. tr_id x = j" tr_id "template_update_row (c_now c) n b" "t_templates d"]
    by (simp add: db_ok_defs update_template_ids) (simp add: template_update_row_def)
  then show ?thesis
    using assms by (auto simp: update_template_def intro!: pg_ok_other [OF assms] split: option.split)
qed

lemma delete_template_pg_ok:
  assumes "pg_ok u d"
  shows "pg_ok u (snd (delete_template cf i d))"
proof -
  have "pg_ok u d'" if "delete_template_rows j d = Inr d'" for j d'
  proof (rule pg_ok_other [OF assms])
    show "db_ok d'" using that by (rule delete_template_rows_ok [OF pg_ok_db_ok [OF assms]])
    show "t_messages d' = t_messages d" using that by (auto simp: delete_template_rows_def split: if_splits)
  qed
  with assms show ?thesis by (simp add: delete_template_def split: option.split sum.split)
qed

lemma webhook_statements_pg_ok:
  assumes "pg_ok u d"
  shows "pg_ok u (snd (insert_webhook c b enc a d))" "pg_ok u (snd (update_webhook cf c i b enc d))"
    "pg_ok u (snd (delete_webhook cf i d))"
proof -
  show "pg_ok u (snd (insert_webhook c b enc a d))"
    using assms by (auto simp: insert_webhook_def Let_def pg_ok_def db_ok_defs)
  show "pg_ok u (snd (update_webhook cf c i b enc d))"
    using assms by (auto simp: update_webhook_def webhook_update_row_def pg_ok_def db_ok_defs map_update_where
        image_update_where refs_update_where split: option.split)
  have "t_messages (delete_webhook_rows j d) = t_messages d" for j by (simp add: delete_webhook_rows_def)
  then show "pg_ok u (snd (delete_webhook cf i d))"
    using assms delete_webhook_rows_ok [OF pg_ok_db_ok [OF assms]]
    by (auto simp: delete_webhook_def pg_ok_def split: option.split)
qed

lemma put_hooks_ok:
  assumes "srv_ok cf s" "db_ok (hk_db h)" "same_but_deliveries (srv_db s) (hk_db h)"
  shows "srv_ok cf (put_hooks h s)"
  using assms by (auto simp: srv_ok_parts put_hooks_def srv_db_def pg_ok_def same_but_deliveries_def)

lemma hook_calls_ok:
  assumes "srv_ok cf s"
  shows "srv_ok cf (put_hooks (snd (snd (Test P c i (w_hooks (sv_world s))))) s)"
    "srv_ok cf (put_hooks (snd (Retry P c i (w_hooks (sv_world s)))) s)"
proof -
  have ok: "db_ok (hk_db (w_hooks (sv_world s)))" using srv_ok_db [OF assms] by (simp add: srv_db_def w_db_def)
  show "srv_ok cf (put_hooks (snd (snd (Test P c i (w_hooks (sv_world s))))) s)"
    using Test_db [OF ok, of P c i] by (intro put_hooks_ok [OF assms]) (simp_all add: srv_db_def w_db_def)
  show "srv_ok cf (put_hooks (snd (Retry P c i (w_hooks (sv_world s)))) s)"
    using retry_from_db [OF ok, of P c 0 i] by (intro put_hooks_ok [OF assms]) (simp_all add: srv_db_def w_db_def Retry_def)
qed

lemma template_handlers_ok:
  assumes "srv_ok cf s"
  shows "srv_ok cf (snd (createTemplate cf E r p s))" "srv_ok cf (snd (updateTemplate cf E r p s))"
    "srv_ok cf (snd (deleteTemplate cf E r p s))" "snd (listTemplates cf E r p s) = s" "snd (getTemplate cf E r p s) = s"
  using assms srv_ok_pg [OF assms]
  by (auto simp: createTemplate_def updateTemplate_def deleteTemplate_def listTemplates_def getTemplate_def
      insert_template_pg_ok update_template_pg_ok delete_template_pg_ok intro!: db_exec_ok db_query_same
      split: option.split sum.split)

lemma webhook_handlers_ok:
  assumes "srv_ok cf s"
  shows "srv_ok cf (snd (createWebhook cf E r p s))" "srv_ok cf (snd (updateWebhook cf E r p s))"
    "srv_ok cf (snd (deleteWebhook cf E r p s))" "snd (listWebhooks cf E r p s) = s"
    "srv_ok cf (snd (testWebhook cf E r p s))" "srv_ok cf (snd (retryWebhook cf E r p s))"
proof -
  note pg = webhook_statements_pg_ok [OF srv_ok_pg [OF assms]]
  show "srv_ok cf (snd (createWebhook cf E r p s))" "srv_ok cf (snd (updateWebhook cf E r p s))"
    "srv_ok cf (snd (deleteWebhook cf E r p s))" "snd (listWebhooks cf E r p s) = s"
    using assms by (auto simp: createWebhook_def updateWebhook_def deleteWebhook_def listWebhooks_def Let_def pg
        intro!: db_exec_ok db_query_same split: option.split sum.split)
  show "srv_ok cf (snd (testWebhook cf E r p s))"
    using assms hook_calls_ok(1) [OF assms, of "cf_hooks cf" "E 0" "rq_param r"]
    by (auto simp: testWebhook_def intro!: db_query_ok split: prod.split option.split sum.split)
  show "srv_ok cf (snd (retryWebhook cf E r p s))"
    using assms hook_calls_ok(2) [OF assms, of "cf_hooks cf" "E 0" "rq_param r"]
    by (auto simp: retryWebhook_def split: prod.split option.split)
qed

end
