(* ===== verification/Http_Reports.thy ===== *)
theory Http_Reports
  imports Http_Base
begin

text \<open>
  The reporting handlers of \<open>internal/httpapi/server.go\<close>: \<open>stats\<close>, \<open>dashboard\<close>, \<open>queueStats\<close>, \<open>webhookStats\<close>,
  \<open>webhookDeliveries\<close>, the monitoring endpoint and the event stream \<open>sseEvents\<close>.  Of these only the event stream
  changes the state, by subscribing to the broker and by receiving.
\<close>

section \<open>Counting\<close>

text \<open>\<open>GROUP BY\<close>: every value once, with the number of its rows.\<close>

definition group_count :: "('r \<Rightarrow> 'k) \<Rightarrow> 'r list \<Rightarrow> ('k \<times> nat) list" where
  "group_count k rs = map (\<lambda>x. (x, length (filter (\<lambda>r. k r = x) rs))) (remdups (map k rs))"

definition in_session :: "string \<Rightarrow> message_row \<Rightarrow> bool" where
  "in_session sessionID m \<longleftrightarrow> sessionID = [] \<or> mr_session_id m = sessionID"

definition count_where :: "('r \<Rightarrow> bool) \<Rightarrow> 'r list \<Rightarrow> nat" where
  "count_where q rs = length (filter q rs)"

text \<open>A query whose error is dropped leaves the variable at zero.\<close>

definition count_or_zero :: "ctx \<Rightarrow> nat \<Rightarrow> nat" where
  "count_or_zero c n = (case c_fault c 0 of Some e \<Rightarrow> 0 | None \<Rightarrow> n)"

definition nat_json :: "nat \<Rightarrow> json" where
  "nat_json n = JInt (int n)"

section \<open>Statistics\<close>

text \<open>Messages, successes, failures and messages since midnight.\<close>

definition message_totals :: "srv_cfg \<Rightarrow> time \<Rightarrow> string \<Rightarrow> db \<Rightarrow> nat \<times> nat \<times> nat \<times> nat" where
  "message_totals cf now sessionID d = (let ms = filter (in_session sessionID) (t_messages d) in
     (length ms, count_where (\<lambda>m. mr_status m \<in> {''delivered'', ''read''}) ms,
      count_where (\<lambda>m. mr_status m = ''failed'') ms, count_where (\<lambda>m. cf_day cf (mr_created_at m) \<ge> cf_day cf now) ms))"

definition active_sessions :: "string \<Rightarrow> db \<Rightarrow> nat" where
  "active_sessions sessionID d =
     count_where (\<lambda>x. (sessionID = [] \<or> sr_session_id x = sessionID) \<and> sr_status x = ''connected'') (t_sessions d)"

text \<open>The last seven days, the oldest first, with the messages of each.\<close>

definition daily_totals :: "srv_cfg \<Rightarrow> time \<Rightarrow> string \<Rightarrow> db \<Rightarrow> (int \<times> nat) list" where
  "daily_totals cf now sessionID d =
     map (\<lambda>day. (day, count_where (\<lambda>m. cf_day cf (mr_created_at m) = day \<and> in_session sessionID m) (t_messages d)))
       [cf_day cf now - 6..cf_day cf now]"

definition session_totals :: "string \<Rightarrow> db \<Rightarrow> (string \<times> nat) list" where
  "session_totals sessionID d =
     sort_key (\<lambda>(i, n). - int n) (group_count mr_session_id (filter (in_session sessionID) (t_messages d)))"

definition stats :: "srv_cfg \<Rightarrow> handler" where
  "stats cf E r p s =
     (let sessionID = trim_space (rq_query r ''sessionId''); now = c_now (E 0) in
      db_query cf (E 0) (\<lambda>d. Inr (message_totals cf now sessionID d))
        (\<lambda>res. case res of Inl e \<Rightarrow> (writeError 500 (err_text e), s)
         | Inr (total', success, failed, today) \<Rightarrow>
            let active = count_or_zero (E 1) (active_sessions sessionID (srv_db s));
                rate = (if total' > 0 then cf_rate cf success total' else JInt 0) in
      db_query cf (E 2) (\<lambda>d. Inr (daily_totals cf now sessionID d))
        (\<lambda>res. case res of Inl e \<Rightarrow> (writeError 500 (err_text e), s)
         | Inr daily \<Rightarrow>
      db_query cf (E 3) (\<lambda>d. Inr (session_totals sessionID d))
        (\<lambda>res. case res of Inl e \<Rightarrow> (writeError 500 (err_text e), s)
         | Inr bySession \<Rightarrow>
            (write_json 200 (JObj [(''totalMessages'', nat_json total'), (''successCount'', nat_json success),
               (''failedCount'', nat_json failed), (''successRate'', rate), (''todayMessages'', nat_json today),
               (''activeSessions'', nat_json active),
               (''dailyBreakdown'', JArr (map (\<lambda>(day, n). JObj [(''date'', JStr (cf_date cf day)), (''total'', nat_json n)]) daily)),
               (''bySession'', JArr (map (\<lambda>(i, n). JObj [(''session_id'', JStr i), (''count'', nat_json n)]) bySession))]), s)) s) s) s)"

text \<open>Every query of the dashboard is allowed to fail.\<close>

definition dashboard :: "srv_cfg \<Rightarrow> handler" where
  "dashboard cf E r p s =
     (if \<not> cf_db cf then (Crash, s)
      else let sessionID = trim_space (rq_query r ''sessionId''); d = srv_db s; now = c_now (E 0);
          ms = filter (in_session sessionID) (t_messages d) in
        (write_json 200 (JObj [(''sessions'', nat_json (count_or_zero (E 0) (length (t_sessions d)))),
           (''activeSessions'', nat_json (count_or_zero (E 1) (active_sessions [] d))),
           (''messagesToday'', nat_json (count_or_zero (E 4) (count_where (\<lambda>m. cf_day cf (mr_created_at m) \<ge> cf_day cf now) ms))),
           (''queueSize'', nat_json (count_or_zero (E 2) (count_where (\<lambda>m. mr_status m = ''queued'') ms))),
           (''failedMessages'', nat_json (count_or_zero (E 3) (count_where (\<lambda>m. mr_status m = ''failed'') ms))),
           (''apiUsage'', nat_json (count_or_zero (E 5) (count_where (\<lambda>t. cf_day cf t \<ge> cf_day cf now) (t_audit_logs d))))]), s))"

section \<open>Queue\<close>

text \<open>\<open>data->>'k'\<close>: a string as it is, another value in its text form, SQL's null for an absent key or null.\<close>

definition json_text :: "srv_cfg \<Rightarrow> string \<Rightarrow> json \<Rightarrow> string option" where
  "json_text cf k v = (case jfield k v of None \<Rightarrow> None | Some JNull \<Rightarrow> None | Some (JStr t) \<Rightarrow> Some t
     | Some x \<Rightarrow> Some (hp_jsonb (cf_hooks cf) x))"

definition job_session :: "srv_cfg \<Rightarrow> json \<Rightarrow> string" where
  "job_session cf v = (case json_text cf ''sessionId'' v of Some t \<Rightarrow> t | None \<Rightarrow> coalesce (json_text cf ''session_id'' v))"

definition job_filter :: "srv_cfg \<Rightarrow> request \<Rightarrow> queue_job_row \<Rightarrow> bool" where
  "job_filter cf r j =
     (let status = trim_space (rq_query r ''status''); sessionID = trim_space (rq_query r ''sessionId'');
          search = trim_space (rq_query r ''search'')
      in (status = [] \<or> qj_status j = status) \<and> (sessionID = [] \<or> job_session cf (qj_data j) = sessionID)
        \<and> (search = [] \<or> cf_ilike cf (qj_job_id j) search \<or> cf_ilike cf (coalesce (json_text cf ''to'' (qj_data j))) search))"

definition job_json :: "queue_job_row \<Rightarrow> json" where
  "job_json j = JObj [(''id'', JStr (qj_id j)), (''job_id'', JStr (qj_job_id j)), (''queue_name'', JStr (qj_queue_name j)),
     (''name'', JStr (qj_name j)), (''data'', qj_data j), (''status'', JStr (qj_status j)), (''priority'', JInt (qj_priority j)),
     (''attempts'', JInt (qj_attempts j)), (''max_attempts'', JInt (qj_max_attempts j)), (''error'', JStr (coalesce (qj_error j))),
     (''processed_at'', time_json (qj_processed_at j)), (''completed_at'', time_json (qj_completed_at j)),
     (''created_at'', JTime (qj_created_at j))]"

definition zero_counts :: "(string \<times> nat) list" where
  "zero_counts = [(''waiting'', 0), (''active'', 0), (''completed'', 0), (''failed'', 0), (''delayed'', 0)]"

definition add_count :: "string \<times> nat \<Rightarrow> (string \<times> nat) list \<Rightarrow> (string \<times> nat) list" where
  "add_count sn counts = (case sn of (status, n) \<Rightarrow>
     if status = ''retrying'' then AList.update ''delayed'' ((case map_of counts ''delayed'' of None \<Rightarrow> 0 | Some k \<Rightarrow> k) + n) counts
     else AList.update status n counts)"

definition queueStats :: "srv_cfg \<Rightarrow> handler" where
  "queueStats cf E r p s =
     db_query cf (E 0) (\<lambda>d. Inr (group_count qj_status (t_queue_jobs d)))
       (\<lambda>res. case res of Inl e \<Rightarrow> (writeError 500 (err_text e), s)
        | Inr groups \<Rightarrow>
           let counts = fold add_count groups zero_counts; page = page_of r; limit = limit_of r in
     db_query cf (E 1) (\<lambda>d. Inr (count_where (job_filter cf r) (t_queue_jobs d)))
       (\<lambda>res. case res of Inl e \<Rightarrow> (writeError 500 (err_text e), s)
        | Inr n \<Rightarrow>
     db_query cf (E 2) (\<lambda>d. page_rows page limit
         (sort_key (\<lambda>j. - qj_created_at j) (filter (job_filter cf r) (t_queue_jobs d))))
       (\<lambda>res. case res of Inl e \<Rightarrow> (writeError 500 (err_text e), s)
        | Inr rows \<Rightarrow>
           (write_json 200 (JObj [(''counts'', JObj (map (\<lambda>(k, n). (k, nat_json n)) counts)), (''jobs'', JArr (map job_json rows)),
              (''total'', nat_json n), (''page'', JInt page), (''limit'', JInt limit)]), s)) s) s) s"

section \<open>Webhook deliveries\<close>

definition webhookStats :: "srv_cfg \<Rightarrow> handler" where
  "webhookStats cf E r p s =
     db_query cf (E 0) (\<lambda>d. Inr (group_count dr_status (t_webhook_deliveries d)))
       (\<lambda>res. case res of Inl e \<Rightarrow> (writeError 500 (err_text e), s)
        | Inr groups \<Rightarrow> (write_json 200 (JObj [(''total'', nat_json (sum_list (map snd groups))),
            (''byStatus'', JObj (map (\<lambda>(k, n). (k, nat_json n)) groups))]), s)) s"

definition delivery_filter :: "srv_cfg \<Rightarrow> string \<Rightarrow> string option \<Rightarrow> string \<Rightarrow> delivery_row \<Rightarrow> bool" where
  "delivery_filter cf status webhook search r \<longleftrightarrow> (status = [] \<or> dr_status r = status)
     \<and> (case webhook of None \<Rightarrow> True | Some u \<Rightarrow> dr_webhook_id r = u)
     \<and> (search = [] \<or> cf_ilike cf (dr_event r) search \<or> cf_ilike cf (dr_id r) search \<or> cf_ilike cf (coalesce (dr_error r)) search)"

text \<open>The rows the two queries select; the webhook's identifier is compared as a \<open>uuid\<close>.\<close>

definition filtered_deliveries :: "srv_cfg \<Rightarrow> request \<Rightarrow> db \<Rightarrow> err + delivery_row list" where
  "filtered_deliveries cf r d =
     (let status = trim_space (rq_query r ''status''); webhook = trim_space (rq_query r ''webhookId'');
          search = trim_space (rq_query r ''search'') in
      if webhook = [] then Inr (filter (delivery_filter cf status None search) (t_webhook_deliveries d))
      else by_uuid cf webhook (\<lambda>u. Inr (filter (delivery_filter cf status (Some u) search) (t_webhook_deliveries d))))"

definition delivery_json :: "delivery_row \<Rightarrow> json" where
  "delivery_json r = JObj [(''id'', JStr (dr_id r)), (''webhook_id'', JStr (dr_webhook_id r)), (''event_id'', JStr (dr_event_id r)),
     (''event'', JStr (dr_event r)), (''payload'', dr_payload r), (''status'', JStr (dr_status r)),
     (''attempts'', JInt (dr_attempts r)), (''max_attempts'', JInt (dr_max_attempts r)),
     (''response_status'', opt_json (dr_response_status r)), (''error'', JStr (coalesce (dr_error r))),
     (''queued_at'', JTime (dr_queued_at r)), (''created_at'', JTime (dr_created_at r)),
     (''delivered_at'', time_json (dr_delivered_at r)), (''updated_at'', JTime (dr_updated_at r))]"

definition webhookDeliveries :: "srv_cfg \<Rightarrow> handler" where
  "webhookDeliveries cf E r p s =
     (let page = page_of r; limit = limit_of r in
      db_query cf (E 0) (\<lambda>d. case filtered_deliveries cf r d of Inl e \<Rightarrow> Inl e | Inr xs \<Rightarrow> Inr (length xs))
        (\<lambda>res. case res of Inl e \<Rightarrow> (writeError 500 (err_text e), s)
         | Inr n \<Rightarrow>
      db_query cf (E 1) (\<lambda>d. case filtered_deliveries cf r d of Inl e \<Rightarrow> Inl e
           | Inr xs \<Rightarrow> page_rows page limit (sort_key (\<lambda>x. - dr_created_at x) xs))
        (\<lambda>res. case res of Inl e \<Rightarrow> (writeError 500 (err_text e), s)
         | Inr rows \<Rightarrow> (write_json 200 (page_json (map delivery_json rows) n page limit), s)) s) s)"

section \<open>Monitoring\<close>

text \<open>Call 0 pings the database, call 1 dials Redis.\<close>

definition database_status :: "srv_cfg \<Rightarrow> ctx \<Rightarrow> string" where
  "database_status cf c = (if \<not> cf_db cf then ''not_configured'' else if c_fault c 0 = None then ''up'' else ''down'')"

definition redis_status :: "srv_cfg \<Rightarrow> ctx \<Rightarrow> string" where
  "redis_status cf c = (if cf_redis_url cf = [] then ''not_configured''
     else case cf_url_host cf (cf_redis_url cf) of None \<Rightarrow> ''not_configured''
       | Some host \<Rightarrow> if c_fault c 0 = None then ''up'' else ''down'')"

definition monitoring :: "srv_cfg \<Rightarrow> handler" where
  "monitoring cf E r p s =
     (let databaseStatus = database_status cf (E 0); redisStatus = redis_status cf (E 1);
          systemStatus = (if databaseStatus = ''down'' \<or> redisStatus = ''down'' then ''degraded'' else ''healthy'')
      in (write_json 200 (JObj [(''status'', JStr systemStatus),
            (''services'', JObj [(''postgres'', JStr databaseStatus), (''redis'', JStr redisStatus)]),
            (''database'', JStr databaseStatus), (''redis'', JStr redisStatus)]), s))"

section \<open>Event stream\<close>

definition put_broker :: "broker \<Rightarrow> srv \<Rightarrow> srv" where
  "put_broker b s = s\<lparr>sv_world := (sv_world s)\<lparr>w_broker := b\<rparr>\<rparr>"

text \<open>
  The handler subscribes and starts to answer; the loop then writes one frame for every event it receives
  from its channel (\<open>sse_step\<close>), and the deferred call unsubscribes when the client leaves (\<open>sse_close\<close>).
\<close>

definition sse_open :: "srv_cfg \<Rightarrow> srv \<Rightarrow> (string \<times> nat \<times> srv) option" where
  "sse_open cf s = (if \<not> cf_events cf then None
     else case Subscribe (w_broker (sv_world s)) of (ch, b) \<Rightarrow> Some ('': connected'' @ [CHR 0x0A, CHR 0x0A], ch, put_broker b s))"

definition sse_frame :: "srv_cfg \<Rightarrow> event \<Rightarrow> string" where
  "sse_frame cf ev = ''event: '' @ ev_Name ev @ [CHR 0x0A] @ ''data: '' @ hp_json (cf_hooks cf) (ev_Data ev) @ [CHR 0x0A, CHR 0x0A]"

datatype sse_out = Frame string | Ended | Waiting

definition sse_step :: "srv_cfg \<Rightarrow> nat \<Rightarrow> srv \<Rightarrow> sse_out \<times> srv" where
  "sse_step cf ch s = (case receive ch (w_broker (sv_world s)) of
       (Got ev, b) \<Rightarrow> (Frame (sse_frame cf ev), put_broker b s)
     | (Closed, b) \<Rightarrow> (Ended, put_broker b s)
     | (Blocked, b) \<Rightarrow> (Waiting, put_broker b s))"

definition sse_close :: "nat \<Rightarrow> srv \<Rightarrow> srv option" where
  "sse_close ch s = map_option (\<lambda>b. put_broker b s) (unsubscribe ch (w_broker (sv_world s)))"

definition sseEvents :: "srv_cfg \<Rightarrow> handler" where
  "sseEvents cf E r p s = (case sse_open cf s of None \<Rightarrow> (Crash, s)
     | Some (start, ch, s1) \<Rightarrow> (Answer \<lparr>rs_status = 200, rs_body = Some (JStr start), rs_cookie = None\<rparr>, s1))"

section \<open>The invariant is kept\<close>

lemma dashboard_same: "snd (dashboard cf E r p s) = s"
  by (simp add: dashboard_def Let_def)

lemma monitoring_same: "snd (monitoring cf E r p s) = s"
  by (simp add: monitoring_def Let_def)

lemma stats_same: "snd (stats cf E r p s) = s"
  unfolding stats_def Let_def by (intro db_query_same) (auto intro!: db_query_same split: sum.split)

lemma queueStats_same: "snd (queueStats cf E r p s) = s"
  unfolding queueStats_def Let_def by (intro db_query_same) (auto intro!: db_query_same split: sum.split)

lemma webhookStats_same: "snd (webhookStats cf E r p s) = s"
  unfolding webhookStats_def by (intro db_query_same) (simp split: sum.split)

lemma webhookDeliveries_same: "snd (webhookDeliveries cf E r p s) = s"
  unfolding webhookDeliveries_def Let_def by (intro db_query_same) (auto intro!: db_query_same split: sum.split)

lemmas reports_same = dashboard_same monitoring_same stats_same queueStats_same webhookStats_same webhookDeliveries_same

lemma put_broker_ok: "srv_ok cf s \<Longrightarrow> broker_ok b \<Longrightarrow> srv_ok cf (put_broker b s)"
  by (simp add: srv_ok_parts put_broker_def srv_db_def)

lemma sse_ok:
  assumes "srv_ok cf s"
  shows "srv_ok cf (snd (sseEvents cf E r p s))" "srv_ok cf (snd (sse_step cf ch s))"
    "\<exists>s'. sse_close ch s = Some s' \<and> srv_ok cf s'"
proof -
  have b: "broker_ok (w_broker (sv_world s))" using assms by (simp add: srv_ok_parts)
  show "srv_ok cf (snd (sseEvents cf E r p s))"
    using assms Subscribe_ok [OF b] by (auto simp: sseEvents_def sse_open_def put_broker_ok split: prod.split)
  show "srv_ok cf (snd (sse_step cf ch s))"
    using assms receive_ok [OF b, of ch] by (auto simp: sse_step_def put_broker_ok split: prod.split received.split)
  show "\<exists>s'. sse_close ch s = Some s' \<and> srv_ok cf s'"
    using assms unsubscribe_ok [OF b, of ch] by (auto simp: sse_close_def put_broker_ok)
qed

section \<open>The counts add up\<close>

lemma sum_group_count: "sum_list (map snd (group_count k rs)) = length rs"
proof -
  have "length rs = (\<Sum>x \<in> set (map k rs). length (filter (\<lambda>r. k r = x) rs))"
  proof (induction rs)
    case (Cons r rs)
    let ?n = "\<lambda>x rs. length (filter (\<lambda>r. k r = x) rs)"
    have "(\<Sum>x \<in> set (map k (r # rs)). ?n x (r # rs)) = (\<Sum>x \<in> insert (k r) (set (map k rs)). (if x = k r then 1 else 0) + ?n x rs)"
      by (rule sum.cong) auto
    also have "\<dots> = 1 + (\<Sum>x \<in> insert (k r) (set (map k rs)). ?n x rs)"
      by (simp add: sum.distrib)
    also have "(\<Sum>x \<in> insert (k r) (set (map k rs)). ?n x rs) = (\<Sum>x \<in> set (map k rs). ?n x rs)"
      by (rule sum.mono_neutral_right) (auto simp: filter_empty_conv)
    finally show ?case using Cons by simp
  qed simp
  also have "\<dots> = sum_list (map (\<lambda>x. length (filter (\<lambda>r. k r = x) rs)) (remdups (map k rs)))"
    by (simp add: sum_list_distinct_conv_sum_set)
  finally show ?thesis by (simp add: group_count_def comp_def)
qed

end
