(* ===== verification/Http_Router.thy ===== *)
theory Http_Router
  imports Http_Messages Http_Sessions Http_Account Http_Config Http_Reports
begin

text \<open>
  The routing of the server: \<open>Handler\<close> of \<open>internal/httpapi/server.go\<close> as the table of its routes in the order it
  registers them, each behind \<open>requireAuth\<close> or not, and the pages of \<open>internal/landing\<close> and \<open>internal/admin\<close>.  How chi
  picks a route is a parameter with the law that the route it picks is of the request's method and that its
  pattern fits the path.
\<close>

section \<open>Pages\<close>

record page =
  pg_status :: int
  pg_type :: string
  pg_data :: string

text \<open>\<open>http.NotFound\<close> and \<open>http.Error\<close>.\<close>

definition error_page :: "int \<Rightarrow> string \<Rightarrow> page" where
  "error_page n t = \<lparr>pg_status = n, pg_type = ''text/plain; charset=utf-8'', pg_data = t @ [CHR 0x0A]\<rparr>"

definition not_found_page :: page where
  "not_found_page = error_page 404 ''404 page not found''"

text \<open>\<open>files\<close> stands for the files embedded in the program.\<close>

definition landing_Handler :: "(string \<Rightarrow> string option) \<Rightarrow> string \<Rightarrow> page" where
  "landing_Handler files path =
     (if path \<noteq> ''/'' then not_found_page
      else case files ''index.html'' of
        None \<Rightarrow> error_page 500 ''landing page unavailable''
      | Some content \<Rightarrow> \<lparr>pg_status = 200, pg_type = ''text/html; charset=utf-8'', pg_data = content\<rparr>)"

definition admin_file :: "string \<Rightarrow> string option" where
  "admin_file url = (let path = trim_prefix url ''/admin'' in
     if path = [] \<or> path = ''/'' then Some ''ui/index.html''
     else if has_prefix path ''/assets/'' then Some (''ui'' @ path)
     else None)"

definition content_type :: "string \<Rightarrow> string" where
  "content_type path = (if has_suffix path ''.css'' then ''text/css; charset=utf-8''
     else if has_suffix path ''.js'' then ''application/javascript; charset=utf-8''
     else if has_suffix path ''.svg'' then ''image/svg+xml''
     else ''text/html; charset=utf-8'')"

definition admin_Handler :: "(string \<Rightarrow> string option) \<Rightarrow> string \<Rightarrow> page" where
  "admin_Handler ui url =
     (case admin_file url of None \<Rightarrow> not_found_page
      | Some path \<Rightarrow> (case ui path of None \<Rightarrow> not_found_page
         | Some content \<Rightarrow> \<lparr>pg_status = 200, pg_type = content_type path, pg_data = content\<rparr>))"

section \<open>Routes\<close>

text \<open>
  The parts of a pattern between slashes; \<open>Root\<close> is the pattern \<open>"/"\<close> of a mounted router, which chi serves with
  and without the final slash, \<open>Rest\<close> is \<open>"*"\<close>.
\<close>

datatype seg = Lit string | Param | Root | Rest

datatype target = Landing | Admin | Api bool handler

record route =
  rt_method :: string
  rt_path :: "seg list"
  rt_target :: target

definition api :: "string \<Rightarrow> seg list \<Rightarrow> bool \<Rightarrow> handler \<Rightarrow> route" where
  "api m path guarded h = \<lparr>rt_method = m, rt_path = [Lit ''api'', Lit ''v1''] @ path, rt_target = Api guarded h\<rparr>"

definition routes :: "srv_cfg \<Rightarrow> route list" where
  "routes cf =
   [\<lparr>rt_method = ''GET'', rt_path = [Lit []], rt_target = Landing\<rparr>,
    \<lparr>rt_method = ''GET'', rt_path = [Lit ''admin''], rt_target = Admin\<rparr>,
    \<lparr>rt_method = ''GET'', rt_path = [Lit ''admin'', Rest], rt_target = Admin\<rparr>,
    api ''POST'' [Lit ''auth'', Lit ''login''] False (login cf),
    api ''POST'' [Lit ''auth'', Lit ''refresh''] False (refresh_handler cf),
    api ''GET'' [Lit ''auth'', Lit ''session''] False (refreshFromCookie cf),
    api ''POST'' [Lit ''auth'', Lit ''logout''] True (logout cf),
    api ''PUT'' [Lit ''auth'', Lit ''password''] True (changePassword cf),
    api ''GET'' [Lit ''monitoring''] True (monitoring cf),
    api ''GET'' [Lit ''sessions'', Root] True (listSessions cf),
    api ''POST'' [Lit ''sessions'', Root] True (createSession cf),
    api ''GET'' [Lit ''sessions'', Param] True (getSession cf),
    api ''POST'' [Lit ''sessions'', Param, Lit ''reconnect''] True (sessionAction cf ''reconnecting''),
    api ''POST'' [Lit ''sessions'', Param, Lit ''disconnect''] True (sessionAction cf ''disconnected''),
    api ''POST'' [Lit ''sessions'', Param, Lit ''logout''] True (sessionAction cf ''logged_out''),
    api ''DELETE'' [Lit ''sessions'', Param] True (deleteSession cf),
    api ''PUT'' [Lit ''sessions'', Param, Lit ''throttle''] True (updateThrottle cf),
    api ''GET'' [Lit ''api-keys'', Root] True (listAPIKeys cf),
    api ''POST'' [Lit ''api-keys'', Root] True (createAPIKey cf),
    api ''PUT'' [Lit ''api-keys'', Param] True (updateAPIKey cf),
    api ''DELETE'' [Lit ''api-keys'', Param] True (deleteAPIKey cf),
    api ''GET'' [Lit ''templates'', Root] True (listTemplates cf),
    api ''POST'' [Lit ''templates'', Root] True (createTemplate cf),
    api ''GET'' [Lit ''templates'', Param] True (getTemplate cf),
    api ''PUT'' [Lit ''templates'', Param] True (updateTemplate cf),
    api ''DELETE'' [Lit ''templates'', Param] True (deleteTemplate cf),
    api ''GET'' [Lit ''webhooks'', Root] True (listWebhooks cf),
    api ''POST'' [Lit ''webhooks'', Root] True (createWebhook cf),
    api ''PUT'' [Lit ''webhooks'', Param] True (updateWebhook cf),
    api ''DELETE'' [Lit ''webhooks'', Param] True (deleteWebhook cf),
    api ''POST'' [Lit ''webhooks'', Param, Lit ''test''] True (testWebhook cf),
    api ''POST'' [Lit ''webhooks'', Lit ''deliveries'', Param, Lit ''retry''] True (retryWebhook cf),
    api ''GET'' [Lit ''webhooks'', Lit ''stats''] True (webhookStats cf),
    api ''GET'' [Lit ''webhooks'', Lit ''deliveries''] True (webhookDeliveries cf),
    api ''GET'' [Lit ''stats''] True (stats cf),
    api ''GET'' [Lit ''queue''] True (queueStats cf),
    api ''GET'' [Lit ''events''] True (sseEvents cf),
    api ''GET'' [Lit ''dashboard''] True (dashboard cf),
    api ''POST'' [Lit ''messages'', Lit ''send''] True (sendMessage cf),
    api ''GET'' [Lit ''messages'', Root] True (listMessages cf),
    api ''GET'' [Lit ''messages'', Param] True (getMessage cf),
    api ''POST'' [Lit ''messages'', Param, Lit ''resend''] True (resendMessage cf),
    api ''DELETE'' [Lit ''messages'', Param] True (deleteMessage cf)]"

fun segments :: "string \<Rightarrow> string list" where
  "segments [] = [[]]"
| "segments (ch # s) = (if ch = CHR ''/'' then [] # segments s else (ch # hd (segments s)) # tl (segments s))"

text \<open>The parts of a path after its leading slash.\<close>

definition path_segments :: "string \<Rightarrow> string list" where
  "path_segments path = segments (trim_prefix path ''/'')"

fun fits :: "seg list \<Rightarrow> string list \<Rightarrow> bool" where
  "fits [] ss \<longleftrightarrow> ss = []"
| "fits (Root # ps) ss \<longleftrightarrow> ps = [] \<and> (ss = [] \<or> ss = [[]])"
| "fits (Rest # ps) ss \<longleftrightarrow> ps = [] \<and> ss \<noteq> []"
| "fits (Lit l # ps) ss \<longleftrightarrow> (case ss of [] \<Rightarrow> False | s # ss' \<Rightarrow> s = l \<and> fits ps ss')"
| "fits (Param # ps) ss \<longleftrightarrow> (case ss of [] \<Rightarrow> False | s # ss' \<Rightarrow> fits ps ss')"

datatype chi_answer = Found nat string | NotFound | MethodNotAllowed

type_synonym chi = "(string \<times> seg list) list \<Rightarrow> string \<Rightarrow> string \<Rightarrow> chi_answer"

definition chi_lawful :: "chi \<Rightarrow> bool" where
  "chi_lawful chi \<longleftrightarrow> (\<forall>ts m path i v. chi ts m path = Found i v \<longrightarrow>
     i < length ts \<and> fst (ts ! i) = m \<and> fits (snd (ts ! i)) (path_segments path))"

record incoming =
  in_method :: string
  in_path :: string
  in_request :: request

datatype served = Page page | Reply reply

definition served_status :: "served \<Rightarrow> int option" where
  "served_status v = (case v of Page p \<Rightarrow> Some (pg_status p) | Reply r \<Rightarrow> reply_status r)"

definition run_target ::
  "srv_cfg \<Rightarrow> (string \<Rightarrow> string option) \<Rightarrow> ctx \<Rightarrow> (nat \<Rightarrow> ctx) \<Rightarrow> string \<Rightarrow> request \<Rightarrow> target \<Rightarrow> srv \<Rightarrow> served \<times> srv" where
  "run_target cf files c E path r t s = (case t of
       Landing \<Rightarrow> (Page (landing_Handler files path), s)
     | Admin \<Rightarrow> (Page (admin_Handler files path), s)
     | Api guarded h \<Rightarrow>
         (case (if guarded then requireAuth cf c r (h E r) s else h E r None s) of (v, s') \<Rightarrow> (Reply v, s')))"

definition serve ::
  "srv_cfg \<Rightarrow> (string \<Rightarrow> string option) \<Rightarrow> chi \<Rightarrow> ctx \<Rightarrow> (nat \<Rightarrow> ctx) \<Rightarrow> incoming \<Rightarrow> srv \<Rightarrow> served \<times> srv" where
  "serve cf files chi c E q s =
     (case chi (map (\<lambda>r. (rt_method r, rt_path r)) (routes cf)) (in_method q) (in_path q) of
        NotFound \<Rightarrow> (Page not_found_page, s)
      | MethodNotAllowed \<Rightarrow> (Page \<lparr>pg_status = 405, pg_type = [], pg_data = []\<rparr>, s)
      | Found i v \<Rightarrow> run_target cf files c E (in_path q) ((in_request q)\<lparr>rq_param := v\<rparr>) (rt_target (routes cf ! i)) s)"

lemma serve_cases:
  assumes "chi_lawful chi"
  obtains p where "serve cf files chi c E q s = (Page p, s)" "pg_status p \<in> {404, 405}"
  | rt v where "rt \<in> set (routes cf)" "rt_method rt = in_method q" "fits (rt_path rt) (path_segments (in_path q))"
      "serve cf files chi c E q s = run_target cf files c E (in_path q) ((in_request q)\<lparr>rq_param := v\<rparr>) (rt_target rt) s"
proof (cases "chi (map (\<lambda>r. (rt_method r, rt_path r)) (routes cf)) (in_method q) (in_path q)")
  case (Found i v)
  let ?ts = "map (\<lambda>r. (rt_method r, rt_path r)) (routes cf)"
  from assms Found have i: "i < length ?ts" and m: "fst (?ts ! i) = in_method q"
    and f: "fits (snd (?ts ! i)) (path_segments (in_path q))"
    unfolding chi_lawful_def by blast+
  from i have l: "i < length (routes cf)" by simp
  show thesis
  proof (rule that(2))
    show "routes cf ! i \<in> set (routes cf)" using l by (rule nth_mem)
    show "rt_method (routes cf ! i) = in_method q" using m l by simp
    show "fits (rt_path (routes cf ! i)) (path_segments (in_path q))" using f l by simp
    show "serve cf files chi c E q s = run_target cf files c E (in_path q) ((in_request q)\<lparr>rq_param := v\<rparr>)
        (rt_target (routes cf ! i)) s"
      using Found by (simp add: serve_def)
  qed
next
  case NotFound
  then show thesis by (intro that(1) [of not_found_page]) (simp_all add: serve_def not_found_page_def error_page_def)
next
  case MethodNotAllowed
  then show thesis by (intro that(1)) (auto simp: serve_def)
qed

section \<open>Authentication guards the API\<close>

text \<open>The calls that need no credentials.\<close>

definition public_calls :: "(string \<times> string list) list" where
  "public_calls = [(''POST'', [''api'', ''v1'', ''auth'', ''login'']), (''POST'', [''api'', ''v1'', ''auth'', ''refresh'']),
     (''GET'', [''api'', ''v1'', ''auth'', ''session''])]"

definition open_route :: "route \<Rightarrow> bool" where
  "open_route rt \<longleftrightarrow> (\<forall>h. rt_target rt \<noteq> Api True h)"

text \<open>Of the routes under \<open>/api/v1\<close> the table leaves only the public calls open.\<close>

definition only_public :: "route \<Rightarrow> bool" where
  "only_public rt \<longleftrightarrow> (open_route rt \<longrightarrow>
     (\<forall>ss. fits (rt_path rt) ss \<and> take 2 ss = [''api'', ''v1''] \<longrightarrow> (rt_method rt, ss) \<in> set public_calls))"

lemma only_public_guarded: "only_public (api m p True h)"
  by (simp add: only_public_def open_route_def api_def)

lemma only_public_pages:
  "only_public \<lparr>rt_method = m, rt_path = Lit [] # p, rt_target = t\<rparr>"
  "only_public \<lparr>rt_method = m, rt_path = Lit ''admin'' # p, rt_target = t\<rparr>"
  by (auto simp: only_public_def split: list.splits)

lemma only_public_calls:
  "only_public (api ''POST'' [Lit ''auth'', Lit ''login''] False h)"
  "only_public (api ''POST'' [Lit ''auth'', Lit ''refresh''] False h)"
  "only_public (api ''GET'' [Lit ''auth'', Lit ''session''] False h)"
  by (auto simp: only_public_def api_def public_calls_def split: list.splits)

lemma routes_only_public: "list_all only_public (routes cf)"
  unfolding routes_def list.pred_inject(2)
  by (intro conjI list.pred_inject(1) only_public_guarded only_public_pages only_public_calls)

lemma open_api_calls:
  assumes "rt \<in> set (routes cf)" "open_route rt" "fits (rt_path rt) ss" "take 2 ss = [''api'', ''v1'']"
  shows "(rt_method rt, ss) \<in> set public_calls"
  using routes_only_public [of cf] assms by (simp add: list_all_iff only_public_def)

lemma authenticate_param [simp]: "authenticate cf c (r\<lparr>rq_param := v\<rparr>) s = authenticate cf c r s"
  by (simp add: authenticate_def clientIP_def split: option.split)

text \<open>
  C12.  With authentication configured, a request under \<open>/api/v1\<close> other than the login, the refresh and the session
  call, whose credentials are missing or refused, gets 401 (or 404 or 405 when no route serves it), whatever the
  endpoint; no handler runs, and nothing of the server changes but the rate windows of the API keys.
\<close>

theorem api_requires_auth:
  assumes "chi_lawful chi" "cf_auth cf"
    and "take 2 (path_segments (in_path q)) = [''api'', ''v1'']"
    and "(in_method q, path_segments (in_path q)) \<notin> set public_calls"
    and "fst (authenticate cf c (in_request q) s) = Inl e"
  shows "served_status (fst (serve cf files chi c E q s)) \<in> {Some 401, Some 404, Some 405}
    \<and> (\<exists>x. snd (serve cf files chi c E q s) = s\<lparr>sv_rate := x\<rparr>)"
  using assms(1)
proof (cases rule: serve_cases [of chi cf files c E q s])
  case (1 p)
  moreover have "\<exists>x. s = s\<lparr>sv_rate := x\<rparr>" by (rule exI [of _ "sv_rate s"]) simp
  ultimately show ?thesis by (auto simp: served_status_def)
next
  case (2 rt v)
  then have "\<not> open_route rt" using open_api_calls [OF 2(1)] assms(3,4) by auto
  then obtain h where h: "rt_target rt = Api True h" by (auto simp: open_route_def)
  obtain s1 where a: "authenticate cf c (in_request q) s = (Inl e, s1)" using assms(5) by (metis prod.collapse)
  with 2(4) h assms(2) authenticate_frame [OF a] show ?thesis
    by (auto simp: run_target_def requireAuth_def served_status_def)
qed

text \<open>The first route that fits: a router that is lawful.\<close>

fun first_fit :: "nat \<Rightarrow> (string \<times> seg list) list \<Rightarrow> string \<Rightarrow> string list \<Rightarrow> nat option" where
  "first_fit n [] m ss = None"
| "first_fit n (t # ts) m ss = (if fst t = m \<and> fits (snd t) ss then Some n else first_fit (Suc n) ts m ss)"

definition sample_chi :: chi where
  "sample_chi ts m path = (case first_fit 0 ts m (path_segments path) of None \<Rightarrow> NotFound
     | Some i \<Rightarrow> Found i (last (path_segments path)))"

lemma first_fit_sound:
  "first_fit n ts m ss = Some i \<Longrightarrow> \<exists>j < length ts. i = n + j \<and> fst (ts ! j) = m \<and> fits (snd (ts ! j)) ss"
proof (induction n ts m ss rule: first_fit.induct)
  case (2 n t ts m ss)
  show ?case
  proof (cases "fst t = m \<and> fits (snd t) ss")
    case False
    with 2 obtain j where "j < length ts" "i = Suc n + j" "fst (ts ! j) = m" "fits (snd (ts ! j)) ss" by auto
    then show ?thesis by (intro exI [of _ "Suc j"]) simp
  qed (use 2 in auto)
qed simp

lemma sample_chi_lawful: "chi_lawful sample_chi"
  by (auto simp: chi_lawful_def sample_chi_def dest!: first_fit_sound split: option.splits)

definition sample_call :: "string \<Rightarrow> string \<Rightarrow> request \<Rightarrow> incoming" where
  "sample_call m path r = \<lparr>in_method = m, in_path = path, in_request = r\<rparr>"

lemma sample_path: "path_segments ''/api/v1/messages/m1'' = [''api'', ''v1'', ''messages'', ''m1'']"
  by code_simp

theorem api_requires_auth_witness:
  "served_status (fst (serve sample_cfg (\<lambda>_. None) sample_chi sample_ctx (\<lambda>_. sample_ctx)
       (sample_call ''DELETE'' ''/api/v1/messages/m1'' (sample_request [] [] [] [])) sample_srv)) \<in> {Some 401, Some 404, Some 405}
    \<and> (\<exists>x. snd (serve sample_cfg (\<lambda>_. None) sample_chi sample_ctx (\<lambda>_. sample_ctx)
       (sample_call ''DELETE'' ''/api/v1/messages/m1'' (sample_request [] [] [] [])) sample_srv) = sample_srv\<lparr>sv_rate := x\<rparr>)"
proof (rule api_requires_auth)
  show "fst (authenticate sample_cfg sample_ctx (in_request (sample_call ''DELETE'' ''/api/v1/messages/m1''
      (sample_request [] [] [] []))) sample_srv) = Inl (Sentinel Unauthorized)"
    by (simp add: sample_call_def authenticate_def)
qed (simp_all add: sample_chi_lawful sample_call_def sample_path public_calls_def)

end
