(* ===== verification/Http_Total.thy ===== *)
theory Http_Total
  imports Http_Router
begin

text \<open>
  Every handler keeps the server's invariant, and in the configuration of production, with the database, the
  authentication service and the event broker set, every handler answers: no nil pointer, no slice bound and no
  closed channel makes it panic.
\<close>

section \<open>The invariant\<close>

definition keeps_ok :: "srv_cfg \<Rightarrow> route \<Rightarrow> bool" where
  "keeps_ok cf rt \<longleftrightarrow> (case rt_target rt of
     Api g h \<Rightarrow> (\<forall>E r p s. srv_ok cf s \<longrightarrow> srv_ok cf (snd (h E r p s))) | _ \<Rightarrow> True)"

lemma keeps_ok_api: "(\<And>E r p s. srv_ok cf s \<Longrightarrow> srv_ok cf (snd (h E r p s))) \<Longrightarrow> keeps_ok cf (api m path g h)"
  by (simp add: keeps_ok_def api_def)

lemma keeps_ok_pages:
  "keeps_ok cf \<lparr>rt_method = m, rt_path = path, rt_target = Landing\<rparr>"
  "keeps_ok cf \<lparr>rt_method = m, rt_path = path, rt_target = Admin\<rparr>"
  by (simp_all add: keeps_ok_def)

lemma same_ok: "snd x = s \<Longrightarrow> srv_ok cf s \<Longrightarrow> srv_ok cf (snd x)"
  by simp

lemmas handlers_ok = account_ok refresh_handlers_ok sendMessage_ok resendMessage_ok deleteMessage_ok
  createSession_ok sessionAction_ok deleteSession_ok updateThrottle_ok template_handlers_ok(1-3)
  webhook_handlers_ok(1-3,5,6) sse_ok(1) listMessages_same [THEN same_ok] getMessage_same [THEN same_ok]
  session_reads_same [THEN same_ok] template_handlers_ok(4,5) [THEN same_ok] webhook_handlers_ok(4) [THEN same_ok]
  reports_same [THEN same_ok]

lemma routes_keep_ok:
  assumes "uuid_canonical (cf_uuid cf)"
  shows "list_all (keeps_ok cf) (routes cf)"
  unfolding routes_def list.pred_inject(2)
  by (intro conjI list.pred_inject(1) keeps_ok_pages keeps_ok_api; (rule handlers_ok; (rule assms | assumption)))

lemma requireAuth_ok_run:
  assumes "srv_ok cf s" "\<And>p s'. srv_ok cf s' \<Longrightarrow> srv_ok cf (snd (next p s'))"
  shows "srv_ok cf (snd (if g then requireAuth cf c r next s else next None s))"
  using assms requireAuth_ok [OF assms] by simp

lemma serve_keeps_ok:
  assumes "chi_lawful chi" "uuid_canonical (cf_uuid cf)" "srv_ok cf s"
  shows "srv_ok cf (snd (serve cf files chi c E q s))"
  using assms(1)
proof (cases rule: serve_cases [of chi cf files c E q s])
  case 1
  with assms(3) show ?thesis by simp
next
  case (2 rt v)
  have k: "keeps_ok cf rt" using routes_keep_ok [OF assms(2)] 2(1) by (simp add: list_all_iff)
  show ?thesis
  proof (cases "rt_target rt")
    case (Api g h)
    with k have "\<And>p s'. srv_ok cf s' \<Longrightarrow> srv_ok cf (snd (h E ((in_request q)\<lparr>rq_param := v\<rparr>) p s'))"
      by (simp add: keeps_ok_def)
    then have "srv_ok cf (snd (if g then requireAuth cf c ((in_request q)\<lparr>rq_param := v\<rparr>) (h E ((in_request q)\<lparr>rq_param := v\<rparr>)) s
        else h E ((in_request q)\<lparr>rq_param := v\<rparr>) None s))"
      by (rule requireAuth_ok_run [OF assms(3)])
    with Api 2(4) show ?thesis by (simp add: run_target_def split_beta split del: if_split)
  qed (use 2(4) assms(3) in \<open>simp_all add: run_target_def\<close>)
qed

section \<open>No handler panics\<close>

text \<open>The answers the API gives: a success, or an error whose body repeats its status.\<close>

definition well_formed :: "response \<Rightarrow> bool" where
  "well_formed a \<longleftrightarrow> rs_status a \<in> {200, 201, 202, 204}
     \<or> rs_status a \<in> {400, 401, 403, 404, 409, 500, 501, 502, 503}
       \<and> (\<exists>t. rs_body a = Some (JObj [(''statusCode'', JInt (rs_status a)), (''error'', JStr (StatusText (rs_status a))), (''message'', JStr t)]))"

definition responds :: "handler_result \<Rightarrow> bool" where
  "responds x \<longleftrightarrow> (case fst x of Answer a \<Rightarrow> well_formed a | Crash \<Rightarrow> False)"

lemma json_responds [simp]:
  "n \<in> {200, 201, 202, 204} \<Longrightarrow> responds (write_json n v, s)"
  "n \<in> {200, 201, 202, 204} \<Longrightarrow> responds (with_cookie k (write_json n v), s)"
  by (simp_all add: responds_def write_json_def with_cookie_def well_formed_def)

lemma error_responds [simp]:
  "n \<in> {400, 401, 403, 404, 409, 500, 501, 502, 503} \<Longrightarrow> responds (writeError n t, s)"
  "n \<in> {400, 401, 403, 404, 409, 500, 501, 502, 503} \<Longrightarrow> responds (with_cookie k (writeError n t), s)"
  by (simp_all add: responds_def writeError_def write_json_def with_cookie_def well_formed_def)

lemma replies_respond [simp]:
  "responds (tokens_reply x, s)" "responds (no_content, s)" "responds (key_error e, s)" "responds (row_error t e, s)"
  "responds (hook_error t e, s)" "responds (already_queued m, s)" "responds (queued_reply i t, s)"
  by (simp_all add: tokens_reply_def key_error_def row_error_def hook_error_def already_queued_def queued_reply_def split: prod.split)
     (simp add: responds_def no_content_def well_formed_def)

lemma db_query_responds: "cf_db cf \<Longrightarrow> (\<And>res. responds (k res)) \<Longrightarrow> responds (db_query cf c q k s)"
  by (simp add: db_query_def)

lemma db_exec_responds: "cf_db cf \<Longrightarrow> (\<And>res s'. responds (k res s')) \<Longrightarrow> responds (db_exec cf c q k s)"
  by (simp add: db_exec_def split_beta)

lemma auth_exec_responds: "cf_auth cf \<Longrightarrow> (\<And>res s'. responds (k res s')) \<Longrightarrow> responds (auth_exec cf q k s)"
  by (simp add: auth_exec_def split_beta)

lemmas exec_responds = db_query_responds db_exec_responds auth_exec_responds

lemma enqueue_responds: "responds (ok, s) \<Longrightarrow> responds (enqueue_message cf c job i ok s)"
proof (cases "enqueue_message cf c job i ok s")
  case (Pair rep s')
  assume "responds (ok, s)"
  then have "responds (ok, s')" by (simp add: responds_def)
  with enqueue_message_cases [OF Pair] show ?thesis by (auto simp: Pair)
qed

lemma account_responds:
  assumes "cf_auth cf"
  shows "responds (login cf E r p s)" "responds (refreshToken cf E r p s)" "responds (logout cf E r p s)"
    "responds (changePassword cf E r p s)" "responds (createAPIKey cf E r p s)" "responds (updateAPIKey cf E r p s)"
    "responds (deleteAPIKey cf E r p s)" "responds (listAPIKeys cf E r p s)"
    "responds (refresh_handler cf E r p s)" "responds (refreshFromCookie cf E r p s)"
  using assms
  by (auto simp: login_def refreshToken_def logout_def changePassword_def createAPIKey_def updateAPIKey_def deleteAPIKey_def
      listAPIKeys_def refresh_handler_def refreshFromCookie_def Let_def intro!: auth_exec_responds split: option.split sum.split)

lemma send_responds:
  assumes "cf_db cf"
  shows "responds (sendMessage cf E r p s)"
proof -
  have "responds (send_new cf E p b key s1)" for b key s1
    using assms by (auto simp: send_new_def Let_def intro!: db_query_responds enqueue_responds split: prod.split option.split sum.split)
  with assms show ?thesis
    by (auto simp: sendMessage_def send_resolved_def intro!: db_query_responds split: option.split sum.split)
qed

lemma message_handlers_respond:
  assumes "cf_db cf"
  shows "responds (listMessages cf E r p s)" "responds (getMessage cf E r p s)" "responds (resendMessage cf E r p s)"
    "responds (deleteMessage cf E r p s)"
  using assms
  by (auto simp: listMessages_def getMessage_def resendMessage_def deleteMessage_def Let_def
      intro!: exec_responds enqueue_responds split: prod.split option.split sum.split)

lemma config_responds:
  assumes "cf_db cf"
  shows "responds (listTemplates cf E r p s)" "responds (createTemplate cf E r p s)" "responds (getTemplate cf E r p s)"
    "responds (updateTemplate cf E r p s)" "responds (deleteTemplate cf E r p s)" "responds (listWebhooks cf E r p s)"
    "responds (createWebhook cf E r p s)" "responds (updateWebhook cf E r p s)" "responds (deleteWebhook cf E r p s)"
    "responds (testWebhook cf E r p s)" "responds (retryWebhook cf E r p s)"
  using assms
  by (auto simp: listTemplates_def createTemplate_def getTemplate_def updateTemplate_def deleteTemplate_def listWebhooks_def
      createWebhook_def updateWebhook_def deleteWebhook_def testWebhook_def retryWebhook_def Let_def
      intro!: exec_responds split: prod.split option.split sum.split)

lemma reports_respond:
  assumes "cf_db cf"
  shows "responds (stats cf E r p s)" "responds (dashboard cf E r p s)" "responds (queueStats cf E r p s)"
    "responds (webhookStats cf E r p s)" "responds (webhookDeliveries cf E r p s)" "responds (monitoring cf E r p s)"
  using assms
  by (auto simp: stats_def dashboard_def queueStats_def webhookStats_def webhookDeliveries_def monitoring_def Let_def
      intro!: exec_responds split: sum.split)

lemma dispatch_event_responds:
  assumes "srv_ok cf s" "\<And>s'. srv_ok cf s' \<Longrightarrow> responds (k s')"
  shows "responds (dispatchSessionEvent cf c a i h k s)"
  using dispatch_event_run [OF assms(1), of c a i h] assms(2) by auto

lemma start_client_responds:
  assumes "srv_ok cf s"
  shows "responds (start_client cf E i me h v s)"
proof (cases "sm_Create (E 3) i me h (sv_mgr s)")
  case (Pair e m)
  have "srv_ok cf (s\<lparr>sv_mgr := m\<rparr>)"
    using sm_Create_ok [OF srv_ok_mgrD [OF assms], of "E 3" i me h] Pair assms by (simp add: srv_ok_mgr)
  then have "srv_ok cf (snd (UpdateSession (srv_store cf) (E 4) i ''failed'' [] [] [] (s\<lparr>sv_mgr := m\<rparr>)))"
    by (rule srv_sessions.update_ok)
  with Pair show ?thesis
    by (auto simp: start_client_def split_beta intro!: dispatch_event_responds split: option.split)
qed

lemma createSession_responds:
  assumes "srv_ok cf s"
  shows "responds (createSession cf E r p s)"
proof -
  have "PutSession (srv_store cf) (E 1) v s = (e, s1) \<Longrightarrow> srv_ok cf s1" for v e s1
    using srv_sessions.put_ok [OF assms, of "E 1" v] by simp
  then show ?thesis
    by (auto simp: createSession_def Let_def start_client_responds intro!: dispatch_event_responds
        split: option.split sum.split prod.split)
qed

lemma sessionAction_responds:
  assumes "srv_ok cf s"
  shows "responds (sessionAction cf a E r p s)"
proof -
  have "srv_ok cf s1 \<Longrightarrow> client_action cf E a i s1 = (e, m) \<Longrightarrow> srv_ok cf (s1\<lparr>sv_mgr := m\<rparr>)" for s1 e m i
    using client_action_ok [of cf s1 E a i] by (simp add: srv_ok_mgr)
  moreover have "PutSession (srv_store cf) (E 1) v s = (e, s1) \<Longrightarrow> srv_ok cf s1" for v e s1
    using srv_sessions.put_ok [OF assms, of "E 1" v] by simp
  moreover have "responds (action_done cf E a v s1)" for v s1 by (simp add: action_done_def split_beta)
  ultimately show ?thesis
    by (auto simp: sessionAction_def Let_def intro!: dispatch_event_responds split: option.split sum.split prod.split)
qed

lemma deleteSession_responds:
  assumes "cf_db cf" "srv_ok cf s"
  shows "responds (deleteSession cf E r p s)"
proof -
  have "srv_ok cf (logged_out cf (E 1) (rq_param r) s)"
    using assms(2) by (simp add: logged_out_def srv_ok_mgr srv_ok_mgrD mgr_ops_ok)
  then have "srv_ok cf (put_srv_db d (logged_out cf (E 1) (rq_param r) s))"
    if "d = snd (delete_session_exec (rq_param r) (srv_db (logged_out cf (E 1) (rq_param r) s)))" for d
    using that delete_session_exec_ok [OF srv_ok_pg] by (simp add: srv_ok_put)
  moreover note \<open>srv_ok cf (logged_out cf (E 1) (rq_param r) s)\<close>
  ultimately show ?thesis using assms
    by (auto simp: deleteSession_def db_exec_def split_beta intro!: db_query_responds dispatch_event_responds
        split: sum.split option.split)
qed

lemma session_handlers_respond:
  assumes "cf_db cf"
  shows "responds (updateThrottle cf E r p s)" "responds (listSessions cf E r p s)" "responds (getSession cf E r p s)"
  using assms
  by (auto simp: updateThrottle_def listSessions_def getSession_def intro!: exec_responds split: sum.split option.split)

lemma sseEvents_responds: "cf_events cf \<Longrightarrow> responds (sseEvents cf E r p s)"
  by (simp add: sseEvents_def sse_open_def responds_def well_formed_def split: prod.split)

definition answers :: "srv_cfg \<Rightarrow> route \<Rightarrow> bool" where
  "answers cf rt \<longleftrightarrow> (case rt_target rt of
     Api g h \<Rightarrow> (\<forall>E r p s. srv_ok cf s \<longrightarrow> responds (h E r p s)) | _ \<Rightarrow> True)"

lemma answers_api: "(\<And>E r p s. srv_ok cf s \<Longrightarrow> responds (h E r p s)) \<Longrightarrow> answers cf (api m path g h)"
  by (simp add: answers_def api_def)

lemma answers_pages:
  "answers cf \<lparr>rt_method = m, rt_path = path, rt_target = Landing\<rparr>"
  "answers cf \<lparr>rt_method = m, rt_path = path, rt_target = Admin\<rparr>"
  by (simp_all add: answers_def)

lemmas handlers_respond = account_responds send_responds message_handlers_respond config_responds reports_respond
  createSession_responds sessionAction_responds deleteSession_responds session_handlers_respond sseEvents_responds

lemma routes_answer:
  assumes "cf_db cf" "cf_auth cf" "cf_events cf"
  shows "list_all (answers cf) (routes cf)"
  unfolding routes_def list.pred_inject(2)
  by (intro conjI list.pred_inject(1) answers_pages answers_api; (rule handlers_respond; (rule assms | assumption)))

definition served_typed :: "served \<Rightarrow> bool" where
  "served_typed v \<longleftrightarrow> (case v of Page p \<Rightarrow> pg_status p \<in> {200, 404, 405, 500}
     | Reply rep \<Rightarrow> (case rep of Answer a \<Rightarrow> well_formed a | Crash \<Rightarrow> False))"

lemma served_typed_status: "served_typed v \<Longrightarrow> served_status v \<noteq> None"
  by (auto simp: served_typed_def served_status_def reply_status_def split: served.splits reply.splits)

lemma reply_typed: "responds x \<Longrightarrow> served_typed (Reply (fst x))"
  by (simp add: served_typed_def responds_def)

lemma pages_typed: "served_typed (Page (landing_Handler files path))" "served_typed (Page (admin_Handler files path))"
  by (simp_all add: served_typed_def landing_Handler_def admin_Handler_def not_found_page_def error_page_def split: option.split)

lemma serve_answers:
  assumes "cf_db cf" "cf_auth cf" "cf_events cf" "chi_lawful chi" "srv_ok cf s"
  shows "served_typed (fst (serve cf files chi c E q s))"
  using assms(4)
proof (cases rule: serve_cases [of chi cf files c E q s])
  case (1 p)
  then show ?thesis by (auto simp: served_typed_def)
next
  case (2 rt v)
  let ?r = "(in_request q)\<lparr>rq_param := v\<rparr>"
  have k: "answers cf rt" using routes_answer [OF assms(1-3)] 2(1) by (simp add: list_all_iff)
  show ?thesis
  proof (cases "rt_target rt")
    case (Api g h)
    with k have h: "srv_ok cf s' \<Longrightarrow> responds (h E ?r p s')" for p s' by (simp add: answers_def)
    have "responds (requireAuth cf c ?r (h E ?r) s)"
      using assms(5) h by (auto simp: requireAuth_def dest!: authenticate_frame split: prod.split sum.split)
    with h [OF assms(5), of None] Api 2(4) show ?thesis
      by (auto simp: run_target_def split_beta reply_typed)
  qed (use 2(4) in \<open>simp_all add: run_target_def pages_typed\<close>)
qed

text \<open>
  C13.  With the database, the authentication service and the event broker configured, a server whose state is sound
  answers every request on every route, whatever the request, its body, the faults of the database and the answers of
  WhatsApp and of the webhooks' receivers.  No handler panics; the answer of the API is a success, or one of
  the errors of its interface with a body that repeats the status and names it; and the state stays sound for the next
  request.
\<close>

theorem serve_well_formed:
  assumes "cf_db cf" "cf_auth cf" "cf_events cf" "uuid_canonical (cf_uuid cf)" "chi_lawful chi" "srv_ok cf s"
  shows "served_typed (fst (serve cf files chi c E q s)) \<and> srv_ok cf (snd (serve cf files chi c E q s))"
  using serve_answers [OF assms(1-3,5,6)] serve_keeps_ok [OF assms(5,4,6)] by blast

theorem serve_well_formed_witness:
  "served_typed (fst (serve sample_cfg (\<lambda>_. None) sample_chi sample_ctx (\<lambda>_. sample_ctx)
       (sample_call ''DELETE'' ''/api/v1/messages/m1'' (sample_request [] [] [] [])) sample_srv))
    \<and> srv_ok sample_cfg (snd (serve sample_cfg (\<lambda>_. None) sample_chi sample_ctx (\<lambda>_. sample_ctx)
       (sample_call ''DELETE'' ''/api/v1/messages/m1'' (sample_request [] [] [] [])) sample_srv))"
  by (rule serve_well_formed) (simp_all add: sample_chi_lawful uuid_canonical_def)

end
