(* ===== verification/Outbox_Spec.thy ===== *)
theory Outbox_Spec
  imports Postgres_Store
begin

text \<open>
  What the gateway promises about messages, without its tables, queues and retries: an outbox in which letters
  are posted, attempted, delivered, read and, once they are no longer pending, removed.  The table \<open>messages\<close> is
  mapped to it, and the changes the statements make to the table are matched with steps of the outbox.
\<close>

section \<open>The outbox\<close>

text \<open>Every letter has a status; what was posted, the letter itself, never changes.\<close>

type_synonym 'l outbox = "string \<rightharpoonup> 'l \<times> string"

text \<open>The statuses of a letter whose fate is open.\<close>

definition pending :: "string \<Rightarrow> bool" where
  "pending a \<longleftrightarrow> a = ''queued'' \<or> a = ''processing''"

text \<open>An attempt ends as sent or failed whatever was before, a receipt only moves forward.\<close>

definition advances :: "string \<Rightarrow> string \<Rightarrow> bool" where
  "advances a a' \<longleftrightarrow> a' \<in> {''sent'', ''failed''} \<or> a \<in> {''sent'', ''delivered''} \<and> a' \<in> {''delivered'', ''read''}"

inductive progress :: "'l outbox \<Rightarrow> 'l outbox \<Rightarrow> bool" where
  Advance: "b i = Some (l, a) \<Longrightarrow> advances a a' \<Longrightarrow> progress b (b(i \<mapsto> (l, a')))"

inductive outbox_step :: "'l outbox \<Rightarrow> 'l outbox \<Rightarrow> bool" where
  Post: "b i = None \<Longrightarrow> outbox_step b (b(i \<mapsto> (l, ''queued'')))"
| Progress: "progress\<^sup>*\<^sup>* b b' \<Longrightarrow> outbox_step b b'"
| Remove: "b i = Some (l, a) \<Longrightarrow> \<not> pending a \<Longrightarrow> outbox_step b (b(i := None))"

inductive_cases progressE: "progress b b'"
inductive_cases outbox_stepE: "outbox_step b b'"

lemma outbox_refl: "outbox_step b b"
  by (rule Progress) simp

lemma progress_letter: "progress b b' \<Longrightarrow> map_option fst (b' i) = map_option fst (b i)"
  by (auto elim!: progressE)

lemma progresses_letter: "progress\<^sup>*\<^sup>* b b' \<Longrightarrow> map_option fst (b' i) = map_option fst (b i)"
  by (induction rule: rtranclp_induct) (simp_all add: progress_letter)

text \<open>A pending letter survives every step unchanged, and a step changes what a letter says only by removing it.\<close>

lemma outbox_step_letter:
  assumes "outbox_step b b'" "b i = Some (l, a)"
  shows "(\<exists>a'. b' i = Some (l, a')) \<or> b' i = None \<and> \<not> pending a"
  using assms(1)
proof cases
  case Progress
  from progresses_letter [OF this, of i] show ?thesis using assms(2) by auto
qed (use assms(2) in \<open>auto split: if_splits\<close>)

lemma outbox_step_new:
  assumes "outbox_step b b'" "b i = None" "b' i = Some (l, a)"
  shows "a = ''queued''"
  using assms(1)
proof cases
  case Progress
  from progresses_letter [OF this, of i] show ?thesis using assms(2,3) by simp
qed (use assms(2,3) in \<open>auto split: if_splits\<close>)

section \<open>The table as an outbox\<close>

text \<open>The columns that are written once.\<close>

definition letter_of :: "message_row \<Rightarrow> message_row" where
  "letter_of r = r\<lparr>mr_status := [], mr_error := None, mr_wa_message_id := None, mr_sent_at := None,
     mr_delivered_at := None, mr_read_at := None, mr_updated_at := 0\<rparr>"

definition entry_of :: "message_row \<Rightarrow> string \<times> message_row \<times> string" where
  "entry_of r = (mr_id r, letter_of r, mr_status r)"

definition outbox_of :: "message_row list \<Rightarrow> message_row outbox" where
  "outbox_of rs = map_of (map entry_of rs)"

lemma entry_fst [simp]: "fst (entry_of r) = mr_id r" "snd (entry_of r) = (letter_of r, mr_status r)"
  by (simp_all add: entry_of_def)

lemma outbox_None: "outbox_of rs i = None \<longleftrightarrow> i \<notin> mr_id ` set rs"
  by (simp add: outbox_of_def map_of_eq_None_iff image_image)

lemma outbox_Some: "distinct (map mr_id rs) \<Longrightarrow> r \<in> set rs \<Longrightarrow> outbox_of rs (mr_id r) = Some (letter_of r, mr_status r)"
  unfolding outbox_of_def by (rule map_of_is_SomeI) (simp_all add: comp_def entry_of_def rev_image_eqI)

lemma outbox_SomeD: "outbox_of rs i = Some (l, a) \<Longrightarrow> \<exists>r \<in> set rs. mr_id r = i \<and> l = letter_of r \<and> a = mr_status r"
  unfolding outbox_of_def by (auto simp: entry_of_def dest!: map_of_SomeD)

lemma outbox_append:
  assumes "mr_id r \<notin> mr_id ` set rs"
  shows "outbox_of (rs @ [r]) = (outbox_of rs)(mr_id r \<mapsto> (letter_of r, mr_status r))"
proof
  fix i
  have "outbox_of rs (mr_id r) = None" using assms by (simp add: outbox_None)
  then show "outbox_of (rs @ [r]) i = ((outbox_of rs)(mr_id r \<mapsto> (letter_of r, mr_status r))) i"
    by (cases "i = mr_id r") (simp_all add: outbox_of_def map_add_def entry_of_def split: option.split)
qed

lemma outbox_delete: "outbox_of (delete_where (\<lambda>r. mr_id r = i) rs) = (outbox_of rs)(i := None)"
  by (induction rs) (auto simp: outbox_of_def delete_where_def entry_of_def)

lemma outbox_replace:
  assumes "distinct (map mr_id (pre @ r # rs))" "mr_id r' = mr_id r"
  shows "outbox_of (pre @ r' # rs) = (outbox_of (pre @ r # rs))(mr_id r \<mapsto> (letter_of r', mr_status r'))"
proof -
  have "outbox_of pre (mr_id r) = None" using assms(1) by (auto simp: outbox_None)
  with assms(2) show ?thesis
    by (auto simp: outbox_of_def fun_eq_iff map_add_def entry_of_def split: option.split)
qed

section \<open>Statements as steps\<close>

text \<open>An update that leaves the letter and advances its status.\<close>

definition advancing :: "(message_row \<Rightarrow> bool) \<Rightarrow> (message_row \<Rightarrow> message_row) \<Rightarrow> bool" where
  "advancing q f \<longleftrightarrow> (\<forall>r. q r \<longrightarrow> mr_id (f r) = mr_id r \<and> letter_of (f r) = letter_of r \<and> advances (mr_status r) (mr_status (f r)))"

lemma update_progress:
  assumes "advancing q f" "distinct (map mr_id (pre @ rs))"
  shows "progress\<^sup>*\<^sup>* (outbox_of (pre @ rs)) (outbox_of (pre @ update_where q f rs))"
  using assms(2)
proof (induction rs arbitrary: pre)
  case (Cons r rs)
  let ?r = "if q r then f r else r"
  have id: "mr_id ?r = mr_id r" using assms(1) by (simp add: advancing_def)
  have "progress\<^sup>*\<^sup>* (outbox_of (pre @ r # rs)) (outbox_of (pre @ ?r # rs))"
  proof (cases "q r")
    case True
    have "outbox_of (pre @ r # rs) (mr_id r) = Some (letter_of r, mr_status r)"
      using Cons.prems by (intro outbox_Some) auto
    moreover have "outbox_of (pre @ ?r # rs) = (outbox_of (pre @ r # rs))(mr_id r \<mapsto> (letter_of r, mr_status ?r))"
      using outbox_replace [OF Cons.prems id] True assms(1) by (simp add: advancing_def)
    ultimately have "progress (outbox_of (pre @ r # rs)) (outbox_of (pre @ ?r # rs))"
      using True assms(1) by (simp add: advancing_def Advance)
    then show ?thesis by blast
  qed simp
  also have "progress\<^sup>*\<^sup>* (outbox_of (pre @ ?r # rs)) (outbox_of (pre @ ?r # update_where q f rs))"
    using Cons.IH [of "pre @ [?r]"] Cons.prems id by simp
  finally show ?case by (simp split: if_split)
qed simp

lemma status_advancing: "a \<in> {''sent'', ''failed''} \<Longrightarrow> advancing (\<lambda>r. mr_id r = i) (status_row now a x e)"
  by (auto simp: advancing_def status_row_def letter_of_def advances_def)

lemma receipt_advancing: "a \<in> {''delivered'', ''read''} \<Longrightarrow> advancing (receipt_hit i w) (receipt_row a t)"
  by (auto simp: advancing_def receipt_row_def letter_of_def advances_def receipt_hit_def)

end
