(* ===== verification/Http_Frame.thy ===== *)
theory Http_Frame
  imports Http_Total Outbox_Spec
begin

text \<open>
  What the handlers do to the table \<open>messages\<close>: sending and resending post one letter, deleting removes one that is
  not pending, and every other handler leaves the table alone.
\<close>

abbreviation msgs :: "srv \<Rightarrow> message_row list" where
  "msgs s \<equiv> t_messages (srv_db s)"

section \<open>Handlers that leave the messages alone\<close>

lemma db_query_msgs: "msgs s = ms \<Longrightarrow> (\<And>res. msgs (snd (k res)) = ms) \<Longrightarrow> msgs (snd (db_query cf c q k s)) = ms"
  by (simp add: db_query_def)

lemma db_exec_msgs:
  assumes "msgs s = ms" "t_messages (snd (q (srv_db s))) = msgs s" "\<And>res s'. msgs s' = ms \<Longrightarrow> msgs (snd (k res s')) = ms"
  shows "msgs (snd (db_exec cf c q k s)) = ms"
  using assms by (simp add: db_exec_def split_beta split: option.split)

lemma auth_exec_msgs:
  assumes "msgs s = ms" "t_messages (snd (q (srv_db s))) = msgs s" "\<And>res s'. msgs s' = ms \<Longrightarrow> msgs (snd (k res s')) = ms"
  shows "msgs (snd (auth_exec cf q k s)) = ms"
  using assms by (simp add: auth_exec_def split_beta)

lemma dispatch_event_msgs:
  assumes "msgs s = ms" "\<And>s'. msgs s' = ms \<Longrightarrow> msgs (snd (k s')) = ms"
  shows "msgs (snd (dispatchSessionEvent cf c a i h k s)) = ms"
proof -
  let ?w = "snd (broker_dispatch c (''session.'' @ a) (JObj [(''sessionId'', JStr i), (''status'', JStr a), (''phoneNumber'', JStr h)]) (sv_world s))"
  have "w_db ?w = srv_db s" using broker_dispatch_same by (simp add: w_db_def srv_db_def)
  then have "msgs (s\<lparr>sv_world := ?w\<rparr>) = ms" using assms(1) by simp
  with assms show ?thesis by (simp add: dispatchSessionEvent_def split_beta)
qed

lemma store_msgs:
  "msgs (snd (PutSession (srv_store cf) c v s)) = msgs s"
  "msgs (snd (UpdateSession (srv_store cf) c i a q p h s)) = msgs s"
  by (simp_all add: srv_store_def)

lemma statement_msgs:
  "t_messages (snd (insert_template c n b d)) = t_messages d" "t_messages (snd (update_template cf c i n b d)) = t_messages d"
  "t_messages (snd (delete_template cf i d)) = t_messages d" "t_messages (snd (insert_webhook c wb enc a d)) = t_messages d"
  "t_messages (snd (update_webhook cf c i wb enc d)) = t_messages d" "t_messages (snd (delete_webhook cf i d)) = t_messages d"
  "t_messages (snd (delete_session_exec i d)) = t_messages d" "t_messages (snd (update_throttle_rows c i tb d)) = t_messages d"
  by (auto simp: insert_template_def update_template_def delete_template_def delete_template_rows_def insert_webhook_def
      update_webhook_def delete_webhook_def delete_webhook_rows_def delete_session_exec_def delete_session_rows_def
      update_throttle_rows_def Let_def split: option.split sum.splits if_splits)

lemmas frame_rules = db_query_msgs db_exec_msgs auth_exec_msgs dispatch_event_msgs

lemma account_msgs:
  "msgs (snd (login cf E r p s)) = msgs s" "msgs (snd (refreshToken cf E r p s)) = msgs s"
  "msgs (snd (logout cf E r p s)) = msgs s" "msgs (snd (changePassword cf E r p s)) = msgs s"
  "msgs (snd (createAPIKey cf E r p s)) = msgs s" "msgs (snd (updateAPIKey cf E r p s)) = msgs s"
  "msgs (snd (deleteAPIKey cf E r p s)) = msgs s" "msgs (snd (listAPIKeys cf E r p s)) = msgs s"
  by (auto simp: login_def refreshToken_def logout_def changePassword_def createAPIKey_def updateAPIKey_def deleteAPIKey_def
      listAPIKeys_def Let_def intro!: auth_exec_msgs split: option.split sum.split)

lemma refresh_msgs:
  "msgs (snd (refresh_handler cf E r p s)) = msgs s" "msgs (snd (refreshFromCookie cf E r p s)) = msgs s"
  by (simp_all add: refresh_handler_def refreshFromCookie_def account_msgs)

lemma template_msgs:
  "msgs (snd (createTemplate cf E r p s)) = msgs s" "msgs (snd (updateTemplate cf E r p s)) = msgs s"
  "msgs (snd (deleteTemplate cf E r p s)) = msgs s"
  by (auto simp: createTemplate_def updateTemplate_def deleteTemplate_def statement_msgs
      intro!: db_exec_msgs split: option.split sum.split)

lemma put_hooks_msgs: "same_but_deliveries (srv_db s) (hk_db h) \<Longrightarrow> msgs (put_hooks h s) = msgs s"
  by (simp add: put_hooks_def srv_db_def w_db_def same_but_deliveries_def)

lemma hook_calls_msgs:
  assumes "srv_ok cf s"
  shows "msgs (put_hooks (snd (snd (Test P c i (w_hooks (sv_world s))))) s) = msgs s"
    "msgs (put_hooks (snd (Retry P c i (w_hooks (sv_world s)))) s) = msgs s"
proof -
  have ok: "db_ok (hk_db (w_hooks (sv_world s)))" using srv_ok_db [OF assms] by (simp add: srv_db_def w_db_def)
  show "msgs (put_hooks (snd (snd (Test P c i (w_hooks (sv_world s))))) s) = msgs s"
    using Test_db [OF ok, of P c i] by (intro put_hooks_msgs) (simp_all add: srv_db_def w_db_def)
  show "msgs (put_hooks (snd (Retry P c i (w_hooks (sv_world s)))) s) = msgs s"
    using retry_from_db [OF ok, of P c 0 i] by (intro put_hooks_msgs) (simp_all add: srv_db_def w_db_def Retry_def)
qed

lemma webhook_msgs:
  assumes "srv_ok cf s"
  shows "msgs (snd (createWebhook cf E r p s)) = msgs s" "msgs (snd (updateWebhook cf E r p s)) = msgs s"
    "msgs (snd (deleteWebhook cf E r p s)) = msgs s" "msgs (snd (testWebhook cf E r p s)) = msgs s"
    "msgs (snd (retryWebhook cf E r p s)) = msgs s"
proof -
  show "msgs (snd (createWebhook cf E r p s)) = msgs s" "msgs (snd (updateWebhook cf E r p s)) = msgs s"
    "msgs (snd (deleteWebhook cf E r p s)) = msgs s"
    by (auto simp: createWebhook_def updateWebhook_def deleteWebhook_def statement_msgs Let_def
        intro!: db_exec_msgs split: option.split sum.split)
  show "msgs (snd (testWebhook cf E r p s)) = msgs s"
    using hook_calls_msgs(1) [OF assms, of "cf_hooks cf" "E 0" "rq_param r"]
    by (auto simp: testWebhook_def intro!: db_query_msgs split: prod.split option.split sum.split)
  show "msgs (snd (retryWebhook cf E r p s)) = msgs s"
    using hook_calls_msgs(2) [OF assms, of "cf_hooks cf" "E 0" "rq_param r"]
    by (auto simp: retryWebhook_def split: prod.split option.split)
qed

lemma start_client_msgs: "msgs (snd (start_client cf E i me h v s)) = msgs s"
  by (auto simp: start_client_def split_beta store_msgs intro!: dispatch_event_msgs split: option.split)

lemma createSession_msgs: "msgs (snd (createSession cf E r p s)) = msgs s"
proof -
  have "PutSession (srv_store cf) (E 1) v s = (e, s1) \<Longrightarrow> msgs s1 = msgs s" for v e s1
    using store_msgs(1) [of cf "E 1" v s] by simp
  then show ?thesis
    by (auto simp: createSession_def Let_def start_client_msgs intro!: dispatch_event_msgs
        split: option.split sum.split prod.split)
qed

lemma sessionAction_msgs: "msgs (snd (sessionAction cf a E r p s)) = msgs s"
proof -
  have "PutSession (srv_store cf) (E 1) v s = (e, s1) \<Longrightarrow> msgs s1 = msgs s" for v e s1
    using store_msgs(1) [of cf "E 1" v s] by simp
  moreover have "msgs (snd (action_done cf E a v s1)) = msgs s1" for v s1
    by (simp add: action_done_def split_beta store_msgs)
  ultimately show ?thesis
    by (auto simp: sessionAction_def Let_def intro!: dispatch_event_msgs split: option.split sum.split prod.split)
qed

lemma deleteSession_msgs: "msgs (snd (deleteSession cf E r p s)) = msgs s"
proof -
  have "msgs (logged_out cf (E 1) (rq_param r) s) = msgs s" by (simp add: logged_out_def)
  then show ?thesis
    by (auto simp: deleteSession_def statement_msgs intro!: frame_rules split: sum.split)
qed

lemma updateThrottle_msgs: "msgs (snd (updateThrottle cf E r p s)) = msgs s"
  by (auto simp: updateThrottle_def statement_msgs intro!: db_exec_msgs split: sum.split option.split)

lemma sse_msgs: "msgs (snd (sseEvents cf E r p s)) = msgs s"
  by (auto simp: sseEvents_def sse_open_def put_broker_def srv_db_def split: prod.split)

lemma same_msgs: "snd x = s \<Longrightarrow> msgs (snd x) = msgs s"
  by simp

lemmas handlers_msgs = account_msgs refresh_msgs template_msgs webhook_msgs createSession_msgs sessionAction_msgs
  deleteSession_msgs updateThrottle_msgs sse_msgs listMessages_same [THEN same_msgs] getMessage_same [THEN same_msgs]
  session_reads_same [THEN same_msgs] template_handlers_ok(4,5) [THEN same_msgs] webhook_handlers_ok(4) [THEN same_msgs]
  reports_same [THEN same_msgs]

section \<open>Posting and removing\<close>

lemma enqueue_msgs: "enqueue_message cf c job i ok s = (rep, s') \<Longrightarrow> msgs s' = msgs s"
  by (auto dest!: enqueue_message_cases)

text \<open>A stored message appears in the outbox as a queued letter under an unused identifier.\<close>

lemma put_message_posts:
  assumes "pg_ok (cf_uuid cf) (srv_db s)" "pg_PutMessage (cf_uuid cf) c v (srv_db s) = (None, d)" "m_Status v = ''queued''"
  shows "outbox_step (outbox_of (msgs s)) (outbox_of (t_messages d))"
proof -
  from pg_PutMessage_None [OF assms(2)] obtain i t where
    ins: "insert_message (message_row_of i t (c_now c) v) (srv_db s)
      = Inr ((srv_db s)\<lparr>t_messages := msgs s @ [message_row_of i t (c_now c) v]\<rparr>)"
    and d: "t_messages d = msgs s @ [message_row_of i t (c_now c) v]" by force
  let ?m = "message_row_of i t (c_now c) v"
  have "mr_id ?m \<notin> mr_id ` set (msgs s)" using ins by (auto simp: insert_message_Inr)
  then show ?thesis
    using assms(3) by (simp add: d outbox_append outbox_None outbox_step.Post) (simp add: message_row_of_def outbox_step.Post outbox_None)
qed

lemma sendMessage_posts:
  assumes "cf_db cf" "srv_ok cf s"
  shows "outbox_step (outbox_of (msgs s)) (outbox_of (msgs (snd (sendMessage cf E r p s))))"
proof (cases "sendMessage cf E r p s")
  case (Pair rep s')
  from sendMessage_cases [OF assms(1) Pair] show ?thesis
  proof (elim disjE exE conjE)
    assume "nothing_stored s rep s'"
    with Pair show ?thesis by (simp add: nothing_stored_def outbox_refl)
  next
    fix b body
    assume "stored_reply cf E (message_for cf E r p b body) s rep s'"
    then obtain d where d: "pg_PutMessage (cf_uuid cf) (E 3) (message_for cf E r p b body) (srv_db s) = (None, d)"
      "msgs s' = t_messages d" by (auto simp: stored_reply_def dest!: enqueue_msgs)
    have "m_Status (message_for cf E r p b body) = ''queued''" by (simp add: message_for_def new_message_def)
    from put_message_posts [OF srv_ok_pg [OF assms(2)] d(1) this] d(2) Pair show ?thesis by simp
  qed
qed

lemma resendMessage_posts:
  assumes "cf_db cf" "srv_ok cf s"
  shows "outbox_step (outbox_of (msgs s)) (outbox_of (msgs (snd (resendMessage cf E r p s))))"
proof -
  have put: "outbox_step (outbox_of (msgs s)) (outbox_of (msgs s1))"
    if p: "PutMessage (srv_store cf) (E 3) (resent_message m i now) s = (e, s1)" for m i now e s1
  proof (cases e)
    case None
    then obtain d where d: "pg_PutMessage (cf_uuid cf) (E 3) (resent_message m i now) (srv_db s) = (None, d)" "srv_db s1 = d"
      using p assms(1) by (auto simp: srv_PutMessage_db split: prod.splits)
    have "m_Status (resent_message m i now) = ''queued''" by (simp add: resent_message_def)
    from put_message_posts [OF srv_ok_pg [OF assms(2)] d(1) this] d(2) show ?thesis by simp
  next
    case (Some x)
    then have "msgs s1 = msgs s"
      using p assms(1) by (auto simp: srv_PutMessage_db dest!: pg_PutMessage_Some split: prod.splits)
    then show ?thesis by (simp add: outbox_refl)
  qed
  have enq: "msgs (snd (enqueue_message cf c job i ok s1)) = msgs s1" for c job i ok s1
    by (cases "enqueue_message cf c job i ok s1") (simp add: enqueue_msgs)
  show ?thesis using assms(1)
    by (auto simp: resendMessage_def db_query_def Let_def enq outbox_refl intro: put split: sum.split prod.split option.split)
qed

lemma deleteMessage_removes:
  assumes "cf_db cf" "srv_ok cf s"
  shows "outbox_step (outbox_of (msgs s)) (outbox_of (msgs (snd (deleteMessage cf E r p s))))"
proof -
  have del: "outbox_step (outbox_of (msgs s)) (outbox_of (t_messages (delete_message_rows u (srv_db s))))"
    if "find_message cf (rq_param r) (srv_db s) = Inr m" "\<not> pending (mr_status m)" "cf_uuid cf (rq_param r) = Some u" for m u
  proof -
    have m: "mr_id m = u" "m \<in> set (msgs s)" using find_message_Inr [OF that(1)] that(3) by auto
    then have "outbox_of (msgs s) u = Some (letter_of m, mr_status m)"
      using outbox_Some [of "msgs s" m] srv_ok_db [OF assms(2)] by (simp add: db_ok_defs)
    then show ?thesis using that(2)
      by (simp add: delete_message_rows_def outbox_delete outbox_step.Remove)
  qed
  show ?thesis using assms(1)
    by (auto simp: deleteMessage_def db_query_def db_exec_def outbox_refl pending_def intro!: del split: sum.split option.split)
qed

text \<open>Every route as a step of the outbox.\<close>

definition steps_outbox :: "srv_cfg \<Rightarrow> route \<Rightarrow> bool" where
  "steps_outbox cf rt \<longleftrightarrow> (case rt_target rt of
     Api g h \<Rightarrow> (\<forall>E r p s. srv_ok cf s \<longrightarrow> outbox_step (outbox_of (msgs s)) (outbox_of (msgs (snd (h E r p s))))) | _ \<Rightarrow> True)"

lemma steps_api:
  "(\<And>E r p s. srv_ok cf s \<Longrightarrow> outbox_step (outbox_of (msgs s)) (outbox_of (msgs (snd (h E r p s)))))
   \<Longrightarrow> steps_outbox cf (api m path g h)"
  by (simp add: steps_outbox_def api_def)

lemma steps_api_same: "(\<And>E r p s. srv_ok cf s \<Longrightarrow> msgs (snd (h E r p s)) = msgs s) \<Longrightarrow> steps_outbox cf (api m path g h)"
  by (rule steps_api) (simp add: outbox_refl)

lemma steps_pages:
  "steps_outbox cf \<lparr>rt_method = m, rt_path = path, rt_target = Landing\<rparr>"
  "steps_outbox cf \<lparr>rt_method = m, rt_path = path, rt_target = Admin\<rparr>"
  by (simp_all add: steps_outbox_def)

lemma steps_messages:
  assumes "cf_db cf"
  shows "steps_outbox cf (api m path g (sendMessage cf))" "steps_outbox cf (api m path g (resendMessage cf))"
    "steps_outbox cf (api m path g (deleteMessage cf))"
  by (rule steps_api, rule sendMessage_posts resendMessage_posts deleteMessage_removes, rule assms, assumption)+

lemma routes_step_outbox:
  assumes "cf_db cf"
  shows "list_all (steps_outbox cf) (routes cf)"
  unfolding routes_def list.pred_inject(2)
  by (intro conjI list.pred_inject(1) steps_pages;
      (rule steps_messages [OF assms] | rule steps_api_same, rule handlers_msgs, (assumption)?))

lemma serve_steps_outbox:
  assumes "chi_lawful chi" "cf_db cf" "srv_ok cf s"
  shows "outbox_step (outbox_of (msgs s)) (outbox_of (msgs (snd (serve cf files chi c E q s))))"
  using assms(1)
proof (cases rule: serve_cases [of chi cf files c E q s])
  case 1
  then show ?thesis by (simp add: outbox_refl)
next
  case (2 rt v)
  let ?r = "(in_request q)\<lparr>rq_param := v\<rparr>"
  have k: "steps_outbox cf rt" using routes_step_outbox [OF assms(2)] 2(1) by (simp add: list_all_iff)
  show ?thesis
  proof (cases "rt_target rt")
    case (Api g h)
    with k have h: "srv_ok cf s' \<Longrightarrow> outbox_step (outbox_of (msgs s')) (outbox_of (msgs (snd (h E ?r p s'))))" for p s'
      by (simp add: steps_outbox_def)
    have "outbox_step (outbox_of (msgs s)) (outbox_of (msgs (snd (requireAuth cf c ?r (h E ?r) s))))"
    proof (cases "authenticate cf c ?r s")
      case (Pair res s1)
      then obtain x where "s1 = s\<lparr>sv_rate := x\<rparr>" using authenticate_frame by blast
      with Pair assms(3) h [of s "None"] h [of s1] show ?thesis
        by (auto simp: requireAuth_def outbox_refl split: sum.split)
    qed
    with h [OF assms(3), of None] Api 2(4) show ?thesis by (auto simp: run_target_def split_beta)
  qed (use 2(4) in \<open>simp_all add: run_target_def outbox_refl\<close>)
qed

end
