(* ===== verification/Gateway_System.thy ===== *)
theory Gateway_System
  imports Http_Frame
begin

text \<open>
  The running gateway as one transition system over the server's state: HTTP requests, tasks of the queue, events of the
  WhatsApp clients, their QR and connection goroutines, the recovery at the start and the readers of the event
  stream, in any order.  Each step is one run of a handler; \<open>Concurrent_Gateway\<close> interleaves the statements of
  those that change messages.  Every reachable state is sound, and the messages behave like the outbox of \<open>Outbox_Spec\<close>.
\<close>

section \<open>Dispatchers\<close>

text \<open>The session manager has a dispatcher only when \<open>main\<close> set one, together with the webhooks.\<close>

definition session_dispatcher :: "srv_cfg \<Rightarrow> world dispatch option" where
  "session_dispatcher cf = (if cf_dispatcher cf then Some (gateway_dispatcher (cf_hooks cf)) else None)"

lemma session_dispatcher_events:
  "session_events (gateway_store (cf_uuid cf)) (world_ok (cf_uuid cf)) (\<lambda>w. pg_view (w_db w)) (session_dispatcher cf)"
proof (unfold_locales, goal_cases)
  case (1 d w c ev p)
  then show ?case using dispatcher_ok by (auto simp: session_dispatcher_def split: if_splits)
next
  case (2 d w c ev p)
  then show ?case using dispatcher_same [of w "cf_hooks cf" c ev p]
    by (auto simp: session_dispatcher_def same_core_def split: if_splits intro: pg_view_cong)
next
  case 3
  then show ?case by (rule gw_messages.receipt_ok)
next
  case 4
  then show ?case by (rule gw_events.receipts_view)
qed

interpretation sys_events: session_events "gateway_store (cf_uuid cf)" "world_ok (cf_uuid cf)" "\<lambda>w. pg_view (w_db w)" "session_dispatcher cf"
  for cf :: srv_cfg
  by (rule session_dispatcher_events)

section \<open>Effects on the messages\<close>

abbreviation wmsgs :: "world \<Rightarrow> message_row list" where
  "wmsgs w \<equiv> t_messages (w_db w)"

abbreviation progresses :: "message_row list \<Rightarrow> message_row list \<Rightarrow> bool" where
  "progresses rs rs' \<equiv> progress\<^sup>*\<^sup>* (outbox_of rs) (outbox_of rs') \<and> map mr_id rs' = map mr_id rs"

lemma publish_wmsgs: "wmsgs (snd (opt_dispatch (Some (gateway_dispatcher P)) c ev p w)) = wmsgs w"
  using dispatcher_same [of w P c ev p] by (simp add: opt_dispatch_def split_beta same_core_def)

lemma session_publish_wmsgs: "wmsgs (snd (opt_dispatch (session_dispatcher cf) c ev p w)) = wmsgs w"
  by (simp add: session_dispatcher_def publish_wmsgs) (simp add: opt_dispatch_def)

lemma worker_parts_wmsgs:
  "wmsgs (snd (limiter_Wait obs c s w)) = wmsgs w"
  "wmsgs (recordFailure (gateway_worker u P obs m) c job w) = wmsgs w"
  "wmsgs (recordSuccess (gateway_worker u P obs m) c job w) = wmsgs w"
  "wmsgs (snd (UpdateQueueJob (gateway_store u) c i a e w)) = wmsgs w"
  by (simp_all add: w_db_def limiter_Wait_db recordFailure_def recordSuccess_def gateway_store_def lift_store_def)
     (simp_all add: put_db_def pg_UpdateQueueJob_def split: option.split)

lemma send_job_wmsgs: "wmsgs (snd (send_job (queue_sender v) c job w)) = wmsgs w"
  by (simp add: send_job_def queue_sender_def split_beta)

lemma status_progresses:
  assumes "distinct (map mr_id (wmsgs w))" "a \<in> {''sent'', ''failed''}"
  shows "progresses (wmsgs w) (wmsgs (snd (UpdateMessageStatus (gateway_store u) c i a x e w)))"
  using update_progress [OF status_advancing [OF assms(2)], of "[]" "wmsgs w"] assms(1)
  by (auto simp: gateway_store_def lift_store_def pg_UpdateMessageStatus_def map_update_where status_row_def split: option.split)

lemma report_failure_progresses:
  assumes "distinct (map mr_id (wmsgs w))"
  shows "progresses (wmsgs w) (wmsgs (snd (report_failure (gateway_worker u P obs m) E job t w)))"
proof -
  let ?w = "recordFailure (gateway_worker u P obs m) (E 2) job w"
  have eq: "wmsgs ?w = wmsgs w" by (rule worker_parts_wmsgs)
  have "progresses (wmsgs ?w) (wmsgs (snd (UpdateMessageStatus (gateway_store u) (E 3) (j_MessageID job) ''failed'' [] t ?w)))"
    by (rule status_progresses) (simp_all add: eq assms)
  then show ?thesis by (simp add: report_failure_def Let_def publish_wmsgs worker_parts_wmsgs eq)
qed

lemma process_job_progresses:
  assumes "distinct (map mr_id (wmsgs w))"
  shows "progresses (wmsgs w) (wmsgs (snd (process_job (gateway_worker u P obs m) E job w)))"
proof -
  obtain r1 w1 where w1: "limiter_Wait obs (E 0) (j_SessionID job) w = (r1, w1)" by fastforce
  then have m1: "wmsgs w1 = wmsgs w" using worker_parts_wmsgs(1) [of obs "E 0" "j_SessionID job" w] by simp
  show ?thesis
  proof (cases "r1 = None \<and> sm_clients m (j_SessionID job) \<noteq> None")
    case False
    obtain r2 w2 where w2: "report_failure (gateway_worker u P obs m) E job ''session client unavailable'' w1 = (r2, w2)" by fastforce
    then have "progresses (wmsgs w) (wmsgs w2)"
      using report_failure_progresses [of w1 u P obs m E job "''session client unavailable''"] assms m1 by simp
    with False w1 w2 m1 show ?thesis
      by (auto simp: process_job_def gateway_worker_def split: option.splits prod.splits)
  next
    case True
    then have look: "wk_lookup (gateway_worker u P obs m) (j_SessionID job) w1 = Some (queue_sender (hp_url_valid P))"
      by (auto simp: gateway_worker_def)
    obtain q w2 where w2: "send_job (queue_sender (hp_url_valid P)) (E 1) job w1 = (q, w2)" by fastforce
    then have m2: "wmsgs w2 = wmsgs w" using send_job_wmsgs [of "hp_url_valid P" "E 1" job w1] m1 by simp
    show ?thesis
    proof (cases q)
      case (Inl e)
      obtain z w3 where w3: "report_failure (gateway_worker u P obs m) E job (err_text e) w2 = (z, w3)" by fastforce
      then have "progresses (wmsgs w) (wmsgs w3)"
        using report_failure_progresses [of w2 u P obs m E job "err_text e"] assms m2 by simp
      then show ?thesis using True Inl w1 look w2 w3 by (simp add: process_job_def split: option.split)
    next
      case (Inr x)
      obtain y w3 where w3: "UpdateMessageStatus (gateway_store u) (E 3) (j_MessageID job) ''sent'' x [] w2 = (y, w3)" by fastforce
      then have "progresses (wmsgs w) (wmsgs w3)"
        using status_progresses [of w2 "''sent''" u "E 3" "j_MessageID job" x "[]"] assms m2 by simp
      with Inr True w1 look w2 w3 show ?thesis
        by (simp add: process_job_def Let_def publish_wmsgs worker_parts_wmsgs split: option.split)
    qed
  qed
qed

lemma handle_task_progresses:
  assumes "distinct (map mr_id (wmsgs w))"
  shows "progresses (wmsgs w) (wmsgs (snd (handle_task (gateway_worker u P obs m) E payload w)))"
  using process_job_progresses [OF assms] by (simp add: handle_task_def split: sum.split)

lemma session_writes_wmsgs:
  "wmsgs (snd (UpdateSession (gateway_store u) c i a q p h w)) = wmsgs w"
  "wmsgs (snd (SetSessionQRExpiry (gateway_store u) c i x w)) = wmsgs w"
  "wmsgs (snd (SetSessionIdentity (gateway_store u) c i j h w)) = wmsgs w"
  by (simp_all add: gateway_store_def lift_store_def)

lemma report_status_wmsgs:
  "wmsgs (snd (dispatchSessionStatus (gateway_store u) (session_dispatcher cf) c c' i a h w)) = wmsgs w"
  "wmsgs (snd (report_status (gateway_store u) (session_dispatcher cf) E i a h w)) = wmsgs w"
proof -
  show *: "wmsgs (snd (dispatchSessionStatus (gateway_store u) (session_dispatcher cf) c c' i a h w)) = wmsgs w" for c c' w
    using session_publish_wmsgs [of cf] by (cases "session_dispatcher cf") (simp_all add: dispatchSessionStatus_def)
  show "wmsgs (snd (report_status (gateway_store u) (session_dispatcher cf) E i a h w)) = wmsgs w"
    by (simp add: report_status_def * session_writes_wmsgs)
qed

lemma receipt_step_progresses:
  assumes "distinct (map mr_id (wmsgs w))" "a \<in> {''delivered'', ''read''}"
  shows "progresses (wmsgs w) (wmsgs (snd (receipt_step (gateway_store u) c c' i x a t w)))"
  using update_progress [OF receipt_advancing [OF assms(2)], of "[]" "wmsgs w"] assms(1)
  by (auto simp: receipt_step_def gateway_store_def lift_store_def lift_write_def pg_UpdateMessageReceipt_def
      map_update_where receipt_row_def split: option.split sum.split)

lemma receipt_loop_progresses:
  assumes "distinct (map mr_id (wmsgs w))" "a \<in> {''delivered'', ''read''}"
  shows "progresses (wmsgs w) (wmsgs (snd (receipt_loop (gateway_store u) (session_dispatcher cf) fmt E k i a t ids w)))"
  using assms(1)
proof (induction ids arbitrary: k w)
  case (Cons x ids)
  obtain msg w1 where w1: "receipt_step (gateway_store u) (E (3 * k)) (E (3 * k + 1)) i x a t w = (msg, w1)" by force
  have p1: "progresses (wmsgs w) (wmsgs w1)"
    using receipt_step_progresses [OF Cons.prems assms(2), of u "E (3 * k)" "E (3 * k + 1)" i x t] w1 by simp
  have go: "progresses (wmsgs w) (wmsgs (snd (receipt_loop (gateway_store u) (session_dispatcher cf) fmt E (Suc k) i a t ids w2)))"
    if "wmsgs w2 = wmsgs w1" for w2
    using Cons.IH [of w2 "Suc k"] Cons.prems p1 that by (auto intro: rtranclp_trans)
  show ?case
  proof (cases msg)
    case None
    with w1 go [of w1] show ?thesis by simp
  next
    case (Some mm)
    obtain e w2 where w2: "opt_dispatch (session_dispatcher cf) (E (3 * k + 2)) (''message.'' @ a) (receipt_payload fmt i x t mm) w1 = (e, w2)"
      by force
    then have "wmsgs w2 = wmsgs w1"
      using session_publish_wmsgs [of cf "E (3 * k + 2)" "''message.'' @ a" "receipt_payload fmt i x t mm" w1] by simp
    with Some w1 w2 go [of w2] p1 show ?thesis by (simp split: option.split)
  qed
qed simp

lemma handle_event_progresses:
  assumes "distinct (map mr_id (wmsgs w))"
  shows "progresses (wmsgs w) (wmsgs (snd (handle_event (gateway_store u) (session_dispatcher cf) fmt E h ev w)))"
proof (cases "\<exists>t ids at. ev = Receipt t ids at")
  case True
  then obtain t ids at where ev: "ev = Receipt t ids at" by blast
  show ?thesis
  proof (cases "receipt_status t")
    case None
    then show ?thesis by (cases h) (simp_all add: ev handleReceipt_def)
  next
    case (Some a)
    then have "a \<in> {''delivered'', ''read''}" by (cases t) (auto simp: receipt_status_def)
    from receipt_loop_progresses [OF assms this] Some show ?thesis
      by (cases h) (simp_all add: ev handleReceipt_def)
  qed
next
  case False
  then have "wmsgs (snd (handle_event (gateway_store u) (session_dispatcher cf) fmt E h ev w)) = wmsgs w"
    by (cases h; cases ev) (simp_all add: Let_def report_status_wmsgs session_writes_wmsgs)
  then show ?thesis by simp
qed

lemma qr_step_wmsgs:
  "wmsgs (snd (snd (qr_step (gateway_store u) (session_dispatcher cf) png lower E c1 c2 i me h item w))) = wmsgs w"
  by (auto simp: qr_step_cases offer_code_def Let_def report_status_wmsgs session_writes_wmsgs split: sum.split)

lemma run_connect_wmsgs:
  "wmsgs (snd (snd (run_connect (gateway_store u) (session_dispatcher cf) E cur p i h (m, w)))) = wmsgs w"
  by (simp add: run_connect_def Let_def split_beta report_status_wmsgs)

section \<open>Steps of the gateway\<close>

text \<open>
  The parameters: \<open>files\<close> and \<open>chi\<close> of the router, \<open>png\<close> and \<open>fmt\<close> of the QR images and time stamps, \<open>known\<close> the acceptance
  of an identity by \<open>types.ParseJID\<close>.  The worker exists when the webhook dispatcher does; asynq runs a task it holds; it drops it when the handler returned nil
  and otherwise keeps it or, after the last retry, archives it.  A goroutine of a client asked \<open>isCurrentClient\<close>
  at earlier moments than it writes: \<open>cur1\<close>, \<open>cur2\<close> and \<open>cur\<close> are whatever it was told then, so a write that follows
  a logout in between is a step as well.  \<open>Removed\<close> is the deletion of a map entry by a \<open>Logout\<close> or \<open>Reconnect\<close> whose
  earlier statements ran before.
\<close>

inductive gw_step ::
  "srv_cfg \<Rightarrow> (string \<Rightarrow> string option) \<Rightarrow> chi \<Rightarrow> (string \<Rightarrow> err + string) \<Rightarrow> (time \<Rightarrow> string) \<Rightarrow> (string \<Rightarrow> bool) \<Rightarrow> srv \<Rightarrow> srv \<Rightarrow> bool"
  for cf files chi png fmt known where
  Request: "gw_step cf files chi png fmt known s (snd (serve cf files chi c E q s))"
| Task: "cf_dispatcher cf \<Longrightarrow> t \<in> set (sv_tasks s) \<Longrightarrow>
    handle_task (gateway_worker (cf_uuid cf) (cf_hooks cf) obs (sv_mgr s)) E (tk_payload t) (sv_world s) = (r, w) \<Longrightarrow>
    ts = remove1 t (sv_tasks s) \<or> r \<noteq> None \<and> ts = sv_tasks s \<Longrightarrow>
    gw_step cf files chi png fmt known s (s\<lparr>sv_world := w, sv_tasks := ts\<rparr>)"
| Event: "sm_handler (sv_mgr s) p = Some h \<Longrightarrow> (\<And>k. fair_order (E k)) \<Longrightarrow>
    gw_step cf files chi png fmt known s
      (s\<lparr>sv_world := snd (handle_event (gateway_store (cf_uuid cf)) (session_dispatcher cf) fmt E h ev (sv_world s))\<rparr>)"
| QR: "QRLoop p i me phone \<in> set (sm_go (sv_mgr s)) \<Longrightarrow>
    qr_step (gateway_store (cf_uuid cf)) (session_dispatcher cf) png (cf_lower cf) E
      cur1 cur2 i me phone item (sv_world s) = (go, r, w) \<Longrightarrow>
    gw_step cf files chi png fmt known s (s\<lparr>sv_world := w\<rparr>)"
| Connect: "ConnectTask p i phone \<in> set (sm_go (sv_mgr s)) \<Longrightarrow>
    run_connect (gateway_store (cf_uuid cf)) (session_dispatcher cf) E
      cur p i phone (sv_mgr s, sv_world s) = (r, m, w) \<Longrightarrow>
    gw_step cf files chi png fmt known s (s\<lparr>sv_world := w, sv_mgr := m\<rparr>)"
| Finished: "gw_step cf files chi png fmt known s (s\<lparr>sv_mgr := (sv_mgr s)\<lparr>sm_go := remove1 g (sm_go (sv_mgr s))\<rparr>\<rparr>)"
| Removed: "gw_step cf files chi png fmt known s (s\<lparr>sv_mgr := drop_client i (sv_mgr s)\<rparr>)"
| Load: "gw_step cf files chi png fmt known s
    (s\<lparr>sv_mgr := snd (sm_Load (gateway_store (cf_uuid cf)) known c (sv_world s) (sv_mgr s))\<rparr>)"
| Close: "gw_step cf files chi png fmt known s (s\<lparr>sv_mgr := sm_Close (sv_mgr s)\<rparr>)"
| Recovery: "ListPendingQueueJobs (gateway_store (cf_uuid cf)) c (sv_world s) = Inr ps \<Longrightarrow>
    gw_step cf files chi png fmt known s (s\<lparr>sv_tasks := snd (Recover E 0 ps (sv_tasks s))\<rparr>)"
| Stream: "gw_step cf files chi png fmt known s (snd (sse_step cf ch s))"
| Leave: "sse_close ch s = Some s' \<Longrightarrow> gw_step cf files chi png fmt known s s'"

inductive_cases gw_stepE: "gw_step cf files chi png fmt known s s'"

lemma srv_ok_world: "srv_ok cf s \<Longrightarrow> world_ok (cf_uuid cf) w \<Longrightarrow> srv_ok cf (s\<lparr>sv_world := w\<rparr>)"
  by (simp add: srv_ok_def)

lemma srv_ok_worldD: "srv_ok cf s \<Longrightarrow> world_ok (cf_uuid cf) (sv_world s)"
  by (simp add: srv_ok_def)

lemma handle_task_ok:
  "world_ok u w \<Longrightarrow> world_ok u (snd (handle_task (gateway_worker u P obs m) E payload w))"
  by (simp add: handle_task_def gw.process_job_ok split: sum.split)

lemma mgr_simple_steps:
  assumes "mgr_ok m"
  shows "mgr_ok (m\<lparr>sm_go := g\<rparr>)" "mgr_ok (snd (sm_Load S known c st m))" "mgr_ok (sm_Close m)" "mgr_ok (set_client_status p a m)"
  using assms load_loop_ok [OF assms] by (simp_all add: sm_Load_def sm_Close_def mgr_ok_def set_client_status_def split: sum.split)

lemma gw_step_ok:
  assumes "gw_step cf files chi png fmt known s s'" "chi_lawful chi" "uuid_canonical (cf_uuid cf)" "srv_ok cf s"
  shows "srv_ok cf s'"
  using assms(1)
proof cases
  case (Request c E q)
  then show ?thesis using serve_keeps_ok [OF assms(2-4)] by simp
next
  case (Task t obs E r w ts)
  then have "world_ok (cf_uuid cf) w"
    using handle_task_ok [OF srv_ok_worldD [OF assms(4)], of "cf_hooks cf" obs "sv_mgr s" E "tk_payload t"] by simp
  with Task assms(4) show ?thesis by (simp add: srv_ok_def)
next
  case (Event p h E ev)
  then show ?thesis
    using assms(4) by (simp add: srv_ok_world sys_events.handle_event_ok srv_ok_worldD)
next
  case (QR p i me phone E cur1 cur2 item go r w)
  then have "world_ok (cf_uuid cf) w"
    using sys_events.qr_step_frame [OF srv_ok_worldD [OF assms(4)]] by (metis snd_conv)
  with QR assms(4) show ?thesis by (simp add: srv_ok_world)
next
  case (Connect p i phone E cur r m w)
  then have "world_ok (cf_uuid cf) w" "mgr_ok m"
    using sys_events.report_ok [OF srv_ok_worldD [OF assms(4)]] srv_ok_worldD [OF assms(4)] mgr_simple_steps(4) [OF srv_ok_mgrD [OF assms(4)]]
    by (auto simp: run_connect_def Let_def split: prod.splits if_splits) (metis snd_conv)
  with Connect assms(4) show ?thesis by (simp add: srv_ok_def)
next
  case (Leave ch)
  then show ?thesis using sse_ok(3) [OF assms(4), of ch] by auto
qed (use assms(4) in \<open>simp_all add: srv_ok_mgr srv_ok_mgrD mgr_simple_steps sse_ok(2)\<close>)

lemma sse_msgs_frame: "msgs (snd (sse_step cf ch s)) = msgs s" "sse_close ch s = Some s' \<Longrightarrow> msgs s' = msgs s"
  by (auto simp: sse_step_def sse_close_def put_broker_def srv_db_def split: prod.splits received.splits)

lemma srv_ok_distinct: "srv_ok cf s \<Longrightarrow> distinct (map mr_id (wmsgs (sv_world s)))"
  using srv_ok_db by (fastforce simp: srv_db_def db_ok_defs)

lemma gw_step_outbox:
  assumes "gw_step cf files chi png fmt known s s'" "chi_lawful chi" "cf_db cf" "srv_ok cf s"
  shows "outbox_step (outbox_of (msgs s)) (outbox_of (msgs s'))"
  using assms(1)
proof cases
  case (Request c E q)
  then show ?thesis using serve_steps_outbox [OF assms(2-4)] by simp
next
  case (Task t obs E r w ts)
  then show ?thesis
    using handle_task_progresses [OF srv_ok_distinct [OF assms(4)], of "cf_uuid cf" "cf_hooks cf" obs "sv_mgr s" E "tk_payload t"]
    by (simp add: srv_db_def outbox_step.Progress)
next
  case (Event p h E ev)
  then show ?thesis
    using handle_event_progresses [OF srv_ok_distinct [OF assms(4)], of "cf_uuid cf" cf fmt E h ev]
    by (simp add: srv_db_def outbox_step.Progress)
next
  case (QR p i me phone E cur1 cur2 item go r w)
  then have "wmsgs w = wmsgs (sv_world s)" using qr_step_wmsgs by (metis snd_conv)
  with QR show ?thesis by (simp add: srv_db_def outbox_refl)
next
  case (Connect p i phone E cur r m w)
  then have "wmsgs w = wmsgs (sv_world s)" using run_connect_wmsgs by (metis snd_conv)
  with Connect show ?thesis by (simp add: srv_db_def outbox_refl)
qed (simp_all add: outbox_refl sse_msgs_frame)

lemma reachable_ok:
  assumes "(gw_step cf files chi png fmt known)\<^sup>*\<^sup>* s0 s" "chi_lawful chi" "uuid_canonical (cf_uuid cf)" "srv_ok cf s0"
  shows "srv_ok cf s"
  using assms(1) by (induction rule: rtranclp_induct) (auto intro: assms gw_step_ok)

text \<open>
  C6.  Whatever the gateway does from a sound state (an empty database, for example), in any order of requests, tasks,
  events, restarts and faults, its state stays sound.  In particular no two messages share an identifier or an
  idempotency key, every message belongs to an existing session, and every client of the session manager runs the
  handler of its own session.
\<close>

theorem gateway_reachable_sound:
  assumes "(gw_step cf files chi png fmt known)\<^sup>*\<^sup>* s0 s" "chi_lawful chi" "uuid_canonical (cf_uuid cf)" "srv_ok cf s0"
  shows "srv_ok cf s \<and> distinct (map mr_id (msgs s))
    \<and> (\<forall>m \<in> set (msgs s). mr_session_id m \<in> sr_session_id ` set (t_sessions (srv_db s)))
    \<and> (\<forall>m \<in> set (msgs s). \<forall>m' \<in> set (msgs s). idem_key m \<noteq> None \<longrightarrow> idem_key m = idem_key m' \<longrightarrow> m = m')
    \<and> (\<forall>i p. sm_clients (sv_mgr s) i = Some p \<longrightarrow> (\<exists>h. sm_handler (sv_mgr s) p = Some h \<and> handler_session h = i))"
proof -
  have ok: "srv_ok cf s" by (rule reachable_ok [OF assms])
  note db = srv_ok_db [OF ok]
  have "m = m'" if "m \<in> set (msgs s)" "m' \<in> set (msgs s)" "idem_key m \<noteq> None" "idem_key m = idem_key m'" for m m'
    using idem_keys_unique [of "msgs s"] db that by (auto simp: db_ok_def idem_ok_def)
  moreover have "distinct (map mr_id (msgs s))" "\<forall>m \<in> set (msgs s). mr_session_id m \<in> sr_session_id ` set (t_sessions (srv_db s))"
    using db by (auto simp: db_ok_defs)
  moreover have "\<exists>h. sm_handler (sv_mgr s) p = Some h \<and> handler_session h = i" if "sm_clients (sv_mgr s) i = Some p" for i p
    using srv_ok_mgrD [OF ok] that by (auto simp: mgr_ok_def)
  ultimately show ?thesis using ok by blast
qed

text \<open>
  C2.  Refinement.  Seen through its table of messages, the gateway is an outbox: each of its steps, a request, a task, an
  event of WhatsApp or a restart, is one step of the specification, so that a letter is posted once as queued, its
  content never changes, its status moves by attempts and receipts only, and it is removed only when it is not
  pending; and every run of the gateway is a run of the outbox.
\<close>

theorem gateway_refines_outbox:
  assumes "chi_lawful chi" "uuid_canonical (cf_uuid cf)" "cf_db cf" "srv_ok cf s0"
    and "(gw_step cf files chi png fmt known)\<^sup>*\<^sup>* s0 s"
  shows "outbox_step\<^sup>*\<^sup>* (outbox_of (msgs s0)) (outbox_of (msgs s))
    \<and> (\<forall>s'. gw_step cf files chi png fmt known s s' \<longrightarrow> outbox_step (outbox_of (msgs s)) (outbox_of (msgs s')))"
proof
  show "outbox_step\<^sup>*\<^sup>* (outbox_of (msgs s0)) (outbox_of (msgs s))"
    using assms(5)
  proof (induction rule: rtranclp_induct)
    case (step x y)
    have "srv_ok cf x" by (rule reachable_ok [OF step(1) assms(1,2,4)])
    with step gw_step_outbox [OF step(2) assms(1,3)] show ?case by (blast intro: rtranclp.rtrancl_into_rtrancl)
  qed simp
  show "\<forall>s'. gw_step cf files chi png fmt known s s' \<longrightarrow> outbox_step (outbox_of (msgs s)) (outbox_of (msgs s'))"
    using gw_step_outbox [OF _ assms(1,3)] reachable_ok [OF assms(5,1,2,4)] by blast
qed

text \<open>
  C7.  A message is never lost or rewritten.  In every reachable state, each step keeps every message with the content it
  was stored with; only one that is neither queued nor processing can disappear, and a message that appears is
  queued.
\<close>

theorem messages_kept:
  assumes "(gw_step cf files chi png fmt known)\<^sup>*\<^sup>* s0 s" "chi_lawful chi" "uuid_canonical (cf_uuid cf)" "cf_db cf" "srv_ok cf s0"
    and "gw_step cf files chi png fmt known s s'"
  shows "(\<forall>m \<in> set (msgs s). (\<exists>m' \<in> set (msgs s'). mr_id m' = mr_id m \<and> letter_of m' = letter_of m)
        \<or> mr_id m \<notin> mr_id ` set (msgs s') \<and> mr_status m \<notin> {''queued'', ''processing''})
    \<and> (\<forall>m' \<in> set (msgs s'). mr_id m' \<notin> mr_id ` set (msgs s) \<longrightarrow> mr_status m' = ''queued'')"
proof -
  have ok: "srv_ok cf s" by (rule reachable_ok [OF assms(1-3,5)])
  then have ok': "srv_ok cf s'" by (rule gw_step_ok [OF assms(6,2,3)])
  have step: "outbox_step (outbox_of (msgs s)) (outbox_of (msgs s'))" by (rule gw_step_outbox [OF assms(6,2,4) ok])
  have d: "distinct (map mr_id (msgs s))" "distinct (map mr_id (msgs s'))"
    using srv_ok_db [OF ok] srv_ok_db [OF ok'] by (simp_all add: db_ok_defs)
  show ?thesis
  proof (intro conjI ballI impI)
    fix m assume "m \<in> set (msgs s)"
    from outbox_step_letter [OF step outbox_Some [OF d(1) this]]
    show "(\<exists>m' \<in> set (msgs s'). mr_id m' = mr_id m \<and> letter_of m' = letter_of m)
        \<or> mr_id m \<notin> mr_id ` set (msgs s') \<and> mr_status m \<notin> {''queued'', ''processing''}"
      by (auto simp: outbox_None pending_def dest!: outbox_SomeD)
  next
    fix m' assume "m' \<in> set (msgs s')" "mr_id m' \<notin> mr_id ` set (msgs s)"
    with outbox_step_new [OF step _ outbox_Some [OF d(2)]] show "mr_status m' = ''queued''" by (simp add: outbox_None)
  qed
qed

section \<open>A run\<close>

text \<open>A caller without credentials tries to delete the queued message.\<close>

definition sample_refused :: srv where
  "sample_refused = snd (serve sample_cfg (\<lambda>_. None) sample_chi sample_ctx (\<lambda>_. sample_ctx)
     (sample_call ''DELETE'' ''/api/v1/messages/m1'' (sample_request [] [] [] [])) sample_sent)"

lemma sample_run: "gw_step sample_cfg (\<lambda>_. None) sample_chi (\<lambda>_. Inr []) (\<lambda>_. []) (\<lambda>_. True) sample_sent sample_refused"
  unfolding sample_refused_def by (rule gw_step.Request)

lemma sample_runs: "(gw_step sample_cfg (\<lambda>_. None) sample_chi (\<lambda>_. Inr []) (\<lambda>_. []) (\<lambda>_. True))\<^sup>*\<^sup>* sample_sent sample_refused"
  using sample_run by blast

lemma sample_canonical: "uuid_canonical (cf_uuid sample_cfg)"
  by (simp add: uuid_canonical_def)

theorem gateway_reachable_sound_witness: "distinct (map mr_id (msgs sample_refused))"
  using gateway_reachable_sound [OF sample_runs sample_chi_lawful sample_canonical sample_sent_ok] by blast

theorem gateway_refines_outbox_witness: "outbox_step\<^sup>*\<^sup>* (outbox_of (msgs sample_sent)) (outbox_of (msgs sample_refused))"
  using gateway_refines_outbox [OF sample_chi_lawful sample_canonical _ sample_sent_ok sample_runs] by simp

theorem messages_kept_witness:
  "\<exists>m' \<in> set (msgs sample_refused). mr_id m' = mr_id sample_keyed_row \<and> letter_of m' = letter_of sample_keyed_row"
proof -
  have "sample_keyed_row \<in> set (msgs sample_sent)" "mr_status sample_keyed_row = ''queued''"
    by (simp_all add: sample_sent_def sample_keyed_row_def message_row_of_def sample_message_def)
  then show ?thesis
    using messages_kept [OF rtranclp.rtrancl_refl sample_chi_lawful sample_canonical _ sample_sent_ok sample_run] by fastforce
qed

end
