(* ===== verification/Delivery_Liveness.thy ===== *)
theory Delivery_Liveness
  imports Gateway_System
begin

text \<open>
  Progress: a caller of the limiter is admitted once the pause, the interval and the minute have passed, and a message
  whose job is still waiting in the database, because the queue was down or lost it, is enqueued again by the
  recovery at the next start and sent by the worker.
\<close>

section \<open>The limiter lets callers through\<close>

text \<open>A moment by which nothing holds a message of the session back, whatever the jitter.\<close>

definition free_at :: "time \<Rightarrow> session_row \<Rightarrow> limiter \<Rightarrow> string \<Rightarrow> bool" where
  "free_at t r l s \<longleftrightarrow> (\<forall>u. sr_throttled_until r = Some u \<longrightarrow> u \<le> t)
     \<and> (\<forall>x. l_last l s = Some x \<longrightarrow> x + (sr_min_interval_ms r + max 0 (sr_jitter_ms r)) * millisecond \<le> t)
     \<and> (\<forall>x \<in> set (l_recent l s). x + minute \<le> t)"

lemma interval_wait_le:
  assumes "int4 (sr_min_interval_ms r)" "int4 (sr_jitter_ms r)" "0 \<le> wo_rand ob" "wo_rand ob \<le> max 0 (sr_jitter_ms r)"
  shows "interval_wait ob r \<le> (sr_min_interval_ms r + max 0 (sr_jitter_ms r)) * millisecond"
proof -
  have "int8 (sr_min_interval_ms r * millisecond)" "int8 (wo_rand ob * millisecond)"
    "int8 (sr_min_interval_ms r * millisecond + wo_rand ob * millisecond)"
    using assms by (auto simp: int4_def int8_def max_def split: if_splits)
  then show ?thesis using assms(3,4) by (auto simp: interval_wait_def wrap64_id max_def distrib_right split: if_splits)
qed

lemma free_iter:
  assumes "free_at t r l s" "t \<le> wo_now ob" "int4 (sr_min_interval_ms r)" "int4 (sr_jitter_ms r)"
    and "0 \<le> wo_rand ob" "wo_rand ob \<le> max 0 (sr_jitter_ms r)" "c_fault (wo_ctx ob) 0 = None"
    and "find (\<lambda>r. sr_session_id r = s) (t_sessions d) = Some r"
  shows "fst (wait_iter s ob d l) = Returned None"
proof -
  have "kept_of (wo_now ob - minute) (l_recent l s) = []"
    using assms(1,2) by (force simp: kept_of_filter free_at_def filter_empty_conv)
  moreover have "ready ob r (l_last l s)"
    using assms(1,2) interval_wait_le [OF assms(3-6)] by (force simp: ready_def free_at_def)
  ultimately have "wait_for ob r (l_last l s) (kept_of (wo_now ob - minute) (l_recent l s)) = 0"
    by (simp add: wait_for_zero at_cap_def)
  with assms(7,8) show ?thesis by (simp add: wait_iter_def Let_def)
qed

lemma free_later:
  assumes "free_at t r l s" "wait_iter s ob d l = (Again, l')"
  shows "free_at t r l' s"
  using assms wait_iter_rejects [OF assms(2)] by (auto simp: free_at_def kept_of_filter)

text \<open>
  C16.  \<open>Limiter.Wait\<close> does not starve.  A call that is not cancelled and whose queries succeed returns nil at the latest in
  the first iteration that starts at or after the end of the session's pause, the interval with its full jitter after the last
  admission, and a minute after the last remembered one, however often it looped before.
\<close>

theorem wait_admits:
  assumes "free_at t r l s" "int4 (sr_min_interval_ms r)" "int4 (sr_jitter_ms r)"
    and "\<And>ob d. (ob, d) \<in> set obs \<Longrightarrow> c_fault (wo_ctx ob) 0 = None \<and> wo_cancel ob = None
      \<and> 0 \<le> wo_rand ob \<and> wo_rand ob \<le> max 0 (sr_jitter_ms r) \<and> find (\<lambda>r. sr_session_id r = s) (t_sessions d) = Some r"
    and "\<exists>(ob, d) \<in> set obs. t \<le> wo_now ob"
  shows "fst (Wait s obs l) = Some None"
  using assms
proof (induction obs arbitrary: l)
  case (Cons x obs)
  obtain ob d where x: "x = (ob, d)" by (cases x)
  have ob: "c_fault (wo_ctx ob) 0 = None" "wo_cancel ob = None" "0 \<le> wo_rand ob" "wo_rand ob \<le> max 0 (sr_jitter_ms r)"
    "find (\<lambda>r. sr_session_id r = s) (t_sessions d) = Some r" using Cons.prems(4) [of ob d] x by simp_all
  obtain out l' where it: "wait_iter s ob d l = (out, l')" by force
  have "out = Returned None \<or> out = Again" using it ob(1,2,5) by (auto simp: wait_iter_def Let_def split: if_splits)
  then show ?case
  proof
    assume again: "out = Again"
    have "\<not> t \<le> wo_now ob" using free_iter [OF Cons.prems(1) _ Cons.prems(2,3) ob(3,4,1,5)] it again by auto
    with Cons.prems(5) x have "\<exists>(ob, d) \<in> set obs. t \<le> wo_now ob" by auto
    moreover have "free_at t r l' s" using free_later [OF Cons.prems(1)] it again by simp
    ultimately have "fst (Wait s obs l') = Some None" using Cons.prems(2-4) by (intro Cons.IH) auto
    with x it again show ?thesis by simp
  qed (use x it in simp)
qed simp

theorem wait_admits_witness:
  "fst (Wait ''main'' [(\<lparr>wo_ctx = sample_ctx, wo_rand = 0, wo_until1 = 0, wo_until2 = 0, wo_cancel = None\<rparr>, sample_db)] New_limiter)
    = Some None"
  by (rule wait_admits [of 0 sample_session_row])
    (simp_all add: free_at_def New_limiter_def sample_session_row_def sample_db_def int4_def)

section \<open>Recovery\<close>

definition waiting_job :: "queue_job_row \<Rightarrow> bool" where
  "waiting_job x \<longleftrightarrow> qj_status x \<in> {''waiting'', ''retrying''}"

lemma filter_zip_all: "(\<And>k. P k) \<Longrightarrow> map fst (filter (\<lambda>(p, k). P k) (zip ps [n..<n + length ps])) = ps"
  by (simp add: filter_True split_beta)

lemma recover_enqueues:
  assumes "\<And>p. p \<in> set ps \<Longrightarrow> recovery_task p \<noteq> None" "\<And>k. no_fault (E k)"
  shows "Recover E 0 ps q = (None, q @ map (the \<circ> recovery_task) ps)"
  using Recover_total [OF assms(1), of ps E 0 q] filter_zip_all [of "\<lambda>k. c_fault (E k) 0 = None" ps 0] assms(2) by auto

lemma pending_jobs:
  assumes "no_fault c" "length (filter waiting_job (t_queue_jobs d)) \<le> 1000"
  shows "pg_ListPendingQueueJobs c d = Inr (map (\<lambda>r. \<lparr>pj_JobID = qj_job_id r, pj_Data = qj_data r\<rparr>)
    (sort_key qj_created_at (filter waiting_job (t_queue_jobs d))))"
proof -
  have "filter (\<lambda>r. qj_status r \<in> {''waiting'', ''retrying''}) (t_queue_jobs d) = filter waiting_job (t_queue_jobs d)"
    by (simp add: waiting_job_def [abs_def])
  with assms show ?thesis by (simp add: pg_ListPendingQueueJobs_def)
qed

lemma int_field_int8: "int_field k kvs = Inr i \<Longrightarrow> int8 i"
  by (auto simp: int_field_def int8_def split: option.splits json.splits if_splits)

lemma decode_job_int8: "decode_job v = Inr job \<Longrightarrow> int8 (j_Priority job) \<and> int8 (j_Delay job)"
  by (auto simp: decode_job_def decode_fields_def dest!: int_field_int8 split: json.splits sum.splits)

lemma send_text_sent:
  assumes "j_Type job = ''text''" "digits (j_To job) \<noteq> []" "c_wa c 0 = Inr wa"
  shows "send_job (queue_sender v) c job w = (Inr wa, w\<lparr>w_sent := w_sent w @ [\<lparr>og_user = digits (j_To job), og_message = Conversation (j_Content job)\<rparr>]\<rparr>)"
  using assms by (simp add: send_job_def queue_sender_def wa_SendText_def)

text \<open>A task whose message WhatsApp takes records it as sent, whatever then happens to the bookkeeping and the webhooks.\<close>

lemma task_sends:
  assumes "world_ok u w" "m \<in> set (wmsgs w)" "u (j_MessageID job) = Some (mr_id m)"
    and "j_Type job = ''text''" "digits (j_To job) \<noteq> []" "sm_clients g (j_SessionID job) \<noteq> None"
    and "fst (limiter_Wait obs (E 0) (j_SessionID job) w) = None" "c_wa (E 1) 0 = Inr wa" "c_fault (E 3) 0 = None"
  shows "status_row (c_now (E 3)) ''sent'' wa [] m \<in> set (wmsgs (snd (process_job (gateway_worker u P obs g) E job w)))"
proof -
  obtain w1 where w1: "limiter_Wait obs (E 0) (j_SessionID job) w = (None, w1)" using assms(7) by (metis prod.collapse)
  then have m1: "wmsgs w1 = wmsgs w" using worker_parts_wmsgs(1) [of obs "E 0" "j_SessionID job" w] by simp
  obtain w2 where w2: "send_job (queue_sender (hp_url_valid P)) (E 1) job w1 = (Inr wa, w2)" "wmsgs w2 = wmsgs w1"
    using send_text_sent [OF assms(4,5,8)] by simp
  obtain w3 where w3: "UpdateMessageStatus (gateway_store u) (E 3) (j_MessageID job) ''sent'' wa [] w2 = (None, w3)"
    "wmsgs w3 = update_where (\<lambda>r. mr_id r = mr_id m) (status_row (c_now (E 3)) ''sent'' wa []) (wmsgs w2)"
    using assms(3,9) by (simp add: gateway_store_def lift_store_def lift_write_def pg_UpdateMessageStatus_def)
  have look: "wk_lookup (gateway_worker u P obs g) (j_SessionID job) w1 = Some (queue_sender (hp_url_valid P))"
    using assms(6) by (auto simp: gateway_worker_def)
  have "wmsgs (snd (process_job (gateway_worker u P obs g) E job w)) = wmsgs w3"
    using w1 w2(1) w3(1) look by (simp add: process_job_def Let_def publish_wmsgs worker_parts_wmsgs)
  then show ?thesis using assms(2) m1 w2(2) w3(2) by (auto simp: set_update_where)
qed

text \<open>
  Deleting a message does not take back its task: the worker reads the task, not the row, and sends the text although the
  message is gone.
\<close>

lemma task_sends_text:
  assumes "j_Type job = ''text''" "digits (j_To job) \<noteq> []" "sm_clients g (j_SessionID job) \<noteq> None"
    and "fst (limiter_Wait obs (E 0) (j_SessionID job) w) = None" "c_wa (E 1) 0 = Inr wa"
  shows "w_sent (snd (process_job (gateway_worker u P obs g) E job w))
    = w_sent w @ [\<lparr>og_user = digits (j_To job), og_message = Conversation (j_Content job)\<rparr>]"
proof -
  obtain w1 where w1: "limiter_Wait obs (E 0) (j_SessionID job) w = (None, w1)" using assms(4) by (metis prod.collapse)
  then have "w_sent w1 = w_sent w" using limiter_Wait_sent [of obs "E 0" "j_SessionID job" w] by simp
  moreover have look: "wk_lookup (gateway_worker u P obs g) (j_SessionID job) w1 = Some (queue_sender (hp_url_valid P))"
    using assms(3) by (auto simp: gateway_worker_def)
  moreover obtain r w3 where w3: "UpdateMessageStatus (gateway_store u) (E 3) (j_MessageID job) ''sent'' wa []
      (w1\<lparr>w_sent := w_sent w1 @ [\<lparr>og_user = digits (j_To job), og_message = Conversation (j_Content job)\<rparr>]\<rparr>) = (r, w3)" by force
  moreover have "w_sent w3 = w_sent w1 @ [\<lparr>og_user = digits (j_To job), og_message = Conversation (j_Content job)\<rparr>]"
    using store_sent(1) [of u "E 3" "j_MessageID job" "''sent''" wa "[]"
      "w1\<lparr>w_sent := w_sent w1 @ [\<lparr>og_user = digits (j_To job), og_message = Conversation (j_Content job)\<rparr>]\<rparr>"] w3 by simp
  ultimately show ?thesis
    using w1 send_text_sent [OF assms(1,2,5), of "hp_url_valid P" w1]
    by (cases r) (simp_all add: process_job_def Let_def publish_sent store_sent recordSuccess_def lift_write_def split_beta)
qed

lemma deleted_message_still_sent:
  assumes "deleteMessage cf D r p s = (rep, s')" "t \<in> set (sv_tasks s)" "decode_job (tk_payload t) = Inr job"
    and "j_Type job = ''text''" "digits (j_To job) \<noteq> []" "sm_clients (sv_mgr s) (j_SessionID job) \<noteq> None"
    and "fst (limiter_Wait obs (E 0) (j_SessionID job) (sv_world s')) = None" "c_wa (E 1) 0 = Inr wa"
  shows "t \<in> set (sv_tasks s')"
    "w_sent (snd (handle_task (gateway_worker (cf_uuid cf) (cf_hooks cf) obs (sv_mgr s')) E (tk_payload t) (sv_world s')))
      = w_sent (sv_world s') @ [\<lparr>og_user = digits (j_To job), og_message = Conversation (j_Content job)\<rparr>]"
proof -
  have *: "sv_tasks s' = sv_tasks s" "sv_mgr s' = sv_mgr s"
    using assms(1) by (auto simp: deleteMessage_def db_query_def db_exec_def put_srv_db_def split: option.splits sum.splits if_splits prod.splits)
  then show "t \<in> set (sv_tasks s')" using assms(2) by simp
  show "w_sent (snd (handle_task (gateway_worker (cf_uuid cf) (cf_hooks cf) obs (sv_mgr s')) E (tk_payload t) (sv_world s')))
      = w_sent (sv_world s') @ [\<lparr>og_user = digits (j_To job), og_message = Conversation (j_Content job)\<rparr>]"
    using task_sends_text [OF assms(4,5) _ assms(7,8)] assms(3,6) * by (simp add: handle_task_def)
qed

text \<open>
  C9.  No accepted message stays behind.  When the database is reachable, its waiting jobs (at most the thousand that are
  read) are well formed and the queue takes them, the recovery at a start enqueues every one of them again, among them
  that of a message whose request was answered with 503 or whose task Redis lost.  Running the task of a text
  message whose session has a client sends it: once the limiter admits it, WhatsApp accepts it and the status is written,
  the message is \<open>sent\<close> under the identifier WhatsApp gave it, with its content as it was stored.
\<close>

theorem waiting_message_sent:
  assumes "srv_ok cf s" "cf_dispatcher cf" "no_fault c" "\<And>k. no_fault (E k)"
    and "\<And>x. x \<in> set (t_queue_jobs (srv_db s)) \<Longrightarrow> waiting_job x \<Longrightarrow> \<exists>jb. decode_job (qj_data x) = Inr jb"
    and "length (filter waiting_job (t_queue_jobs (srv_db s))) \<le> 1000"
    and "x \<in> set (t_queue_jobs (srv_db s))" "waiting_job x" "decode_job (qj_data x) = Inr job"
    and "m \<in> set (msgs s)" "cf_uuid cf (j_MessageID job) = Some (mr_id m)"
    and "j_Type job = ''text''" "digits (j_To job) \<noteq> []" "sm_clients (sv_mgr s) (j_SessionID job) \<noteq> None"
  shows "\<exists>ps s1. ListPendingQueueJobs (gateway_store (cf_uuid cf)) c (sv_world s) = Inr ps
    \<and> Recover E 0 ps (sv_tasks s) = (None, sv_tasks s1) \<and> (\<exists>ts. s1 = s\<lparr>sv_tasks := sv_tasks s @ ts\<rparr>
      \<and> length ts = length (filter waiting_job (t_queue_jobs (srv_db s))))
    \<and> gw_step cf files chi png fmt known s s1
    \<and> task_of job (qj_job_id x) \<in> set (sv_tasks s1)
    \<and> (\<forall>obs E' wa r w. handle_task (gateway_worker (cf_uuid cf) (cf_hooks cf) obs (sv_mgr s1)) E'
           (tk_payload (task_of job (qj_job_id x))) (sv_world s1) = (r, w) \<longrightarrow>
         fst (limiter_Wait obs (E' 0) (j_SessionID job) (sv_world s1)) = None \<longrightarrow>
         c_wa (E' 1) 0 = Inr wa \<longrightarrow> c_fault (E' 3) 0 = None \<longrightarrow>
         gw_step cf files chi png fmt known s1 (s1\<lparr>sv_world := w, sv_tasks := remove1 (task_of job (qj_job_id x)) (sv_tasks s1)\<rparr>)
         \<and> (\<exists>m' \<in> set (wmsgs w). mr_id m' = mr_id m \<and> letter_of m' = letter_of m
               \<and> mr_status m' = ''sent'' \<and> mr_wa_message_id m' = nullif wa))"
proof -
  let ?ps = "map (\<lambda>r. \<lparr>pj_JobID = qj_job_id r, pj_Data = qj_data r\<rparr>) (sort_key qj_created_at (filter waiting_job (t_queue_jobs (srv_db s))))"
  let ?t = "task_of job (qj_job_id x)"
  have ps: "ListPendingQueueJobs (gateway_store (cf_uuid cf)) c (sv_world s) = Inr ?ps"
    using pending_jobs [OF assms(3,6)] by (simp add: gateway_store_def lift_store_def srv_db_def)
  have "recovery_task p \<noteq> None" if "p \<in> set ?ps" for p
    using that assms(5) by (force simp: recovery_task_def split: sum.split)
  then have rec: "Recover E 0 ?ps (sv_tasks s) = (None, sv_tasks s @ map (the \<circ> recovery_task) ?ps)"
    using assms(4) by (intro recover_enqueues) auto
  define s1 where "s1 = s\<lparr>sv_tasks := sv_tasks s @ map (the \<circ> recovery_task) ?ps\<rparr>"
  have "gw_step cf files chi png fmt known s s1"
    using gw_step.Recovery [OF ps, of files chi png fmt known E] rec by (simp add: s1_def)
  moreover have "\<lparr>pj_JobID = qj_job_id x, pj_Data = qj_data x\<rparr> \<in> set ?ps" using assms(7,8) by simp
  then have t: "?t \<in> set (sv_tasks s1)"
    using assms(9) by (force simp: s1_def recovery_task_def image_iff)
  moreover have "gw_step cf files chi png fmt known s1 (s1\<lparr>sv_world := w, sv_tasks := remove1 ?t (sv_tasks s1)\<rparr>)
      \<and> (\<exists>m' \<in> set (wmsgs w). mr_id m' = mr_id m \<and> letter_of m' = letter_of m
          \<and> mr_status m' = ''sent'' \<and> mr_wa_message_id m' = nullif wa)"
    if run: "handle_task (gateway_worker (cf_uuid cf) (cf_hooks cf) obs (sv_mgr s1)) E' (tk_payload ?t) (sv_world s1) = (r, w)"
      and h: "fst (limiter_Wait obs (E' 0) (j_SessionID job) (sv_world s1)) = None" "c_wa (E' 1) 0 = Inr wa" "c_fault (E' 3) 0 = None"
    for obs E' wa r w
  proof
    show "gw_step cf files chi png fmt known s1 (s1\<lparr>sv_world := w, sv_tasks := remove1 ?t (sv_tasks s1)\<rparr>)"
      using gw_step.Task [OF assms(2) t run, of "remove1 ?t (sv_tasks s1)" files chi png fmt known] by blast
    have "decode_job (tk_payload ?t) = Inr job" using decode_job_int8 [OF assms(9)] by (simp add: task_of_def decode_encode_job)
    then have "w = snd (process_job (gateway_worker (cf_uuid cf) (cf_hooks cf) obs (sv_mgr s)) E' job (sv_world s))"
      using run by (simp add: handle_task_def s1_def)
    then have "status_row (c_now (E' 3)) ''sent'' wa [] m \<in> set (wmsgs w)"
      using task_sends [OF srv_ok_worldD [OF assms(1)], of m job "sv_mgr s" obs E' wa "cf_hooks cf"] assms h
      by (simp add: srv_db_def s1_def)
    then show "\<exists>m' \<in> set (wmsgs w). mr_id m' = mr_id m \<and> letter_of m' = letter_of m
          \<and> mr_status m' = ''sent'' \<and> mr_wa_message_id m' = nullif wa"
      by (rule rev_bexI) (simp add: status_row_def letter_of_def)
  qed
  ultimately show ?thesis using ps rec by (intro exI [of _ ?ps] exI [of _ s1]) (auto simp: s1_def)
qed

text \<open>A message whose request the queue refused, and a connected client.\<close>

definition sample_stuck :: srv where
  "sample_stuck = (put_srv_db (sample_db\<lparr>t_messages := [message_row_of ''m1'' None 0 sample_message],
     t_queue_jobs := [job_row_of ''g0'' 0 sample_message]\<rparr>) sample_srv)
     \<lparr>sv_mgr := new_client (LoadedHandler ''main'' []) NewSessionManager\<rparr>"

lemma sample_stuck_simps [simp]:
  "srv_db sample_stuck = sample_db\<lparr>t_messages := [message_row_of ''m1'' None 0 sample_message],
     t_queue_jobs := [job_row_of ''g0'' 0 sample_message]\<rparr>"
  "sv_tasks sample_stuck = []" "sv_mgr sample_stuck = new_client (LoadedHandler ''main'' []) NewSessionManager"
  by (simp_all add: sample_stuck_def)

lemma sample_stuck_ok: "srv_ok sample_cfg sample_stuck"
proof -
  have "mgr_ok (new_client (LoadedHandler ''main'' []) NewSessionManager)"
    by (rule new_client_ok [OF NewSessionManager_ok])
  then show ?thesis
    by (simp add: srv_ok_parts pg_ok_def db_ok_defs) (simp add: sample_stuck_def memory_ok_new NewBroker_ok
        message_row_of_def job_row_of_def idem_key_def sample_message_def zero_message_def nullif_def refs_def)
qed

lemma sample_job_decodes: "decode_job (qj_data (job_row_of ''g0'' 0 sample_message)) = Inr (job_of_message sample_message)"
proof -
  have "int8 (m_Priority sample_message)" "int8 (m_Delay sample_message)"
    by (simp_all add: sample_message_def zero_message_def int8_def)
  then show ?thesis by (simp add: job_row_of_def decode_job_data)
qed

theorem waiting_message_sent_witness:
  "\<exists>s1. gw_step sample_cfg (\<lambda>_. None) sample_chi (\<lambda>_. Inr []) (\<lambda>_. []) (\<lambda>_. True) sample_stuck s1
    \<and> task_of (job_of_message sample_message) (m_JobID sample_message) \<in> set (sv_tasks s1)"
proof -
  let ?x = "job_row_of ''g0'' 0 sample_message" and ?m = "message_row_of ''m1'' None 0 sample_message"
  have x: "?x \<in> set (t_queue_jobs (srv_db sample_stuck))" "waiting_job ?x" by (simp_all add: waiting_job_def job_row_of_def)
  have n: "length (filter waiting_job (t_queue_jobs (srv_db sample_stuck))) \<le> 1000" by simp
  have m: "?m \<in> set (msgs sample_stuck)" "cf_uuid sample_cfg (j_MessageID (job_of_message sample_message)) = Some (mr_id ?m)"
    "j_Type (job_of_message sample_message) = ''text''" "sm_clients (sv_mgr sample_stuck) (j_SessionID (job_of_message sample_message)) \<noteq> None"
    by (simp_all add: job_of_message_def sample_message_def zero_message_def message_row_of_def new_client_def)
  have d: "digits (j_To (job_of_message sample_message)) \<noteq> []"
    by (simp add: job_of_message_def sample_message_def zero_message_def digits_def)
  have "\<exists>jb. decode_job (qj_data y) = Inr jb" if "y \<in> set (t_queue_jobs (srv_db sample_stuck))" for y
    using that sample_job_decodes by simp
  from waiting_message_sent [OF sample_stuck_ok _ sample_ctx_ok(1) sample_ctx_ok(1) this n x sample_job_decodes m(1,2,3) d m(4),
      of "\<lambda>_. None" sample_chi "\<lambda>_. Inr []" "\<lambda>_. []" "\<lambda>_. True"]
  show ?thesis by (auto simp: job_row_of_def sample_cfg_simps(5))
qed

end
