(* ===== verification/Migrate_Model.thy ===== *)
theory Migrate_Model
  imports Gateway_Prelude "HOL-Library.List_Lexorder" "HOL-Library.Char_ord"
begin

text \<open>
  \<open>internal/database/postgres.go\<close>: \<open>Open\<close> and \<open>Migrate\<close>.  What a migration script does is a parameter \<open>run\<close> on the
  rest of the database \<open>'d\<close>; the state proper is the table \<open>schema_migrations\<close>.  Scripts are applied in the order of
  their names, each in one transaction with the row that records it, so that a run that stops anywhere can be taken up
  again: the lemmas compare \<open>Migrate\<close> with the plain application of the scripts that are missing.
\<close>

section \<open>Open\<close>

text \<open>The connection, or the error of \<open>sql.Open\<close> (request 0) or of the ping (request 1), after which it is closed.\<close>

definition Open :: "ctx \<Rightarrow> err option" where
  "Open c = (case c_fault c 0 of Some e \<Rightarrow> Some e | None \<Rightarrow> c_fault c 1)"

section \<open>Migrate\<close>

text \<open>\<open>mg_versions\<close> is \<open>None\<close> while the table does not exist.\<close>

record 'd migrated =
  mg_versions :: "string list option"
  mg_data :: 'd

record dir_entry =
  de_name :: string
  de_is_dir :: bool

definition applied_versions :: "'d migrated \<Rightarrow> string list" where
  "applied_versions s = (case mg_versions s of None \<Rightarrow> [] | Some vs \<Rightarrow> vs)"

definition sql_files :: "dir_entry list \<Rightarrow> string list" where
  "sql_files entries = sort (map de_name (filter (\<lambda>e. \<not> de_is_dir e \<and> has_suffix (de_name e) ''.sql'') entries))"

definition create_table :: "'d migrated \<Rightarrow> 'd migrated" where
  "create_table s = s\<lparr>mg_versions := Some (applied_versions s)\<rparr>"

definition record_version :: "string \<Rightarrow> 'd \<Rightarrow> 'd migrated \<Rightarrow> 'd migrated" where
  "record_version name d s = \<lparr>mg_versions = Some (applied_versions s @ [name]), mg_data = d\<rparr>"

text \<open>
  The loop.  For the file with the environment \<open>E k\<close>, request 0 is the look-up, 1 begins the transaction, 2 and 3 are the
  script and the insert, 4 commits; \<open>read\<close> is \<open>os.ReadFile\<close>.  The changes of a transaction count only once it is
  committed.
\<close>

fun migrate_loop ::
  "(string \<Rightarrow> 'd \<Rightarrow> err + 'd) \<Rightarrow> (string \<Rightarrow> err + string) \<Rightarrow> (nat \<Rightarrow> ctx) \<Rightarrow> nat \<Rightarrow> string list \<Rightarrow> 'd migrated \<Rightarrow> err option \<times> 'd migrated" where
  "migrate_loop run read E k [] s = (None, s)"
| "migrate_loop run read E k (name # files) s =
     (case c_fault (E k) 0 of Some e \<Rightarrow> (Some e, s)
      | None \<Rightarrow>
         if name \<in> set (applied_versions s) then migrate_loop run read E (Suc k) files s
         else
     (case read name of Inl e \<Rightarrow> (Some e, s)
      | Inr content \<Rightarrow>
     (case c_fault (E k) 1 of Some e \<Rightarrow> (Some e, s)
      | None \<Rightarrow>
     (case (case c_fault (E k) 2 of Some e \<Rightarrow> Inl e | None \<Rightarrow> run content (mg_data s)) of
        Inl e \<Rightarrow> (Some (Errorf (''migration '' @ name @ '': '' @ err_text e) (Some e)), s)
      | Inr d \<Rightarrow>
     (case c_fault (E k) 3 of Some e \<Rightarrow> (Some e, s)
      | None \<Rightarrow>
     (case c_fault (E k) 4 of Some e \<Rightarrow> (Some e, s)
      | None \<Rightarrow> migrate_loop run read E (Suc k) files (record_version name d s)))))))"

text \<open>Environment 0 is that of \<open>os.ReadDir\<close> (request 0) and \<open>CREATE TABLE IF NOT EXISTS\<close> (request 1).\<close>

definition Migrate ::
  "(string \<Rightarrow> 'd \<Rightarrow> err + 'd) \<Rightarrow> (string \<Rightarrow> err + string) \<Rightarrow> dir_entry list \<Rightarrow> (nat \<Rightarrow> ctx) \<Rightarrow> 'd migrated \<Rightarrow> err option \<times> 'd migrated" where
  "Migrate run read entries E s =
     (case c_fault (E 0) 0 of Some e \<Rightarrow> (Some e, s)
      | None \<Rightarrow>
     (case c_fault (E 0) 1 of Some e \<Rightarrow> (Some e, s)
      | None \<Rightarrow> migrate_loop run read E 1 (sql_files entries) (create_table s)))"

section \<open>The reference: the missing scripts, one after the other\<close>

fun apply_scripts :: "(string \<Rightarrow> 'd \<Rightarrow> err + 'd) \<Rightarrow> (string \<Rightarrow> err + string) \<Rightarrow> string list \<Rightarrow> 'd \<Rightarrow> 'd option" where
  "apply_scripts run read [] d = Some d"
| "apply_scripts run read (name # names) d =
     (case read name of Inl e \<Rightarrow> None | Inr content \<Rightarrow>
       (case run content d of Inl e \<Rightarrow> None | Inr d' \<Rightarrow> apply_scripts run read names d'))"

definition missing :: "string list \<Rightarrow> 'd migrated \<Rightarrow> string list" where
  "missing names s = filter (\<lambda>n. n \<notin> set (applied_versions s)) names"

text \<open>The state in which the first of the missing scripts have been applied and recorded.\<close>

definition applied_to :: "(string \<Rightarrow> 'd \<Rightarrow> err + 'd) \<Rightarrow> (string \<Rightarrow> err + string) \<Rightarrow> string list \<Rightarrow> 'd migrated \<Rightarrow> 'd migrated \<Rightarrow> bool" where
  "applied_to run read names s s' \<longleftrightarrow> apply_scripts run read names (mg_data s) = Some (mg_data s')
     \<and> applied_versions s' = applied_versions s @ names"

lemma apply_scripts_append:
  "apply_scripts run read (xs @ ys) d = Option.bind (apply_scripts run read xs d) (apply_scripts run read ys)"
  by (induction xs arbitrary: d) (auto split: sum.split)

lemma versions_simps [simp]:
  "applied_versions (create_table s) = applied_versions s" "mg_data (create_table s) = mg_data s"
  "applied_versions (record_version n d s) = applied_versions s @ [n]" "mg_data (record_version n d s) = d"
  by (simp_all add: create_table_def record_version_def applied_versions_def)

lemma missing_record:
  assumes "n \<notin> set names"
  shows "missing names (record_version n d s) = missing names s"
  using assms by (auto simp: missing_def intro!: filter_cong)

lemma migrate_loop_prefix:
  assumes "migrate_loop run read E k names s = (r, s')" "distinct names"
  shows "\<exists>j. applied_to run read (take j (missing names s)) s s' \<and> (r = None \<longrightarrow> j = length (missing names s))"
  using assms
proof (induction names arbitrary: k s)
  case Nil
  then show ?case by (simp add: applied_to_def missing_def)
next
  case (Cons name names)
  have stop: ?case if "s' = s" "r \<noteq> None" using that by (intro exI [of _ 0]) (auto simp: applied_to_def)
  show ?case
  proof (cases "c_fault (E k) 0 = None \<and> name \<notin> set (applied_versions s)")
    case False
    show ?thesis
    proof (cases "c_fault (E k) 0")
      case None
      with False have name: "name \<in> set (applied_versions s)" by simp
      with None Cons.prems have "migrate_loop run read E (Suc k) names s = (r, s')" by simp
      from Cons.IH [OF this] Cons.prems(2) name show ?thesis by (simp add: missing_def)
    next
      case (Some e)
      with Cons.prems(1) have "r = Some e" "s' = s" by simp_all
      then have "s' = s" "r \<noteq> None" by simp_all
      then show ?thesis by (rule stop)
    qed
  next
    case True
    show ?thesis
    proof (cases "\<exists>content d. read name = Inr content \<and> run content (mg_data s) = Inr d
        \<and> c_fault (E k) 1 = None \<and> c_fault (E k) 2 = None \<and> c_fault (E k) 3 = None \<and> c_fault (E k) 4 = None")
      case False
      with Cons.prems True have "s' = s" "r \<noteq> None" by (auto split: sum.splits option.splits) metis+
      then show ?thesis by (rule stop)
    next
      case ok: True
      then obtain content d where c: "read name = Inr content" "run content (mg_data s) = Inr d" by blast
      with ok True Cons.prems have "migrate_loop run read E (Suc k) names (record_version name d s) = (r, s')" by auto
      from Cons.IH [OF this] Cons.prems(2) obtain j where
        j: "applied_to run read (take j (missing names s)) (record_version name d s) s'" "r = None \<longrightarrow> j = length (missing names s)"
        by (auto simp: missing_record)
      have m: "missing (name # names) s = name # missing names s" using True by (simp add: missing_def)
      from j c show ?thesis by (intro exI [of _ "Suc j"]) (simp add: m applied_to_def)
    qed
  qed
qed

lemma sql_files_distinct:
  assumes "distinct (map de_name entries)"
  shows "distinct (sql_files entries)"
  using assms by (simp add: sql_files_def distinct_map_filter)

text \<open>What a call of \<open>Migrate\<close> leaves behind: the first of the missing scripts, all of them when it returns nil.\<close>

lemma Migrate_prefix:
  assumes "Migrate run read entries E s = (r, s')" "distinct (map de_name entries)"
  shows "\<exists>j. applied_to run read (take j (missing (sql_files entries) s)) s s'
    \<and> (r = None \<longrightarrow> j = length (missing (sql_files entries) s))"
proof (cases "c_fault (E 0) 0 = None \<and> c_fault (E 0) 1 = None")
  case True
  with assms have "migrate_loop run read E 1 (sql_files entries) (create_table s) = (r, s')" by (simp add: Migrate_def)
  from migrate_loop_prefix [OF this sql_files_distinct [OF assms(2)]] show ?thesis
    by (simp add: missing_def applied_to_def)
next
  case False
  with assms(1) have "s' = s" "r \<noteq> None"
    by (cases "c_fault (E 0) 0"; cases "c_fault (E 0) 1"; auto simp: Migrate_def)+
  then show ?thesis by (intro exI [of _ 0]) (auto simp: applied_to_def)
qed

lemma applied_missing:
  assumes "applied_to run read (take j (missing names s)) s s'" "distinct names"
  shows "missing names s' = drop j (missing names s)"
proof -
  have "distinct (missing names s)" using assms(2) by (simp add: missing_def)
  then have d: "set (take j (missing names s)) \<inter> set (drop j (missing names s)) = {}"
    by (metis append_take_drop_id distinct_append)
  have "missing names s' = filter (\<lambda>n. n \<notin> set (take j (missing names s))) (missing names s)"
    using assms(1) by (auto simp: applied_to_def missing_def intro!: filter_cong)
  also have "\<dots> = filter (\<lambda>n. n \<notin> set (take j (missing names s))) (take j (missing names s) @ drop j (missing names s))"
    by simp
  also have "\<dots> = drop j (missing names s)"
    using d by (subst filter_append) (auto simp: filter_empty_conv intro!: filter_True)
  finally show ?thesis .
qed

lemma applied_trans:
  "applied_to run read xs s s' \<Longrightarrow> applied_to run read ys s' s'' \<Longrightarrow> applied_to run read (xs @ ys) s s''"
  by (simp add: applied_to_def apply_scripts_append)

text \<open>A sequence of calls that may each stop anywhere, as restarts of the program make them.\<close>

definition migrate_call :: "(string \<Rightarrow> 'd \<Rightarrow> err + 'd) \<Rightarrow> (string \<Rightarrow> err + string) \<Rightarrow> dir_entry list \<Rightarrow> 'd migrated \<Rightarrow> 'd migrated \<Rightarrow> bool" where
  "migrate_call run read entries s s' \<longleftrightarrow> (\<exists>E r. Migrate run read entries E s = (r, s'))"

lemma calls_prefix:
  assumes "(migrate_call run read entries)\<^sup>*\<^sup>* s s'" "distinct (map de_name entries)"
  shows "\<exists>j. applied_to run read (take j (missing (sql_files entries) s)) s s'"
  using assms(1)
proof (induction rule: rtranclp_induct)
  case base
  show ?case by (intro exI [of _ 0]) (simp add: applied_to_def)
next
  case (step y z)
  let ?m = "missing (sql_files entries)"
  from step.IH obtain j where j: "applied_to run read (take j (?m s)) s y" ..
  from step(2) obtain E r where "Migrate run read entries E y = (r, z)" by (auto simp: migrate_call_def)
  from Migrate_prefix [OF this assms(2)] obtain k where k: "applied_to run read (take k (?m y)) y z" by blast
  have "?m y = drop j (?m s)" by (rule applied_missing [OF j sql_files_distinct [OF assms(2)]])
  with applied_trans [OF j k] have "applied_to run read (take (j + k) (?m s)) s z" by (simp add: take_add)
  then show ?case ..
qed

text \<open>
  C29.  Migrations resume where they stopped.  However often \<open>Migrate\<close> was interrupted, by a fault in any of its
  statements, and started again, what it leaves is what running the missing scripts in the order of their
  names leaves, up to some script, and \<open>schema_migrations\<close> lists exactly those; when a call at last returns nil, the database is
  the one a single undisturbed run gives, and a further call runs no script.
\<close>

theorem migrate_resumes:
  assumes "distinct (map de_name entries)" "(migrate_call run read entries)\<^sup>*\<^sup>* s s1"
  shows "sorted (missing (sql_files entries) s) \<and> (\<exists>j. applied_to run read (take j (missing (sql_files entries) s)) s s1)
    \<and> (\<forall>E s2. Migrate run read entries E s1 = (None, s2) \<longrightarrow>
        applied_to run read (missing (sql_files entries) s) s s2
        \<and> (\<forall>E' r s3. Migrate run read entries E' s2 = (r, s3) \<longrightarrow>
            mg_data s3 = mg_data s2 \<and> applied_versions s3 = applied_versions s2))"
proof (intro conjI allI impI)
  let ?m = "missing (sql_files entries)"
  note d = sql_files_distinct [OF assms(1)]
  show "sorted (?m s)" by (simp add: missing_def sql_files_def sorted_wrt_filter)
  from calls_prefix [OF assms(2,1)] obtain j where j: "applied_to run read (take j (?m s)) s s1" ..
  then show "\<exists>j. applied_to run read (take j (?m s)) s s1" ..
  fix E s2
  assume "Migrate run read entries E s1 = (None, s2)"
  from Migrate_prefix [OF this assms(1)] have "applied_to run read (?m s1) s1 s2" by auto
  from applied_trans [OF j this] show all: "applied_to run read (?m s) s s2"
    by (simp add: applied_missing [OF j d])
  fix E' r s3
  assume "Migrate run read entries E' s2 = (r, s3)"
  from Migrate_prefix [OF this assms(1)] obtain k where k: "applied_to run read (take k (?m s2)) s2 s3" by blast
  have "?m s2 = []" using applied_missing [of run read "length (?m s)" "sql_files entries" s s2] all d by simp
  with k show "mg_data s3 = mg_data s2" "applied_versions s3 = applied_versions s2" by (simp_all add: applied_to_def)
qed

definition sample_entries :: "dir_entry list" where
  "sample_entries = [\<lparr>de_name = ''002.sql'', de_is_dir = False\<rparr>, \<lparr>de_name = ''001.sql'', de_is_dir = False\<rparr>,
     \<lparr>de_name = ''README'', de_is_dir = False\<rparr>]"

definition sample_migrated :: "string list migrated" where
  "sample_migrated = \<lparr>mg_versions = None, mg_data = []\<rparr>"

lemma sample_migrate:
  "Migrate (\<lambda>content d. Inr (d @ [content])) Inr sample_entries (\<lambda>_. sample_ctx) sample_migrated
     = (None, \<lparr>mg_versions = Some [''001.sql'', ''002.sql''], mg_data = [''001.sql'', ''002.sql'']\<rparr>)"
  by code_simp

theorem migrate_resumes_witness:
  "sorted (missing (sql_files sample_entries) sample_migrated)
    \<and> (\<exists>j. applied_to (\<lambda>content d. Inr (d @ [content])) Inr (take j (missing (sql_files sample_entries) sample_migrated)) sample_migrated
        (snd (Migrate (\<lambda>content d. Inr (d @ [content])) Inr sample_entries (\<lambda>_. sample_ctx) sample_migrated)))"
proof -
  have "distinct (map de_name sample_entries)" by (simp add: sample_entries_def)
  moreover have "(migrate_call (\<lambda>content d. Inr (d @ [content])) Inr sample_entries)\<^sup>*\<^sup>* sample_migrated
      (snd (Migrate (\<lambda>content d. Inr (d @ [content])) Inr sample_entries (\<lambda>_. sample_ctx) sample_migrated))"
    by (rule rtranclp.rtrancl_into_rtrancl [OF rtranclp.rtrancl_refl])
      (unfold migrate_call_def, rule exI, rule exI, rule surjective_pairing)
  ultimately show ?thesis using migrate_resumes by blast
qed

end
