(* ===== verification/Main_Setup.thy ===== *)
theory Main_Setup
  imports Delivery_Liveness Migrate_Model
begin

text \<open>
  \<open>cmd/gateway/main.go\<close>: how the program reads its environment, prepares the database, wires its parts, and in which order it
  lets them go at the end.  \<open>None\<close> stands for \<open>os.Exit(1)\<close>.  The lemmas show that a start establishes what the theorems about
  the running gateway assume.
\<close>

section \<open>Constructors of the server\<close>

text \<open>
  \<open>New\<close> to \<open>NewWithAll\<close> of \<open>internal/httpapi/server.go\<close>; a field that is not named is nil.  The first four are given the in-memory
  store, \<open>NewWithAll\<close> the PostgreSQL store together with its connection.
\<close>

definition New_server :: "srv_cfg \<Rightarrow> srv_cfg" where
  "New_server P = P\<lparr>cf_db := False, cf_queue := NoQueue, cf_auth := False, cf_whatsapp := False, cf_dispatcher := False, cf_events := False\<rparr>"

definition NewWithQueue :: "srv_cfg \<Rightarrow> queue_kind \<Rightarrow> srv_cfg" where
  "NewWithQueue P q = (New_server P)\<lparr>cf_queue := q\<rparr>"

definition NewWithDependencies :: "srv_cfg \<Rightarrow> queue_kind \<Rightarrow> bool \<Rightarrow> srv_cfg" where
  "NewWithDependencies P q a = (New_server P)\<lparr>cf_queue := q, cf_auth := a\<rparr>"

definition NewWithSession :: "srv_cfg \<Rightarrow> queue_kind \<Rightarrow> bool \<Rightarrow> bool \<Rightarrow> srv_cfg" where
  "NewWithSession P q a manager = (New_server P)\<lparr>cf_queue := q, cf_auth := a, cf_whatsapp := manager\<rparr>"

definition NewWithAll :: "srv_cfg \<Rightarrow> queue_kind \<Rightarrow> bool \<Rightarrow> bool \<Rightarrow> bool \<Rightarrow> bool \<Rightarrow> srv_cfg" where
  "NewWithAll P q a manager database dispatcher = (New_server P)\<lparr>cf_queue := q, cf_auth := a, cf_whatsapp := manager, cf_db := database,
     cf_dispatcher := dispatcher, cf_events := True\<rparr>"

definition SetEventBroker :: "bool \<Rightarrow> srv_cfg \<Rightarrow> srv_cfg" where
  "SetEventBroker b cf = (if b then cf\<lparr>cf_events := True\<rparr> else cf)"

section \<open>Start\<close>

definition env :: "(string \<Rightarrow> string) \<Rightarrow> string \<Rightarrow> string \<Rightarrow> string" where
  "env vars key fallback = (if vars key \<noteq> [] then vars key else fallback)"

text \<open>The secrets of \<open>auth.New\<close>.\<close>

definition auth_secrets :: "(string \<Rightarrow> string) \<Rightarrow> auth_params \<Rightarrow> auth_params" where
  "auth_secrets vars P = (let jwtSecret = env vars ''JWT_SECRET'' ''development-only-change-me'' in
     P\<lparr>ap_secret := jwtSecret, ap_refresh_secret := env vars ''JWT_REFRESH_SECRET'' (jwtSecret @ ''-refresh'')\<rparr>)"

text \<open>\<open>webhook.New\<close>; the handlers that store a webhook read the same variable.\<close>

definition New_dispatcher :: "(string \<Rightarrow> string) \<Rightarrow> hook_params \<Rightarrow> hook_params" where
  "New_dispatcher vars H = H\<lparr>hp_key := vars ''WEBHOOK_ENCRYPTION_KEY''\<rparr>"

text \<open>The parameters of the components as the environment sets them.\<close>

definition env_params :: "(string \<Rightarrow> string) \<Rightarrow> srv_cfg \<Rightarrow> srv_cfg" where
  "env_params vars P = P\<lparr>cf_auth_params := auth_secrets vars (cf_auth_params P), cf_hooks := New_dispatcher vars (cf_hooks P),
     cf_redis_url := vars ''REDIS_URL''\<rparr>"

text \<open>The process before it reads anything: \<open>d\<close> is the database and \<open>q\<close> what Redis holds.\<close>

definition boot_state :: "db \<Rightarrow> task list \<Rightarrow> srv" where
  "boot_state d q = \<lparr>sv_mem = NewMemory,
     sv_world = \<lparr>w_hooks = \<lparr>hk_db = d, hk_out = []\<rparr>, w_broker = NewBroker, w_limiter = New_limiter, w_sent = []\<rparr>,
     sv_rate = (\<lambda>_. None), sv_mgr = NewSessionManager, sv_tasks = q\<rparr>"

text \<open>
  What the start finds: the directory \<open>migrations\<close> with the effect of its scripts (\<open>Migrate\<close> runs in the environments \<open>mi_env\<close>),
  and the versions the database has recorded.
\<close>

record migrations =
  mi_run :: "string \<Rightarrow> db \<Rightarrow> err + db"
  mi_read :: "string \<Rightarrow> err + string"
  mi_entries :: "dir_entry list"
  mi_env :: "nat \<Rightarrow> ctx"
  mi_versions :: "string list option"

text \<open>
  The block under \<open>DATABASE_URL\<close>: the versions and the state after it.  Calls 0 to 3 are \<open>Open\<close>, \<open>EnsureAdmin\<close>, \<open>NewSessionManager\<close>
  and \<open>Load\<close>; \<open>known\<close> is the acceptance of an identity by \<open>types.ParseJID\<close>.
\<close>

definition start_database ::
  "(string \<Rightarrow> string) \<Rightarrow> srv_cfg \<Rightarrow> (nat \<Rightarrow> ctx) \<Rightarrow> migrations \<Rightarrow> (string \<Rightarrow> bool) \<Rightarrow> srv \<Rightarrow> (string list \<times> srv) option" where
  "start_database vars P B mi known s =
     (case Open (B 0) of Some e \<Rightarrow> None
      | None \<Rightarrow>
     (case Migrate (mi_run mi) (mi_read mi) (mi_entries mi) (mi_env mi) \<lparr>mg_versions = mi_versions mi, mg_data = srv_db s\<rparr> of
        (Some e, g) \<Rightarrow> None
      | (None, g) \<Rightarrow>
         if vars ''ADMIN_USERNAME'' = [] \<or> vars ''ADMIN_PASSWORD'' = [] then None
         else
     (case EnsureAdmin (cf_auth_params P) (B 1) (vars ''ADMIN_USERNAME'') (vars ''ADMIN_PASSWORD'') (mg_data g) of
        (Some e, d) \<Rightarrow> None
      | (None, d) \<Rightarrow>
     (case c_fault (B 2) 0 of Some e \<Rightarrow> None
      | None \<Rightarrow>
     (case sm_Load (gateway_store (cf_uuid P)) known (B 3) (sv_world (put_srv_db d s)) NewSessionManager of
        (Some e, m) \<Rightarrow> None
      | (None, m) \<Rightarrow> Some (applied_versions g, (put_srv_db d s)\<lparr>sv_mgr := m\<rparr>))))))"

text \<open>
  The block under \<open>REDIS_URL\<close>: what it leaves in \<open>messageQueue\<close> and \<open>closeQueue\<close> (the address of the queue), \<open>messageWorker\<close>,
  \<open>limiter\<close>, \<open>webhookDispatcher\<close> and the dispatcher of the session manager.
\<close>

record queue_parts =
  qp_queue :: "string option"
  qp_worker :: "worker_conf option"
  qp_limiter :: bool
  qp_webhooks :: bool
  qp_session_dispatcher :: bool

definition no_queue_parts :: queue_parts where
  "no_queue_parts = \<lparr>qp_queue = None, qp_worker = None, qp_limiter = False, qp_webhooks = False, qp_session_dispatcher = False\<rparr>"

text \<open>
  \<open>store\<close> is the data store, call 4 \<open>ListPendingQueueJobs\<close>; \<open>R\<close> are the environments of the recovery, whose errors are logged
  only.  \<open>databaseConn\<close> and \<open>sessionManager\<close> say whether these variables are set: the worker needs the session manager, the
  limiter and the webhooks need the connection.
\<close>

definition start_queue ::
  "srv_cfg \<Rightarrow> bool \<Rightarrow> bool \<Rightarrow> string \<Rightarrow> (nat \<Rightarrow> ctx) \<Rightarrow> (nat \<Rightarrow> ctx) \<Rightarrow> srv \<Rightarrow> (queue_parts \<times> srv) option" where
  "start_queue P databaseConn sessionManager raw B R s =
     (case NewFromURL (cf_url_host P) raw of Inl e \<Rightarrow> None
      | Inr addr \<Rightarrow>
         let s1 = (case ListPendingQueueJobs (srv_store (P\<lparr>cf_db := databaseConn\<rparr>)) (B 4) s of Inl e \<Rightarrow> s
             | Inr ps \<Rightarrow> s\<lparr>sv_tasks := snd (Recover R 0 ps (sv_tasks s))\<rparr>);
             parts = no_queue_parts\<lparr>qp_queue := Some addr\<rparr>
         in if \<not> sessionManager then Some (parts, s1)
         else
     (case NewWorker (cf_url_host P) raw of Inl e \<Rightarrow> None
      | Inr W \<Rightarrow> Some (parts\<lparr>qp_worker := Some W, qp_limiter := databaseConn, qp_webhooks := databaseConn,
          qp_session_dispatcher := True\<rparr>, s1)))"

text \<open>What \<open>main\<close> has built when it waits for a signal.\<close>

record wiring =
  wi_cfg :: srv_cfg
  wi_parts :: queue_parts
  wi_versions :: "string list"
  wi_addr :: string

definition gateway_main ::
  "(string \<Rightarrow> string) \<Rightarrow> srv_cfg \<Rightarrow> (nat \<Rightarrow> ctx) \<Rightarrow> (nat \<Rightarrow> ctx) \<Rightarrow> migrations \<Rightarrow> (string \<Rightarrow> bool) \<Rightarrow> srv \<Rightarrow> (wiring \<times> srv) option" where
  "gateway_main vars params B R mi known s0 =
     (let P = env_params vars params; database = vars ''DATABASE_URL'' \<noteq> []; redisURL = vars ''REDIS_URL'';
          databaseConn = database; authService = database; sessionManager = database in
     (case (if database then start_database vars P B mi known s0 else Some ([], s0)) of
        None \<Rightarrow> None
      | Some (versions, s1) \<Rightarrow>
     (case (if redisURL \<noteq> [] then start_queue P databaseConn sessionManager redisURL B R s1 else Some (no_queue_parts, s1)) of
        None \<Rightarrow> None
      | Some (parts, s2) \<Rightarrow>
         let q = (if qp_queue parts = None then NopQueue else AsynqQueue);
             app = SetEventBroker True (NewWithAll P q authService sessionManager databaseConn (qp_webhooks parts))
         in Some (\<lparr>wi_cfg = app, wi_parts = parts, wi_versions = versions, wi_addr = env vars ''PORT'' '':3000''\<rparr>, s2))))"

section \<open>End\<close>

text \<open>What \<open>main\<close> stops after the signal, in its order.\<close>

datatype closing = ShutdownServer | CloseDatabase | ShutdownWorker | CloseQueue | CloseSessions

definition shutdown :: "wiring \<Rightarrow> closing list" where
  "shutdown wi = [ShutdownServer]
     @ (if cf_db (wi_cfg wi) then [CloseDatabase] else [])
     @ (if qp_worker (wi_parts wi) \<noteq> None then [ShutdownWorker] else [])
     @ (if qp_queue (wi_parts wi) \<noteq> None then [CloseQueue] else [])
     @ (if cf_whatsapp (wi_cfg wi) then [CloseSessions] else [])"

definition close_part :: "closing \<Rightarrow> srv \<Rightarrow> srv" where
  "close_part a s = (if a = CloseSessions then s\<lparr>sv_mgr := sm_Close (sv_mgr s)\<rparr> else s)"

section \<open>What a started gateway is\<close>

lemma constructor_simps [simp]:
  "cf_db (NewWithAll P q a m db dp) = db" "cf_auth (NewWithAll P q a m db dp) = a" "cf_whatsapp (NewWithAll P q a m db dp) = m"
  "cf_events (NewWithAll P q a m db dp)" "cf_dispatcher (NewWithAll P q a m db dp) = dp" "cf_queue (NewWithAll P q a m db dp) = q"
  "cf_uuid (NewWithAll P q a m db dp) = cf_uuid P" "cf_auth_params (NewWithAll P q a m db dp) = cf_auth_params P"
  "SetEventBroker b (NewWithAll P q a m db dp) = NewWithAll P q a m db dp"
  by (simp_all add: NewWithAll_def New_server_def SetEventBroker_def)

lemma env_params_simps [simp]:
  "cf_uuid (env_params vars P) = cf_uuid P" "cf_auth_params (env_params vars P) = auth_secrets vars (cf_auth_params P)"
  "cf_url_host (env_params vars P) = cf_url_host P"
  by (simp_all add: env_params_def)

lemma secrets_simps [simp]:
  "ap_generate (auth_secrets vars P) = ap_generate P" "ap_compare (auth_secrets vars P) = ap_compare P"
  by (simp_all add: auth_secrets_def Let_def)

lemma boot_state_ok:
  "pg_ok (cf_uuid cf) d \<Longrightarrow> srv_ok cf (boot_state d q)"
  by (simp add: srv_ok_def boot_state_def world_ok_def w_db_def memory_ok_new NewBroker_ok NewSessionManager_ok)

lemma EnsureAdmin_messages [simp]: "t_messages (snd (EnsureAdmin P c u p d)) = t_messages d"
  by (simp add: EnsureAdmin_def split: sum.split option.split)

text \<open>The migrations keep the schema; the order and the recording of the scripts are those of \<open>Migrate\<close>.\<close>

definition scripts_sound :: "uuid_input \<Rightarrow> (string \<Rightarrow> db \<Rightarrow> err + db) \<Rightarrow> bool" where
  "scripts_sound u run \<longleftrightarrow> (\<forall>content d d'. pg_ok u d \<longrightarrow> run content d = Inr d' \<longrightarrow> pg_ok u d')"

lemma apply_scripts_sound:
  assumes "scripts_sound u run" "apply_scripts run read names d = Some d'" "pg_ok u d"
  shows "pg_ok u d'"
  using assms(2,3)
proof (induction names arbitrary: d)
  case (Cons name names)
  then obtain content d1 where "read name = Inr content" "run content d = Inr d1" "apply_scripts run read names d1 = Some d'"
    by (auto split: sum.splits)
  with Cons assms(1) show ?case unfolding scripts_sound_def by blast
qed simp

lemma Migrate_sound:
  assumes "Migrate run read entries E g = (None, g')" "distinct (map de_name entries)"
  shows "set (sql_files entries) \<subseteq> set (applied_versions g')" "scripts_sound u run \<Longrightarrow> pg_ok u (mg_data g) \<Longrightarrow> pg_ok u (mg_data g')"
proof -
  have a: "applied_to run read (missing (sql_files entries) g) g g'" using Migrate_prefix [OF assms] by auto
  then show "set (sql_files entries) \<subseteq> set (applied_versions g')" by (auto simp: applied_to_def missing_def)
  show "pg_ok u (mg_data g')" if "scripts_sound u run" "pg_ok u (mg_data g)"
    using apply_scripts_sound [OF that(1) _ that(2)] a unfolding applied_to_def by blast
qed

lemma start_databaseE:
  assumes "start_database vars P B mi known s = Some (vs, s')"
  obtains g d m where "Migrate (mi_run mi) (mi_read mi) (mi_entries mi) (mi_env mi) \<lparr>mg_versions = mi_versions mi, mg_data = srv_db s\<rparr> = (None, g)"
    "vs = applied_versions g" "EnsureAdmin (cf_auth_params P) (B 1) (vars ''ADMIN_USERNAME'') (vars ''ADMIN_PASSWORD'') (mg_data g) = (None, d)"
    "vars ''ADMIN_USERNAME'' \<noteq> []" "vars ''ADMIN_PASSWORD'' \<noteq> []"
    "sm_Load (gateway_store (cf_uuid P)) known (B 3) (sv_world (put_srv_db d s)) NewSessionManager = (None, m)"
    "s' = (put_srv_db d s)\<lparr>sv_mgr := m\<rparr>"
  using assms by (auto simp: start_database_def split: option.splits if_splits prod.splits)

lemma start_database_ok:
  assumes "start_database vars P B mi known s = Some (vs, s')" "srv_ok cf s" "cf_uuid cf = cf_uuid P"
    and "scripts_sound (cf_uuid P) (mi_run mi)" "distinct (map de_name (mi_entries mi))"
  shows "srv_ok cf s'" "set (sql_files (mi_entries mi)) \<subseteq> set vs"
proof -
  from assms(1) obtain g d m
    where g: "Migrate (mi_run mi) (mi_read mi) (mi_entries mi) (mi_env mi) \<lparr>mg_versions = mi_versions mi, mg_data = srv_db s\<rparr> = (None, g)"
      and e: "EnsureAdmin (cf_auth_params P) (B 1) (vars ''ADMIN_USERNAME'') (vars ''ADMIN_PASSWORD'') (mg_data g) = (None, d)"
      and m: "sm_Load (gateway_store (cf_uuid P)) known (B 3) (sv_world (put_srv_db d s)) NewSessionManager = (None, m)"
      and s': "s' = (put_srv_db d s)\<lparr>sv_mgr := m\<rparr>" "vs = applied_versions g"
    by (rule start_databaseE)
  show "set (sql_files (mi_entries mi)) \<subseteq> set vs" using Migrate_sound(1) [OF g assms(5)] s' by simp
  have "pg_ok (cf_uuid cf) (mg_data g)"
    using Migrate_sound(2) [OF g assms(5,4)] srv_ok_pg [OF assms(2)] assms(3) by simp
  then have "pg_ok (cf_uuid cf) d"
    using pg_ok_other [of "cf_uuid cf" "mg_data g" d] EnsureAdmin_ok [OF pg_ok_db_ok, of "cf_uuid cf" "mg_data g"]
      EnsureAdmin_messages [of "cf_auth_params P" "B 1" "vars ''ADMIN_USERNAME''" "vars ''ADMIN_PASSWORD''" "mg_data g"] e by (metis snd_conv)
  then have "srv_ok cf (put_srv_db d s)" by (rule srv_ok_put [OF assms(2)])
  moreover have "mgr_ok m" using mgr_simple_steps(2) [OF NewSessionManager_ok] m by (metis snd_conv)
  ultimately show "srv_ok cf s'" by (simp add: s' srv_ok_mgr)
qed

lemma start_queue_effect:
  assumes "start_queue P conn manager raw B R s = Some (parts, s')"
  shows "\<exists>q. s' = s\<lparr>sv_tasks := q\<rparr>" "qp_queue parts \<noteq> None" "qp_worker parts \<noteq> None \<longleftrightarrow> manager"
    "qp_worker parts = Some W \<Longrightarrow> qp_queue parts = Some (wf_addr W) \<and> qp_limiter parts = conn \<and> qp_webhooks parts = conn
       \<and> qp_session_dispatcher parts \<and> serves W (task_of job i)"
proof -
  have "\<exists>q. s = s\<lparr>sv_tasks := q\<rparr>" by (rule exI [of _ "sv_tasks s"]) simp
  with assms show "\<exists>q. s' = s\<lparr>sv_tasks := q\<rparr>" by (auto simp: start_queue_def Let_def split: if_splits sum.splits)
  show "qp_queue parts \<noteq> None" "qp_worker parts \<noteq> None \<longleftrightarrow> manager"
    using assms by (auto simp: start_queue_def Let_def no_queue_parts_def split: if_splits sum.splits)
  show "qp_queue parts = Some (wf_addr W) \<and> qp_limiter parts = conn \<and> qp_webhooks parts = conn \<and> qp_session_dispatcher parts
       \<and> serves W (task_of job i)" if "qp_worker parts = Some W"
    using assms that NewWorker_serves by (fastforce simp: start_queue_def Let_def no_queue_parts_def split: if_splits sum.splits)
qed

text \<open>The two blocks of a start.\<close>

lemma gateway_mainE:
  assumes "gateway_main vars params B R mi known s0 = Some (wi, s)"
  obtains s1 where
    "(if vars ''DATABASE_URL'' \<noteq> [] then start_database vars (env_params vars params) B mi known s0 else Some ([], s0)) = Some (wi_versions wi, s1)"
    "(if vars ''REDIS_URL'' \<noteq> [] then start_queue (env_params vars params) (vars ''DATABASE_URL'' \<noteq> []) (vars ''DATABASE_URL'' \<noteq> []) (vars ''REDIS_URL'') B R s1
      else Some (no_queue_parts, s1)) = Some (wi_parts wi, s)"
    "wi_cfg wi = NewWithAll (env_params vars params) (if qp_queue (wi_parts wi) = None then NopQueue else AsynqQueue)
       (vars ''DATABASE_URL'' \<noteq> []) (vars ''DATABASE_URL'' \<noteq> []) (vars ''DATABASE_URL'' \<noteq> []) (qp_webhooks (wi_parts wi))"
  using assms by (auto simp: gateway_main_def Let_def split: option.splits prod.splits)

lemma started_parts:
  assumes "gateway_main vars params B R mi known s0 = Some (wi, s)"
  shows "vars ''DATABASE_URL'' \<noteq> [] \<Longrightarrow> vars ''REDIS_URL'' \<noteq> [] \<longleftrightarrow> qp_worker (wi_parts wi) \<noteq> None"
    and "qp_worker (wi_parts wi) = Some W \<Longrightarrow> qp_queue (wi_parts wi) = Some (wf_addr W) \<and> qp_limiter (wi_parts wi)
      \<and> qp_session_dispatcher (wi_parts wi) \<and> cf_dispatcher (wi_cfg wi) \<and> cf_db (wi_cfg wi) \<and> cf_queue (wi_cfg wi) = AsynqQueue
      \<and> serves W (task_of job i)"
proof -
  from assms obtain s1 where
    s: "(if vars ''REDIS_URL'' \<noteq> [] then start_queue (env_params vars params) (vars ''DATABASE_URL'' \<noteq> []) (vars ''DATABASE_URL'' \<noteq> []) (vars ''REDIS_URL'') B R s1
      else Some (no_queue_parts, s1)) = Some (wi_parts wi, s)"
    and cf: "wi_cfg wi = NewWithAll (env_params vars params) (if qp_queue (wi_parts wi) = None then NopQueue else AsynqQueue)
       (vars ''DATABASE_URL'' \<noteq> []) (vars ''DATABASE_URL'' \<noteq> []) (vars ''DATABASE_URL'' \<noteq> []) (qp_webhooks (wi_parts wi))"
    by (rule gateway_mainE)
  have none: "qp_worker (wi_parts wi) = None" if "vars ''REDIS_URL'' = []"
    using s that by (auto simp: no_queue_parts_def dest: sym)
  note q = start_queue_effect [of "env_params vars params" "vars ''DATABASE_URL'' \<noteq> []" "vars ''DATABASE_URL'' \<noteq> []" "vars ''REDIS_URL''" B R s1 "wi_parts wi" s]
  show "vars ''REDIS_URL'' \<noteq> [] \<longleftrightarrow> qp_worker (wi_parts wi) \<noteq> None" if "vars ''DATABASE_URL'' \<noteq> []"
    using s that none q(3) by (cases "vars ''REDIS_URL'' = []") simp_all
  assume w: "qp_worker (wi_parts wi) = Some W"
  then have "vars ''REDIS_URL'' \<noteq> []" using none by auto
  with s have sq: "start_queue (env_params vars params) (vars ''DATABASE_URL'' \<noteq> []) (vars ''DATABASE_URL'' \<noteq> []) (vars ''REDIS_URL'') B R s1 = Some (wi_parts wi, s)"
    by simp
  from q(3) [OF sq] q(4) [OF sq w] w
  show "qp_queue (wi_parts wi) = Some (wf_addr W) \<and> qp_limiter (wi_parts wi)
      \<and> qp_session_dispatcher (wi_parts wi) \<and> cf_dispatcher (wi_cfg wi) \<and> cf_db (wi_cfg wi) \<and> cf_queue (wi_cfg wi) = AsynqQueue
      \<and> serves W (task_of job i)"
    by (simp add: cf)
qed

lemma gateway_main_ok:
  assumes "gateway_main vars params B R mi known (boot_state d q) = Some (wi, s)" "pg_ok (cf_uuid params) d"
    and "scripts_sound (cf_uuid params) (mi_run mi)" "distinct (map de_name (mi_entries mi))"
  shows "srv_ok (wi_cfg wi) s" "cf_uuid (wi_cfg wi) = cf_uuid params" "cf_db (wi_cfg wi) \<longleftrightarrow> vars ''DATABASE_URL'' \<noteq> []"
    "cf_auth (wi_cfg wi) = cf_db (wi_cfg wi)" "cf_events (wi_cfg wi)"
    "vars ''DATABASE_URL'' \<noteq> [] \<Longrightarrow> set (sql_files (mi_entries mi)) \<subseteq> set (wi_versions wi)"
proof -
  from assms(1) obtain s1 where
    s1: "(if vars ''DATABASE_URL'' \<noteq> [] then start_database vars (env_params vars params) B mi known (boot_state d q)
      else Some ([], boot_state d q)) = Some (wi_versions wi, s1)"
    and s: "(if vars ''REDIS_URL'' \<noteq> [] then start_queue (env_params vars params) (vars ''DATABASE_URL'' \<noteq> []) (vars ''DATABASE_URL'' \<noteq> []) (vars ''REDIS_URL'') B R s1
      else Some (no_queue_parts, s1)) = Some (wi_parts wi, s)"
    and cf: "wi_cfg wi = NewWithAll (env_params vars params) (if qp_queue (wi_parts wi) = None then NopQueue else AsynqQueue)
       (vars ''DATABASE_URL'' \<noteq> []) (vars ''DATABASE_URL'' \<noteq> []) (vars ''DATABASE_URL'' \<noteq> []) (qp_webhooks (wi_parts wi))"
    by (rule gateway_mainE)
  show u: "cf_uuid (wi_cfg wi) = cf_uuid params" and "cf_db (wi_cfg wi) \<longleftrightarrow> vars ''DATABASE_URL'' \<noteq> []"
    "cf_auth (wi_cfg wi) = cf_db (wi_cfg wi)" "cf_events (wi_cfg wi)" by (simp_all add: cf)
  have ok: "srv_ok (wi_cfg wi) (boot_state d q)" by (rule boot_state_ok) (simp add: u assms(2))
  note db = start_database_ok [of vars "env_params vars params" B mi known "boot_state d q" "wi_versions wi" s1, OF _ ok _ _ assms(4)]
  have "srv_ok (wi_cfg wi) s1" using s1 ok db(1) u assms(3) by (auto split: if_splits)
  then show "srv_ok (wi_cfg wi) s" using s by (auto dest!: start_queue_effect(1) split: if_splits)
  show "set (sql_files (mi_entries mi)) \<subseteq> set (wi_versions wi)" if "vars ''DATABASE_URL'' \<noteq> []"
    using s1 db(2) u assms(3) that by simp
qed

text \<open>
  C14.  A gateway that \<open>main\<close> started with \<open>DATABASE_URL\<close> set, on a database that satisfies its schema and with migrations that keep
  it, has applied every migration script and answers every request for as long as it runs, after any sequence of requests, tasks,
  events and faults; and the parts fit: with \<open>REDIS_URL\<close> there is a worker, which reads from the Redis server the queue client writes
  to and serves every task that client can make, and it is started only together with the limiter, the webhook
  dispatcher and a dispatcher in the session manager.
\<close>

theorem started_gateway_answers:
  assumes "vars ''DATABASE_URL'' \<noteq> []" "uuid_canonical (cf_uuid params)" "chi_lawful chi" "pg_ok (cf_uuid params) d"
    and "scripts_sound (cf_uuid params) (mi_run mi)" "distinct (map de_name (mi_entries mi))"
    and "gateway_main vars params B R mi known (boot_state d q) = Some (wi, s)"
    and "(gw_step (wi_cfg wi) files chi png fmt known)\<^sup>*\<^sup>* s s'"
  shows "served_status (fst (serve (wi_cfg wi) files chi c E x s')) \<noteq> None
    \<and> set (sql_files (mi_entries mi)) \<subseteq> set (wi_versions wi)
    \<and> (vars ''REDIS_URL'' \<noteq> [] \<longrightarrow> (\<exists>W. qp_worker (wi_parts wi) = Some W \<and> qp_queue (wi_parts wi) = Some (wf_addr W)
        \<and> (\<forall>job i. serves W (task_of job i))))
    \<and> (qp_worker (wi_parts wi) \<noteq> None \<longrightarrow> qp_limiter (wi_parts wi) \<and> qp_session_dispatcher (wi_parts wi)
        \<and> cf_dispatcher (wi_cfg wi) \<and> cf_queue (wi_cfg wi) = AsynqQueue)"
proof (intro conjI)
  note ok = gateway_main_ok [OF assms(7,4-6)] and parts = started_parts [OF assms(7)]
  have "srv_ok (wi_cfg wi) s'" using ok assms(2) by (intro reachable_ok [OF assms(8,3) _ ok(1)]) simp
  then show "served_status (fst (serve (wi_cfg wi) files chi c E x s')) \<noteq> None"
    using assms(1,2) by (intro served_typed_status serve_answers) (simp_all add: ok(2-5) assms(3))
  show "set (sql_files (mi_entries mi)) \<subseteq> set (wi_versions wi)" by (rule ok(6) [OF assms(1)])
  show "vars ''REDIS_URL'' \<noteq> [] \<longrightarrow> (\<exists>W. qp_worker (wi_parts wi) = Some W \<and> qp_queue (wi_parts wi) = Some (wf_addr W)
        \<and> (\<forall>job i. serves W (task_of job i)))"
    using parts(1) [OF assms(1)] parts(2) by auto
  show "qp_worker (wi_parts wi) \<noteq> None \<longrightarrow> qp_limiter (wi_parts wi) \<and> qp_session_dispatcher (wi_parts wi)
        \<and> cf_dispatcher (wi_cfg wi) \<and> cf_queue (wi_cfg wi) = AsynqQueue"
    using parts(2) by auto
qed

text \<open>
  The order at the end: the connection is closed before the worker is told to stop, so a task may still be
  running when its statements begin to fail.
\<close>

lemma database_closed_before_worker:
  assumes "gateway_main vars params B R mi known s0 = Some (wi, s)" "qp_worker (wi_parts wi) \<noteq> None"
  shows "\<exists>rest. shutdown wi = ShutdownServer # CloseDatabase # ShutdownWorker # CloseQueue # rest"
  using assms(2) started_parts(2) [OF assms(1)] by (auto simp: shutdown_def)

lemma close_part_ok: "srv_ok cf s \<Longrightarrow> srv_ok cf (fold close_part as s) \<and> srv_db (fold close_part as s) = srv_db s"
  by (induction as arbitrary: s) (auto simp: close_part_def srv_ok_mgr srv_ok_mgrD mgr_simple_steps srv_db_def)

lemma EnsureAdmin_login:
  assumes "db_ok d" "\<And>salt p h. ap_generate P salt p = Inr h \<Longrightarrow> ap_compare P h p"
    and "EnsureAdmin P c name pw d = (None, d')" "name \<noteq> []" "pw \<noteq> []"
  shows "\<exists>u. find (\<lambda>u. ur_username u = name) (t_users d') = Some u \<and> ap_compare P (ur_password_hash u) pw"
proof -
  from assms(3-5) obtain h where h: "ap_generate P (c_uuid c 0) pw = Inr h"
    and d': "d' = (if name \<in> ur_username ` set (t_users d)
        then upd_users (\<lambda>u. ur_username u = name) (\<lambda>u. u\<lparr>ur_password_hash := h, ur_updated_at := c_now c\<rparr>) d
        else d\<lparr>t_users := t_users d @ [new_user_row c name h]\<rparr>)"
    by (auto simp: EnsureAdmin_def split: sum.splits option.splits if_splits)
  note ok = assms(2) [OF h]
  show ?thesis
  proof (cases "name \<in> ur_username ` set (t_users d)")
    case True
    then obtain u where "find (\<lambda>u. ur_username u = name) (t_users d) = Some u"
      by (cases "find (\<lambda>u. ur_username u = name) (t_users d)") (auto simp: find_None_iff)
    with True ok show ?thesis by (auto simp: d' find_update_where dest: find_SomeD)
  next
    case False
    then have "find (\<lambda>u. ur_username u = name) (t_users d) = None" by (auto simp: find_None_iff)
    with False ok show ?thesis by (simp add: d' find_append new_user_row_def)
  qed
qed

text \<open>
  C40.  The administrator can log in.  After a start with a database, \<open>login\<close> with the name and the password of the
  environment reaches \<open>issue\<close> for the stored administrator, also when the account existed with another
  password; and unless \<open>JWT_REFRESH_SECRET\<close> is set to the other secret, access and refresh tokens are signed with different keys.
\<close>

theorem admin_login_after_start:
  assumes "vars ''DATABASE_URL'' \<noteq> []" "pg_ok (cf_uuid params) d"
    and "scripts_sound (cf_uuid params) (mi_run mi)" "distinct (map de_name (mi_entries mi))"
    and "\<And>salt p h. ap_generate (cf_auth_params params) salt p = Inr h \<Longrightarrow> ap_compare (cf_auth_params params) h p"
    and "gateway_main vars params B R mi known (boot_state d q) = Some (wi, s)"
  shows "\<exists>u \<in> set (t_users (srv_db s)). ur_username u = vars ''ADMIN_USERNAME''
      \<and> (\<forall>c. no_fault c \<longrightarrow> Login (cf_auth_params (wi_cfg wi)) c (vars ''ADMIN_USERNAME'') (vars ''ADMIN_PASSWORD'') (srv_db s)
          = issue (cf_auth_params (wi_cfg wi)) c 1 (ur_id u) (vars ''ADMIN_USERNAME'') (srv_db s))
      \<and> (vars ''JWT_REFRESH_SECRET'' \<noteq> env vars ''JWT_SECRET'' ''development-only-change-me'' \<longrightarrow>
          ap_secret (cf_auth_params (wi_cfg wi)) \<noteq> ap_refresh_secret (cf_auth_params (wi_cfg wi)))"
proof -
  let ?P = "auth_secrets vars (cf_auth_params params)" and ?name = "vars ''ADMIN_USERNAME''" and ?pw = "vars ''ADMIN_PASSWORD''"
  from assms(1,6) obtain s1 where s1: "start_database vars (env_params vars params) B mi known (boot_state d q) = Some (wi_versions wi, s1)"
    and s: "srv_db s = srv_db s1" and cf: "cf_auth_params (wi_cfg wi) = ?P"
    by (auto elim!: gateway_mainE dest!: start_queue_effect(1) split: if_splits)
  from s1 obtain g d1 where g: "Migrate (mi_run mi) (mi_read mi) (mi_entries mi) (mi_env mi) \<lparr>mg_versions = mi_versions mi, mg_data = d\<rparr> = (None, g)"
    and e: "EnsureAdmin ?P (B 1) ?name ?pw (mg_data g) = (None, d1)" "?name \<noteq> []" "?pw \<noteq> []" and d1: "srv_db s1 = d1"
    by (rule start_databaseE) (simp add: boot_state_def srv_db_def w_db_def put_srv_db_def put_db_def)
  have "db_ok (mg_data g)" using Migrate_sound(2) [OF g assms(4,3)] assms(2) by (simp add: pg_ok_db_ok)
  then obtain u where u: "find (\<lambda>u. ur_username u = ?name) (t_users d1) = Some u" "ap_compare ?P (ur_password_hash u) ?pw"
    using EnsureAdmin_login [OF _ _ e] assms(5) by auto
  have "ap_secret ?P \<noteq> ap_refresh_secret ?P" if "vars ''JWT_REFRESH_SECRET'' \<noteq> env vars ''JWT_SECRET'' ''development-only-change-me''"
    using that by (auto simp: auth_secrets_def Let_def env_def)
  with u s d1 cf show ?thesis by (intro bexI [of _ u]) (auto simp: Login_def dest: find_SomeD)
qed

definition sample_vars :: "string \<Rightarrow> string" where
  "sample_vars k = (case map_of [(''DATABASE_URL'', ''postgres://db''), (''REDIS_URL'', ''redis://q''), (''ADMIN_USERNAME'', ''admin''),
     (''ADMIN_PASSWORD'', ''pw'')] k of Some v \<Rightarrow> v | None \<Rightarrow> [])"

definition sample_migrations :: migrations where
  "sample_migrations = \<lparr>mi_run = (\<lambda>_. Inr), mi_read = Inr, mi_entries = sample_entries, mi_env = (\<lambda>_. sample_ctx), mi_versions = None\<rparr>"

definition sample_start :: "(wiring \<times> srv) option" where
  "sample_start = gateway_main sample_vars sample_cfg (\<lambda>_. sample_ctx) (\<lambda>_. sample_ctx) sample_migrations (\<lambda>_. True) (boot_state sample_db [])"

lemma sample_migrated_db:
  "\<exists>g. Migrate (\<lambda>_. Inr) Inr sample_entries (\<lambda>_. sample_ctx) s = (None, g) \<and> mg_data g = mg_data s"
proof -
  have "\<exists>g. migrate_loop (\<lambda>_. Inr) Inr (\<lambda>_. sample_ctx) k names s' = (None, g) \<and> mg_data g = mg_data s'" for k names and s' :: "'d migrated"
    by (induction names arbitrary: k s') (simp_all, metis versions_simps(4))
  from this [of 1 "sql_files sample_entries" "create_table s"] show ?thesis by (simp add: Migrate_def)
qed

lemma sample_started: "\<exists>wi s. sample_start = Some (wi, s)"
proof -
  let ?P = "env_params sample_vars sample_cfg"
  obtain g where g: "Migrate (\<lambda>_. Inr) Inr sample_entries (\<lambda>_. sample_ctx) \<lparr>mg_versions = None, mg_data = sample_db\<rparr> = (None, g)"
      "mg_data g = sample_db"
    using sample_migrated_db [of "\<lparr>mg_versions = None, mg_data = sample_db\<rparr>"] by auto
  have "\<exists>vs s. start_database sample_vars ?P (\<lambda>_. sample_ctx) sample_migrations (\<lambda>_. True) (boot_state sample_db []) = Some (vs, s)"
    using g by (simp add: start_database_def sample_vars_def Open_def EnsureAdmin_def boot_state_def sample_migrations_def sm_Load_def
        gateway_store_def lift_store_def pg_ListSessions_def srv_db_def w_db_def split: sum.split)
  moreover have "\<exists>parts s'. start_queue ?P True True ''redis://q'' (\<lambda>_. sample_ctx) (\<lambda>_. sample_ctx) s = Some (parts, s')" for s
    by (simp add: start_queue_def NewFromURL_def NewWorker_def sample_cfg_def env_params_def Let_def)
  ultimately show ?thesis
    by (fastforce simp: sample_start_def gateway_main_def sample_vars_def Let_def split: option.split)
qed

lemma sample_start_hyps:
  "sample_vars ''DATABASE_URL'' \<noteq> []" "pg_ok (cf_uuid sample_cfg) sample_db"
  "scripts_sound (cf_uuid sample_cfg) (mi_run sample_migrations)" "distinct (map de_name (mi_entries sample_migrations))"
  by (simp_all add: sample_vars_def pg_ok_def scripts_sound_def sample_migrations_def sample_entries_def)

theorem started_gateway_answers_witness:
  "\<exists>wi s. sample_start = Some (wi, s) \<and> set (sql_files sample_entries) \<subseteq> set (wi_versions wi)
    \<and> served_status (fst (serve (wi_cfg wi) (\<lambda>_. None) sample_chi sample_ctx (\<lambda>_. sample_ctx)
        (sample_call ''GET'' ''/api/v1/stats'' (sample_request [] [] [] [])) s)) \<noteq> None"
proof -
  obtain wi s where st: "sample_start = Some (wi, s)" using sample_started by blast
  note start = st [unfolded sample_start_def]
  have "mi_entries sample_migrations = sample_entries" by (simp add: sample_migrations_def)
  with started_gateway_answers [OF sample_start_hyps(1) sample_canonical sample_chi_lawful sample_start_hyps(2-4) start rtranclp.rtrancl_refl] st
  show ?thesis by metis
qed

theorem admin_login_after_start_witness:
  "\<exists>wi s. sample_start = Some (wi, s) \<and> ap_secret (cf_auth_params (wi_cfg wi)) \<noteq> ap_refresh_secret (cf_auth_params (wi_cfg wi))"
proof -
  obtain wi s where st: "sample_start = Some (wi, s)" using sample_started by blast
  note start = st [unfolded sample_start_def]
  have "sample_vars ''JWT_REFRESH_SECRET'' \<noteq> env sample_vars ''JWT_SECRET'' ''development-only-change-me''"
    by (simp add: sample_vars_def env_def)
  with admin_login_after_start [OF sample_start_hyps _ start] st show ?thesis by auto
qed

end
