(* ===== verification/Http_Access.thy ===== *)
theory Http_Access
  imports Http_Router
begin

text \<open>
  Credentials at the server's boundary: the token of a login opens the guarded routes, and a caller with an
  API key of one session stores messages of that session only.
\<close>

section \<open>A login opens the API\<close>

definition user_principal :: "string \<Rightarrow> string \<Rightarrow> principal" where
  "user_principal i name = \<lparr>p_UserID = i, p_Username = name, p_APIKeyID = [], p_SessionID = [], p_IsAPIKey = False\<rparr>"

lemma Login_access:
  assumes "jwt_lawful P" "Login P c name pw d = (Inr (access, refresh, n), d')"
  shows "\<exists>u \<in> set (t_users d). ur_username u = name \<and> ap_compare P (ur_password_hash u) pw \<and> n = 900
    \<and> (\<forall>now \<le> c_now c + accessTTL - second. VerifyAccess P now access = Inr (user_principal (ur_id u) name))"
proof -
  from assms(2) obtain u where u: "find (\<lambda>r. ur_username r = name) (t_users d) = Some u" "ap_compare P (ur_password_hash u) pw"
    "issue P c 1 (ur_id u) name d = (Inr (access, refresh, n), d')" by (rule Login_Inr)
  from u(3) obtain v where s: "n = 900"
    "ap_sign P (claims_of (ur_id u) name (c_now c + accessTTL) (c_now c)) (ap_secret P) = Inr access" by (rule issue_Inr)
  have "VerifyAccess P now access = Inr (user_principal (ur_id u) name)" if "now \<le> c_now c + accessTTL - second" for now
    using parse_signed [OF assms(1) s(2), of now] exp_ge [of "c_now c" accessTTL] that
    by (simp add: VerifyAccess_def user_principal_def)
  with u s show ?thesis by (auto dest: find_SomeD)
qed

lemma tokens_reply_eq [simp]:
  "tokens_reply (a, t, n) = Answer \<lparr>rs_status = 200,
     rs_body = Some (JObj [(''accessToken'', JStr a), (''expiresIn'', JInt n)]), rs_cookie = Some (SetRefresh t)\<rparr>"
  by (simp add: tokens_reply_def with_cookie_def write_json_def)

lemma login_200:
  assumes "login cf E r p s = (rep, s')" "reply_status rep = Some 200"
  obtains name pw access refresh n d' where "decode_two ''username'' ''password'' r = Some (name, pw)"
    "Login (cf_auth_params cf) (E 0) name pw (srv_db s) = (Inr (access, refresh, n), d')"
    "rep = tokens_reply (access, refresh, n)" "s' = put_srv_db d' s" "cf_auth cf"
proof -
  from assms obtain name pw where b: "cf_auth cf" "nonempty_two (decode_two ''username'' ''password'' r) = Some (name, pw)"
    by (auto simp: login_def split: if_splits option.splits)
  then have two: "decode_two ''username'' ''password'' r = Some (name, pw)"
    by (auto simp: nonempty_two_def split: option.splits if_splits)
  obtain x d' where l: "Login (cf_auth_params cf) (E 0) name pw (srv_db s) = (x, d')" by force
  with assms b have "rep = (case x of Inl e \<Rightarrow> writeError 401 ''Invalid credentials'' | Inr t \<Rightarrow> tokens_reply t)" "s' = put_srv_db d' s"
    by (auto simp: login_def auth_exec_def split: sum.splits)
  with assms(2) l b two that show thesis by (cases x) auto
qed

text \<open>
  C20.  A login that answers 200 came with the name and the password of a user.  Its answer holds an access token that
  opens the guarded routes: a later request with that token in its \<open>Authorization\<close> header, in any capitalisation
  of the scheme and without an API key, reaches its handler as that user, whatever happened to the server's state in between,
  until a second before the 15 minutes are over.
\<close>

theorem login_opens_api:
  assumes "jwt_lawful (cf_auth_params cf)" "login cf E r p s = (rep, s')" "reply_status rep = Some 200"
  shows "\<exists>name pw access refresh u.
    decode_two ''username'' ''password'' r = Some (name, pw) \<and> rep = tokens_reply (access, refresh, 900)
    \<and> u \<in> set (t_users (srv_db s)) \<and> ur_username u = name \<and> ap_compare (cf_auth_params cf) (ur_password_hash u) pw
    \<and> (\<forall>c r2 s2 next. equal_fold (take 7 (rq_header r2 ''Authorization'')) ''Bearer '' \<longrightarrow>
         access \<noteq> [] \<longrightarrow> drop 7 (rq_header r2 ''Authorization'') = access \<longrightarrow> trim_space access = access \<longrightarrow>
         rq_header r2 ''X-Api-Key'' = [] \<longrightarrow> c_now c \<le> c_now (E 0) + accessTTL - second \<longrightarrow>
         requireAuth cf c r2 next s2 = next (Some (user_principal (ur_id u) name)) s2)"
proof -
  from assms(2,3) obtain name pw access refresh n d' where l: "decode_two ''username'' ''password'' r = Some (name, pw)"
    "Login (cf_auth_params cf) (E 0) name pw (srv_db s) = (Inr (access, refresh, n), d')"
    "rep = tokens_reply (access, refresh, n)" "cf_auth cf" by (rule login_200)
  from Login_access [OF assms(1) l(2)] obtain u where u: "u \<in> set (t_users (srv_db s))" "ur_username u = name"
    "ap_compare (cf_auth_params cf) (ur_password_hash u) pw" "n = 900"
    "\<And>now. now \<le> c_now (E 0) + accessTTL - second \<Longrightarrow>
       VerifyAccess (cf_auth_params cf) now access = Inr (user_principal (ur_id u) name)" by blast
  have "requireAuth cf c r2 next s2 = next (Some (user_principal (ur_id u) name)) s2"
    if h: "equal_fold (take 7 (rq_header r2 ''Authorization'')) ''Bearer ''" "access \<noteq> []"
      "drop 7 (rq_header r2 ''Authorization'') = access" "trim_space access = access"
      "rq_header r2 ''X-Api-Key'' = []" "c_now c \<le> c_now (E 0) + accessTTL - second" for c r2 s2 "next"
  proof -
    have "\<not> length (rq_header r2 ''Authorization'') < 8" using h(2,3) by auto
    with h u(5) [OF h(6)] l(4) show ?thesis by (simp add: requireAuth_def authenticate_def)
  qed
  with l u show ?thesis by blast
qed

definition sample_auth_srv :: srv where
  "sample_auth_srv = put_srv_db sample_auth_db sample_srv"

definition sample_login_request :: request where
  "sample_login_request = sample_request [] [] [] [(''username'', JStr ''admin''), (''password'', JStr ''pw'')]"

lemma sample_login_reply:
  "fst (login sample_cfg (\<lambda>_. sample_ctx) sample_login_request None sample_auth_srv) = tokens_reply (''A'', ''R'', 900)"
proof -
  obtain d' where "Login sample_auth sample_ctx ''admin'' ''pw'' sample_auth_db = (Inr (''A'', ''R'', 900), d')"
    using sample_login by (metis prod.collapse)
  then show ?thesis
    by (simp add: login_def sample_login_request_def decode_two_def dec_str_def str_field_def nonempty_two_def
        auth_exec_def sample_auth_srv_def)
qed

lemma trim_A: "trim_space ''A'' = ''A''"
  by (simp add: trim_space_def space_seqs_def strip_front.simps)

lemma bearer_fold: "equal_fold ''bearer '' ''Bearer ''"
  by code_simp

theorem login_opens_api_witness:
  "requireAuth sample_cfg sample_ctx (sample_request [(''Authorization'', ''bearer A'')] [] [] [])
     (\<lambda>p s. (write_json 200 (JStr (p_Username (the p))), s)) sample_srv = (write_json 200 (JStr ''admin''), sample_srv)"
proof -
  let ?l = "login sample_cfg (\<lambda>_. sample_ctx) sample_login_request None sample_auth_srv"
  have "?l = (fst ?l, snd ?l)" by simp
  then have l: "?l = (tokens_reply (''A'', ''R'', 900), snd ?l)" by (simp only: sample_login_reply)
  have ok: "reply_status (tokens_reply (''A'', ''R'', 900)) = Some 200" by (simp add: reply_status_def)
  have "jwt_lawful (cf_auth_params sample_cfg)" by (simp add: sample_auth_lawful)
  from login_opens_api [OF this l ok]
  obtain name pw access refresh u where u: "decode_two ''username'' ''password'' sample_login_request = Some (name, pw)"
    "tokens_reply (''A'', ''R'', 900) = tokens_reply (access, refresh, 900)" "u \<in> set (t_users (srv_db sample_auth_srv))"
    and open_api: "\<forall>c r2 s2 next. equal_fold (take 7 (rq_header r2 ''Authorization'')) ''Bearer '' \<longrightarrow>
         access \<noteq> [] \<longrightarrow> drop 7 (rq_header r2 ''Authorization'') = access \<longrightarrow> trim_space access = access \<longrightarrow>
         rq_header r2 ''X-Api-Key'' = [] \<longrightarrow> c_now c \<le> c_now sample_ctx + accessTTL - second \<longrightarrow>
         requireAuth sample_cfg c r2 next s2 = next (Some (user_principal (ur_id u) name)) s2"
    by blast
  have "name = ''admin''" "access = ''A''"
    using u by (simp_all add: sample_login_request_def decode_two_def dec_str_def str_field_def)
  then show ?thesis
    using open_api [rule_format, of "sample_request [(''Authorization'', ''bearer A'')] [] [] []"]
    by (simp add: trim_A bearer_fold accessTTL_def user_principal_def)
qed

section \<open>Keys of one session\<close>

text \<open>The active keys of the database whose hash is that of a value.\<close>

definition keys_of :: "srv_cfg \<Rightarrow> string \<Rightarrow> db \<Rightarrow> api_key_row list" where
  "keys_of cf v d = filter (\<lambda>k. ak_key_hash k = hashString cf v \<and> ak_is_active k) (t_api_keys d)"

lemma authenticated_key:
  assumes "rq_header r ''X-Api-Key'' \<noteq> []" "authenticate cf c r s = (Inr p, s')"
  shows "\<exists>k \<in> set (keys_of cf (rq_header r ''X-Api-Key'') (srv_db s)).
    p_SessionID p = coalesce (ak_session_id k) \<and> p_APIKeyID p = ak_id k \<and> p_IsAPIKey p"
proof -
  from assms obtain a where "VerifyAPIKey (cf_auth_params cf) c (rq_header r ''X-Api-Key'') (clientIP cf r) (auth_of s) = (Inr p, a)"
    by (auto simp: authenticate_def split: prod.splits)
  then show ?thesis
    by (rule VerifyAPIKey_Inr) (force simp: keys_of_def hashString_def hash_def auth_of_def dest: find_SomeD)
qed

text \<open>
  C23.  A restricted API key.  When every active key with the hash of the presented one is bound to the session \<open>sid\<close>,
  \<open>sendMessage\<close> behind \<open>requireAuth\<close> stores at most one message, and only of that session; a body that names
  another session changes nothing but the rate window.
\<close>

theorem restricted_key_sends:
  assumes "cf_db cf" "cf_auth cf" "rq_header r ''X-Api-Key'' \<noteq> []" "sid \<noteq> []"
    and "\<And>k. k \<in> set (keys_of cf (rq_header r ''X-Api-Key'') (srv_db s)) \<Longrightarrow> ak_session_id k = Some sid"
    and "requireAuth cf c r (sendMessage cf E r) s = (rep, s')"
  shows "\<exists>ms. t_messages (srv_db s') = t_messages (srv_db s) @ ms \<and> length ms \<le> 1 \<and> (\<forall>m \<in> set ms. mr_session_id m = sid)
    \<and> (\<forall>b. decode_send r = Some b \<longrightarrow> sb_SessionID b \<noteq> sid \<longrightarrow> ms = [] \<and> (\<exists>x. s' = s\<lparr>sv_rate := x\<rparr>))"
proof (cases "authenticate cf c r s")
  case (Pair res s1)
  then obtain x where s1: "s1 = s\<lparr>sv_rate := x\<rparr>" using authenticate_frame by blast
  have unchanged: "s' = s1 \<Longrightarrow> ?thesis" using s1 by (intro exI [of _ "[]"]) auto
  show ?thesis
  proof (cases res)
    case (Inl e)
    with Pair assms(2,6) have "s' = s1" by (simp add: requireAuth_def)
    then show ?thesis by (rule unchanged)
  next
    case (Inr p)
    from authenticated_key [OF assms(3) Pair [unfolded Inr]] assms(5) have p: "p_SessionID p = sid" "p_IsAPIKey p" by force+
    from Pair Inr assms(2,6) have send: "sendMessage cf E r (Some p) s1 = (rep, s')" by (simp add: requireAuth_def)
    show ?thesis
    proof (cases "nothing_stored s1 rep s'")
      case True
      then have "s' = s1" by (simp add: nothing_stored_def)
      then show ?thesis by (rule unchanged)
    next
      case False
      with sendMessage_cases [OF assms(1) send] obtain b body where b: "decode_send r = Some b"
        "\<not> other_session (Some p) (sb_SessionID b)" "stored_reply cf E (message_for cf E r (Some p) b body) s1 rep s'" by blast
      have sid: "sb_SessionID b = sid" using b(2) p assms(4) by (auto simp: other_session_def)
      from b(3) obtain d where d: "pg_PutMessage (cf_uuid cf) (E 3) (message_for cf E r (Some p) b body) (srv_db s1) = (None, d)"
        and q: "enqueue_message cf (E 5) (job_of_message (message_for cf E r (Some p) b body)) (m_JobID (message_for cf E r (Some p) b body))
          (queued_reply (m_ID (message_for cf E r (Some p) b body)) ''Message queued for delivery'') (put_srv_db d s1) = (rep, s')"
        by (auto simp: stored_reply_def)
      have "srv_db s' = d" using enqueue_message_cases [OF q] by auto
      moreover from pg_PutMessage_None [OF d] obtain i t where
        "t_messages d = t_messages (srv_db s) @ [message_row_of i t (c_now (E 3)) (message_for cf E r (Some p) b body)]"
        using s1 by auto
      ultimately show ?thesis using b(1) sid
        by (intro exI [of _ "[message_row_of i t (c_now (E 3)) (message_for cf E r (Some p) b body)]"])
          (auto simp: message_row_of_def message_for_def new_message_def)
    qed
  qed
qed

definition sample_key_srv :: srv where
  "sample_key_srv = put_srv_db (sample_db\<lparr>t_api_keys := [sample_key_row\<lparr>ak_session_id := Some ''other''\<rparr>]\<rparr>) sample_srv"

definition sample_key_send :: request where
  "sample_key_send = sample_request [(''X-Api-Key'', ''secret'')] [] []
     [(''sessionId'', JStr ''main''), (''to'', JStr ''62812''), (''type'', JStr ''text''), (''message'', JStr ''hi'')]"

theorem restricted_key_sends_witness:
  "\<exists>x. snd (requireAuth sample_cfg sample_ctx sample_key_send (sendMessage sample_cfg (\<lambda>_. sample_ctx) sample_key_send) sample_key_srv)
     = sample_key_srv\<lparr>sv_rate := x\<rparr>"
proof -
  let ?s = "requireAuth sample_cfg sample_ctx sample_key_send (sendMessage sample_cfg (\<lambda>_. sample_ctx) sample_key_send) sample_key_srv"
  have "?s = (fst ?s, snd ?s)" by simp
  moreover have "rq_header sample_key_send ''X-Api-Key'' \<noteq> []" by (simp add: sample_key_send_def)
  moreover have "k \<in> set (keys_of sample_cfg (rq_header sample_key_send ''X-Api-Key'') (srv_db sample_key_srv)) \<Longrightarrow>
      ak_session_id k = Some ''other''" for k
    by (auto simp: keys_of_def sample_key_srv_def split: if_splits)
  moreover have "\<exists>b. decode_send sample_key_send = Some b \<and> sb_SessionID b \<noteq> ''other''"
    by (simp add: decode_send_def sample_key_send_def dec_str_def dec_int_def dec_map_def str_field_def int_field_def)
  ultimately show ?thesis
    using restricted_key_sends [of sample_cfg sample_key_send "''other''" sample_key_srv sample_ctx "\<lambda>_. sample_ctx" "fst ?s" "snd ?s"]
    by auto
qed

end
