(* ===== verification/Http_Template.thy ===== *)
theory Http_Template
  imports Http_Base
begin

text \<open>
  \<open>resolveTemplate\<close> of \<open>internal/httpapi/server.go\<close> replaces the placeholders one key after the other, in the
  order in which Go happens to iterate over the map.  A template is read here as a sequence of texts and
  placeholders; the theorem shows that the result is that of replacing all placeholders at once, in
  every order, as long as no value brings a brace of its own; an example shows that the order matters
  otherwise.
\<close>

datatype piece = Lit string | Var string

definition placeholder :: "string \<Rightarrow> string" where
  "placeholder k = ''{{'' @ k @ ''}}''"

fun render_piece :: "piece \<Rightarrow> string" where
  "render_piece (Lit t) = t"
| "render_piece (Var k) = placeholder k"

definition render :: "piece list \<Rightarrow> string" where
  "render ps = concat (map render_piece ps)"

text \<open>No opening brace in a text, no brace at all in a key.\<close>

definition no_open :: "string \<Rightarrow> bool" where
  "no_open t \<longleftrightarrow> CHR ''{'' \<notin> set t"

definition plain_key :: "string \<Rightarrow> bool" where
  "plain_key k \<longleftrightarrow> no_open k \<and> CHR ''}'' \<notin> set k"

fun plain_piece :: "piece \<Rightarrow> bool" where
  "plain_piece (Lit t) = no_open t"
| "plain_piece (Var k) = plain_key k"

text \<open>All placeholders at once: the reference.\<close>

fun subst_piece :: "(string \<rightharpoonup> string) \<Rightarrow> piece \<Rightarrow> piece" where
  "subst_piece m (Lit t) = Lit t"
| "subst_piece m (Var k) = (case m k of None \<Rightarrow> Var k | Some v \<Rightarrow> Lit v)"

lemma render_simps [simp]: "render [] = []" "render (p # ps) = render_piece p @ render ps"
  by (simp_all add: render_def)

lemma replace_literal:
  "no_open t \<Longrightarrow> replace_all (t @ s) (placeholder k) v = t @ replace_all s (placeholder k) v"
  by (induction t) (auto simp: no_open_def placeholder_def)

lemma key_prefix:
  "plain_key k \<Longrightarrow> plain_key k' \<Longrightarrow> has_prefix (k @ ''}}'' @ s) (k' @ ''}}'') \<longleftrightarrow> k = k'"
proof (induction k arbitrary: k')
  case Nil
  then show ?case by (cases k') (auto simp: plain_key_def)
next
  case (Cons c k)
  then show ?case by (cases k') (auto simp: plain_key_def no_open_def)
qed

lemma replace_placeholder:
  assumes "plain_key k" "plain_key k'"
  shows "replace_all (placeholder k @ s) (placeholder k') v
    = (if k = k' then v else placeholder k) @ replace_all s (placeholder k') v"
proof (cases "k = k'")
  case True
  have "has_prefix (placeholder k' @ s) (placeholder k')" by simp
  then show ?thesis using True by (simp add: placeholder_def)
next
  case False
  have no1: "\<not> has_prefix (''{{'' @ k @ ''}}'' @ s) (placeholder k')"
    using False key_prefix [OF assms, of s] by (simp add: placeholder_def)
  have no2: "\<not> has_prefix (''{'' @ k @ ''}}'' @ s) (placeholder k')"
    using assms(1) by (cases k) (auto simp: placeholder_def plain_key_def no_open_def)
  have "no_open (k @ ''}}'')" using assms(1) by (simp add: plain_key_def no_open_def)
  then have "replace_all (k @ ''}}'' @ s) (placeholder k') v = k @ ''}}'' @ replace_all s (placeholder k') v"
    using replace_literal [of "k @ ''}}''" s k' v] by simp
  with no1 no2 False show ?thesis by (simp add: placeholder_def)
qed

lemma replace_render:
  assumes "list_all plain_piece ps" "plain_key k"
  shows "replace_all (render ps) (placeholder k) v = render (map (subst_piece [k \<mapsto> v]) ps)"
  using assms(1)
proof (induction ps)
  case (Cons p ps)
  then show ?case
    by (cases p) (auto simp: replace_literal replace_placeholder assms(2))
qed simp

lemma subst_plain:
  "list_all plain_piece ps \<Longrightarrow> no_open v \<Longrightarrow> list_all plain_piece (map (subst_piece [k \<mapsto> v]) ps)"
proof (induction ps)
  case (Cons p ps)
  then show ?case by (cases p) auto
qed simp

lemma subst_twice:
  "subst_piece m (subst_piece [k \<mapsto> v] p) = subst_piece (m(k \<mapsto> v)) p"
  by (cases p) auto

lemma replace_keys:
  assumes "list_all plain_piece ps" "\<And>k. k \<in> set ks \<Longrightarrow> plain_key k \<and> no_open (f k)"
  shows "fold (\<lambda>k b. replace_all b (''{{'' @ k @ ''}}'') (f k)) ks (render ps)
    = render (map (subst_piece (\<lambda>k. if k \<in> set ks then Some (f k) else None)) ps)"
  using assms
proof (induction ks arbitrary: ps)
  case Nil
  have "subst_piece (\<lambda>k. None) p = p" for p by (cases p) auto
  then show ?case by simp
next
  case (Cons k ks)
  let ?m = "\<lambda>x. if x \<in> set ks then Some (f x) else None"
  have "replace_all (render ps) (placeholder k) (f k) = render (map (subst_piece [k \<mapsto> f k]) ps)"
    using Cons.prems by (intro replace_render) auto
  moreover have "list_all plain_piece (map (subst_piece [k \<mapsto> f k]) ps)"
    using Cons.prems by (intro subst_plain) auto
  moreover have "?m(k \<mapsto> f k) = (\<lambda>x. if x \<in> set (k # ks) then Some (f x) else None)" by (auto simp: fun_eq_iff)
  ultimately show ?case
    using Cons.IH [of "map (subst_piece [k \<mapsto> f k]) ps"] Cons.prems(2)
    by (simp add: placeholder_def subst_twice comp_def)
qed

text \<open>
  C30.  \<open>resolveTemplate\<close> fills every placeholder whose key is among the variables with its value, leaves
  the other placeholders and the text as they are, and gives the same result for every order in which Go
  may iterate over the variables, provided that the keys have no braces and that neither the values nor the text
  between the placeholders has an opening brace.  Without the last two conditions the result can depend on the order:
  see \<open>template_order_matters\<close>.
\<close>

theorem template_resolved:
  assumes "fair_order c" "list_all plain_piece ps" "\<And>k v. (k, v) \<in> set vars \<Longrightarrow> plain_key k \<and> no_open v"
  shows "resolveTemplate (c_order c) (render ps) vars = render (map (subst_piece (map_of vars)) ps)"
proof -
  have keys: "set (c_order c (map fst vars)) = fst ` set vars"
    using assms(1) unfolding fair_order_def by (metis set_map set_mset_mset)
  have val: "k \<in> fst ` set vars \<Longrightarrow> map_of vars k = Some (the (map_of vars k))" for k
    by (metis map_of_eq_None_iff option.collapse)
  then have "plain_key k \<and> no_open (the (map_of vars k))" if "k \<in> set (c_order c (map fst vars))" for k
    using that assms(3) keys by (metis map_of_SomeD)
  then have "resolveTemplate (c_order c) (render ps) vars
      = render (map (subst_piece (\<lambda>k. if k \<in> fst ` set vars then Some (the (map_of vars k)) else None)) ps)"
    unfolding resolveTemplate_def using replace_keys [OF assms(2), of "c_order c (map fst vars)"] keys by simp
  moreover have "(\<lambda>k. if k \<in> fst ` set vars then Some (the (map_of vars k)) else None) = map_of vars"
    using val by (auto simp: fun_eq_iff) (metis map_of_eq_None_iff)
  ultimately show ?thesis by simp
qed

theorem template_resolved_witness:
  "resolveTemplate (c_order sample_ctx) ''Hi {{name}}, {{x}}'' [(''name'', ''Budi'')] = ''Hi Budi, {{x}}''"
proof -
  let ?ps = "[Lit ''Hi '', Var ''name'', Lit '', '', Var ''x'']"
  have "resolveTemplate (c_order sample_ctx) (render ?ps) [(''name'', ''Budi'')]
      = render (map (subst_piece (map_of [(''name'', ''Budi'')])) ?ps)"
    by (rule template_resolved) (auto simp: no_open_def plain_key_def)
  then show ?thesis by (simp add: placeholder_def)
qed

text \<open>
  With a value that holds a placeholder, or with a brace in the text next to a placeholder, the two orders of iteration
  differ.
\<close>

lemma template_order_matters:
  "resolveTemplate (\<lambda>ks. ks) ''{{a}}'' [(''a'', ''{{b}}''), (''b'', ''1'')] = ''1''"
  "resolveTemplate rev ''{{a}}'' [(''a'', ''{{b}}''), (''b'', ''1'')] = ''{{b}}''"
  "resolveTemplate (\<lambda>ks. ks) ''{{{a}}{b}}'' [(''a'', []), (''b'', ''1'')] = ''1''"
  "resolveTemplate rev ''{{{a}}{b}}'' [(''a'', []), (''b'', ''1'')] = ''{{b}}''"
  by (simp_all add: resolveTemplate_def)

end
