(* ===== verification/Webhook_Flow.thy ===== *)
theory Webhook_Flow
  imports Http_Config
begin

text \<open>
  A webhook's secret from the request that sets it to the requests that are signed with it: \<open>createWebhook\<close> and
  \<open>updateWebhook\<close> of \<open>internal/httpapi/server.go\<close> encrypt it (\<open>internal/secret\<close>), the database keeps the cipher
  text, and \<open>Dispatch\<close> of \<open>internal/webhook\<close> decrypts it to sign.
\<close>

section \<open>The key of a request\<close>

text \<open>The request a receiver with the plain secret expects.\<close>

definition expected_request :: "hook_params \<Rightarrow> string \<Rightarrow> string \<Rightarrow> string \<Rightarrow> json \<Rightarrow> http_request" where
  "expected_request P url secret event payload = \<lparr>rq_url = url, rq_event = event,
     rq_signature = hp_hmac P secret (hp_json P payload), rq_body = hp_json P payload\<rparr>"

lemma encrypted_signs:
  assumes "cipher_lawful (hp_cipher P)" "length (c_uuid c 0) = 12" "Encrypt (hp_cipher P) c secret (hp_key P) = Inr enc"
  shows "signed_request P url event (hp_json P payload) enc = expected_request P url secret event payload"
  using secret_round_trip [OF assms] by (simp add: signed_request_def expected_request_def sign_def)

lemma encrypted_empty:
  assumes "length (c_uuid c 0) = 12" "Encrypt G c secret key = Inr enc"
  shows "enc = [] \<longleftrightarrow> secret = []"
proof -
  have "b64_encode (c_uuid c 0 @ t) \<noteq> []" for t
    using assms(1) by (cases "c_uuid c 0 @ t" rule: b64_encode.cases) auto
  with assms(2) show ?thesis by (auto simp: Encrypt_def Let_def split: if_splits option.splits)
qed

lemma dispatch_reaches:
  assumes "no_fault c" "inj (c_uuid c)" "\<And>j. c_uuid c j \<notin> dr_id ` set (t_webhook_deliveries (hk_db h))"
    and "\<And>x. x \<in> set (t_webhooks (hk_db h)) \<Longrightarrow> wr_is_active x \<Longrightarrow> hook_matches event payload x \<Longrightarrow> hp_url_valid P (wr_url x)"
    and "w \<in> set (t_webhooks (hk_db h))" "wr_is_active w" "hook_matches event payload w"
  shows "hook_request P event payload w \<in> set (drop (length (hk_out h)) (hk_out (snd (Webhook_Dispatch P c event payload h))))"
proof -
  have "\<exists>h'. dispatch_rows P c event payload 0 (filter wr_is_active (t_webhooks (hk_db h))) h = (None, h')
    \<and> hk_out h' = hk_out h @ map (hook_request P event payload) (filter (hook_matches event payload) (filter wr_is_active (t_webhooks (hk_db h))))
    \<and> t_webhook_deliveries (hk_db h') = t_webhook_deliveries (hk_db h) @ map (logged_delivery c event payload)
        (enumerate 0 (filter (hook_matches event payload) (filter wr_is_active (t_webhooks (hk_db h)))))"
    by (rule dispatch_rows_log [OF assms(1,2)]) (use assms(3,4) in auto)
  then show ?thesis using assms(1,5-7) by (auto simp: Webhook_Dispatch_def)
qed

section \<open>The handlers\<close>

lemma createWebhook_row:
  assumes "reply_status (fst (createWebhook cf E r p s)) = Some 201"
  shows "\<exists>b enc w. decode_webhook r = Some b \<and> encrypt_secret cf (E 0) b = Inr enc
    \<and> srv_db (snd (createWebhook cf E r p s)) = (srv_db s)\<lparr>t_webhooks := t_webhooks (srv_db s) @ [w]\<rparr>
    \<and> wr_url w = wb_URL b \<and> wr_events w = wb_Events b \<and> wr_session_ids w = wb_SessionIDs b
    \<and> wr_is_active w = (wb_IsActive b \<noteq> Some False) \<and> wr_secret_encrypted w = Some enc"
proof -
  from assms obtain b enc where b: "decode_webhook r = Some b" "encrypt_secret cf (E 0) b = Inr enc"
    by (auto simp: createWebhook_def Let_def split: option.splits sum.splits)
  with assms have "cf_db cf" "c_fault (E 1) 0 = None" "c_gen (E 1) \<notin> wr_id ` set (t_webhooks (srv_db s))"
    by (auto simp: createWebhook_def db_exec_def insert_webhook_def Let_def split: option.splits if_splits)
  with b show ?thesis
    by (intro exI [of _ b] exI [of _ enc] exI [of _ "\<lparr>wr_id = c_gen (E 1), wr_url = wb_URL b, wr_events = wb_Events b,
        wr_secret_encrypted = Some enc, wr_session_ids = wb_SessionIDs b, wr_api_key_id = None,
        wr_is_active = (case wb_IsActive b of None \<Rightarrow> True | Some a \<Rightarrow> a), wr_created_at = c_now (E 1), wr_updated_at = c_now (E 1)\<rparr>"])
      (simp add: createWebhook_def db_exec_def insert_webhook_def Let_def split: option.split)
qed

lemma updateWebhook_row:
  assumes "reply_status (fst (updateWebhook cf E r p s)) = Some 200"
  shows "\<exists>b enc w. decode_webhook r = Some b \<and> encrypt_secret cf (E 0) b = Inr enc
    \<and> w \<in> set (t_webhooks (srv_db s)) \<and> cf_uuid cf (rq_param r) = Some (wr_id w)
    \<and> srv_db (snd (updateWebhook cf E r p s)) = (srv_db s)\<lparr>t_webhooks :=
        update_where (\<lambda>x. wr_id x = wr_id w) (webhook_update_row (c_now (E 1)) b enc) (t_webhooks (srv_db s))\<rparr>"
proof -
  from assms obtain b enc where b: "decode_webhook r = Some b" "encrypt_secret cf (E 0) b = Inr enc"
    by (auto simp: updateWebhook_def split: option.splits sum.splits)
  have "cf_db cf" using assms b by (cases "cf_db cf") (auto simp: updateWebhook_def db_exec_def)
  moreover have "c_fault (E 1) 0 = None"
    using assms b by (cases "c_fault (E 1) 0") (auto simp: updateWebhook_def db_exec_def split: if_splits)
  moreover obtain u where u: "cf_uuid cf (rq_param r) = Some u"
    using assms b by (cases "cf_uuid cf (rq_param r)")
      (auto simp: updateWebhook_def db_exec_def update_webhook_def split: if_splits option.splits)
  moreover obtain w where w: "find (\<lambda>w. wr_id w = u) (t_webhooks (srv_db s)) = Some w"
    using assms b u by (cases "find (\<lambda>w. wr_id w = u) (t_webhooks (srv_db s))")
      (auto simp: updateWebhook_def db_exec_def update_webhook_def split: if_splits option.splits)
  moreover have "w \<in> set (t_webhooks (srv_db s))" "wr_id w = u" using w by (auto dest: find_SomeD)
  ultimately show ?thesis using b by (intro exI [of _ b] exI [of _ enc] exI [of _ w]) (simp add: updateWebhook_def db_exec_def update_webhook_def)
qed

section \<open>From the secret to the signature\<close>

text \<open>
  A webhook is served under a secret: every request to it is the one a receiver with that secret expects, and in the
  database \<open>d\<close> a dispatch without faults sends it when the webhook is active and matches.
\<close>

definition served_under :: "hook_params \<Rightarrow> db \<Rightarrow> webhook_row \<Rightarrow> string \<Rightarrow> string \<Rightarrow> bool" where
  "served_under P d w url secret \<longleftrightarrow>
     (\<forall>event payload. hook_request P event payload w = expected_request P url secret event payload)
     \<and> (\<forall>c event payload out. no_fault c \<longrightarrow> inj (c_uuid c) \<longrightarrow> (\<forall>j. c_uuid c j \<notin> dr_id ` set (t_webhook_deliveries d)) \<longrightarrow>
          (\<forall>x \<in> set (t_webhooks d). hp_url_valid P (wr_url x)) \<longrightarrow> wr_is_active w \<longrightarrow> hook_matches event payload w \<longrightarrow>
          expected_request P url secret event payload
            \<in> set (drop (length out) (hk_out (snd (Webhook_Dispatch P c event payload \<lparr>hk_db = d, hk_out = out\<rparr>)))))"

lemma served_underI:
  assumes "\<And>event payload. hook_request P event payload w = expected_request P url secret event payload" "w \<in> set (t_webhooks d)"
  shows "served_under P d w url secret"
  unfolding served_under_def
proof (intro conjI allI impI)
  fix c event payload out
  assume "no_fault c" "inj (c_uuid c)" "\<forall>j. c_uuid c j \<notin> dr_id ` set (t_webhook_deliveries d)"
    "\<forall>x \<in> set (t_webhooks d). hp_url_valid P (wr_url x)" "wr_is_active w" "hook_matches event payload w"
  then show "expected_request P url secret event payload
      \<in> set (drop (length out) (hk_out (snd (Webhook_Dispatch P c event payload \<lparr>hk_db = d, hk_out = out\<rparr>))))"
    using dispatch_reaches [of c "\<lparr>hk_db = d, hk_out = out\<rparr>" event payload P w] assms by simp
qed (rule assms(1))

text \<open>What an update leaves of the signature.\<close>

lemma updated_request:
  assumes "cipher_lawful (hp_cipher (cf_hooks cf))" "length (c_uuid c 0) = 12" "encrypt_secret cf c b = Inr enc"
  shows "trim_space (wb_Secret b) = [] \<Longrightarrow> hook_request (cf_hooks cf) event payload (webhook_update_row now b enc w)
      = (hook_request (cf_hooks cf) event payload w)\<lparr>rq_url := wb_URL b\<rparr>"
    and "trim_space (wb_Secret b) \<noteq> [] \<Longrightarrow> hook_request (cf_hooks cf) event payload (webhook_update_row now b enc w)
      = expected_request (cf_hooks cf) (wb_URL b) (trim_space (wb_Secret b)) event payload"
  using encrypted_empty [OF assms(2) assms(3) [unfolded encrypt_secret_def]] encrypted_signs [OF assms(1,2) assms(3) [unfolded encrypt_secret_def]]
  by (simp_all add: hook_request_def webhook_update_row_def signed_request_def coalesce_def)

text \<open>
  C37.  A webhook's secret.  After \<open>createWebhook\<close> answered 201 the new webhook is the last row, it matches the events and
  sessions of the body, and it is served under the secret of the body, although only its cipher text is stored.  After
  \<open>updateWebhook\<close> answered 200 the named webhook is served under the new secret; when the body has none, its requests keep
  their signature; and no other webhook changed.
\<close>

theorem webhook_secret_signs:
  assumes "cipher_lawful (hp_cipher (cf_hooks cf))" "length (c_uuid (E 0) 0) = 12" "decode_webhook r = Some b"
  shows "(\<forall>rep s'. createWebhook cf E r p s = (rep, s') \<longrightarrow> reply_status rep = Some 201 \<longrightarrow>
      (\<exists>w. t_webhooks (srv_db s') = t_webhooks (srv_db s) @ [w] \<and> (wr_is_active w \<longleftrightarrow> wb_IsActive b \<noteq> Some False)
        \<and> (\<forall>event payload. hook_matches event payload w \<longleftrightarrow> event \<in> set (wb_Events b)
            \<and> scopeMatches (case wb_SessionIDs b of None \<Rightarrow> [] | Some xs \<Rightarrow> xs) (jfield ''sessionId'' payload))
        \<and> served_under (cf_hooks cf) (srv_db s') w (wb_URL b) (trim_space (wb_Secret b))))
    \<and> (\<forall>rep s'. updateWebhook cf E r p s = (rep, s') \<longrightarrow> reply_status rep = Some 200 \<longrightarrow>
      (\<exists>w f. w \<in> set (t_webhooks (srv_db s)) \<and> cf_uuid cf (rq_param r) = Some (wr_id w)
        \<and> t_webhooks (srv_db s') = update_where (\<lambda>x. wr_id x = wr_id w) f (t_webhooks (srv_db s))
        \<and> (if trim_space (wb_Secret b) = []
           then \<forall>event payload. hook_request (cf_hooks cf) event payload (f w) = (hook_request (cf_hooks cf) event payload w)\<lparr>rq_url := wb_URL b\<rparr>
           else served_under (cf_hooks cf) (srv_db s') (f w) (wb_URL b) (trim_space (wb_Secret b)))))"
proof (intro conjI allI impI)
  fix rep s'
  assume run: "createWebhook cf E r p s = (rep, s')" and "reply_status rep = Some 201"
  with createWebhook_row [of cf E r p s] assms(3) obtain enc w where enc: "encrypt_secret cf (E 0) b = Inr enc"
    and s': "srv_db s' = (srv_db s)\<lparr>t_webhooks := t_webhooks (srv_db s) @ [w]\<rparr>"
    and w: "wr_url w = wb_URL b" "wr_events w = wb_Events b" "wr_session_ids w = wb_SessionIDs b"
      "wr_is_active w = (wb_IsActive b \<noteq> Some False)" "wr_secret_encrypted w = Some enc"
    by auto
  have "hook_request (cf_hooks cf) event payload w = expected_request (cf_hooks cf) (wb_URL b) (trim_space (wb_Secret b)) event payload"
    for event payload
    using encrypted_signs [OF assms(1,2) enc [unfolded encrypt_secret_def]] by (simp add: hook_request_def w coalesce_def)
  then have "served_under (cf_hooks cf) (srv_db s') w (wb_URL b) (trim_space (wb_Secret b))" by (rule served_underI) (simp add: s')
  then show "\<exists>w. t_webhooks (srv_db s') = t_webhooks (srv_db s) @ [w] \<and> (wr_is_active w \<longleftrightarrow> wb_IsActive b \<noteq> Some False)
        \<and> (\<forall>event payload. hook_matches event payload w \<longleftrightarrow> event \<in> set (wb_Events b)
            \<and> scopeMatches (case wb_SessionIDs b of None \<Rightarrow> [] | Some xs \<Rightarrow> xs) (jfield ''sessionId'' payload))
        \<and> served_under (cf_hooks cf) (srv_db s') w (wb_URL b) (trim_space (wb_Secret b))"
    by (intro exI [of _ w]) (simp add: s' w hook_matches_def)
next
  fix rep s'
  assume run: "updateWebhook cf E r p s = (rep, s')" and "reply_status rep = Some 200"
  with updateWebhook_row [of cf E r p s] assms(3) obtain enc w where enc: "encrypt_secret cf (E 0) b = Inr enc"
    and w: "w \<in> set (t_webhooks (srv_db s))" "cf_uuid cf (rq_param r) = Some (wr_id w)"
    and s': "srv_db s' = (srv_db s)\<lparr>t_webhooks :=
        update_where (\<lambda>x. wr_id x = wr_id w) (webhook_update_row (c_now (E 1)) b enc) (t_webhooks (srv_db s))\<rparr>"
    by auto
  let ?f = "webhook_update_row (c_now (E 1)) b enc" and ?secret = "trim_space (wb_Secret b)"
  note req = updated_request [OF assms(1,2) enc, where now = "c_now (E 1)" and w = w]
  have new: "served_under (cf_hooks cf) (srv_db s') (?f w) (wb_URL b) ?secret" if "?secret \<noteq> []"
    by (rule served_underI [OF req(2) [OF that]]) (use w(1) in \<open>auto simp: s' set_update_where\<close>)
  show "\<exists>w f. w \<in> set (t_webhooks (srv_db s)) \<and> cf_uuid cf (rq_param r) = Some (wr_id w)
        \<and> t_webhooks (srv_db s') = update_where (\<lambda>x. wr_id x = wr_id w) f (t_webhooks (srv_db s))
        \<and> (if ?secret = []
           then \<forall>event payload. hook_request (cf_hooks cf) event payload (f w) = (hook_request (cf_hooks cf) event payload w)\<lparr>rq_url := wb_URL b\<rparr>
           else served_under (cf_hooks cf) (srv_db s') (f w) (wb_URL b) ?secret)"
    using w req(1) new by (intro exI [of _ w] exI [of _ ?f]) (simp add: s')
qed

text \<open>A webhook with a secret, from the request to the signature.\<close>

definition sample_hook_request :: request where
  "sample_hook_request = sample_request [] [] [] [(''url'', JStr ''https://x''), (''events'', JArr [JStr ''message.sent'']), (''secret'', JStr ''whsec'')]"

definition sample_nonce :: ctx where
  "sample_nonce = sample_ctx\<lparr>c_uuid := (\<lambda>_. ''0123456789ab'')\<rparr>"

theorem webhook_secret_signs_witness:
  "\<exists>w. t_webhooks (srv_db (snd (createWebhook sample_cfg (\<lambda>_. sample_nonce) sample_hook_request (Some sample_user) sample_srv))) = [w]
    \<and> rq_signature (hook_request (cf_hooks sample_cfg) ''message.sent'' sample_payload w) = ''whsec|{}''"
proof -
  let ?run = "createWebhook sample_cfg (\<lambda>_. sample_nonce) sample_hook_request (Some sample_user) sample_srv"
  let ?b = "\<lparr>wb_URL = ''https://x'', wb_Events = [''message.sent''], wb_Secret = ''whsec'', wb_SessionIDs = None, wb_IsActive = None\<rparr>"
  have t: "trim_space ''whsec'' = ''whsec''" "trim_space ''https://x'' \<noteq> []" by code_simp+
  then have b: "decode_webhook sample_hook_request = Some ?b"
    by (simp add: decode_webhook_def sample_hook_request_def decode_def sample_request_def dec_str_def dec_slice_def dec_bool_ptr_def str_field_def)
  have r: "reply_status (fst ?run) = Some 201" by (simp add: createWebhook_def b encrypt_secret_def Encrypt_def aes_key_error_def
        db_exec_def insert_webhook_def sample_cfg_def sample_hook_params_def sample_cipher_def sample_nonce_def Let_def t(1))
  have l: "cipher_lawful (hp_cipher (cf_hooks sample_cfg))" "length (c_uuid sample_nonce 0) = 12"
    using sample_cipher_lawful by (simp_all add: sample_cfg_def sample_hook_params_def sample_nonce_def)
  from webhook_secret_signs [OF l(1), of "\<lambda>_. sample_nonce" sample_hook_request ?b "Some sample_user" sample_srv] l(2) b r
  obtain w where w: "t_webhooks (srv_db (snd ?run)) = t_webhooks (srv_db sample_srv) @ [w]"
    "served_under (cf_hooks sample_cfg) (srv_db (snd ?run)) w ''https://x'' ''whsec''"
    by (metis prod.collapse webhook_body.select_convs(1,3) t(1))
  have "t_webhooks (srv_db sample_srv) = []" by code_simp
  with w show ?thesis
    by (simp add: served_under_def expected_request_def sample_cfg_def sample_hook_params_def)
qed

end
