(* ===== verification/Thread_Model.thy ===== *)
theory Thread_Model
  imports Gateway_Prelude
begin

text \<open>
  Requests that run at the same time.  A thread is a handler cut at its statements: each \<open>Call\<close> is one
  statement of the database, of the session manager or of the queue, which is atomic, and what comes after it
  depends on its result.  \<open>run\<close> executes a thread alone; \<open>pool_step\<close> interleaves the statements of any number
  of threads with each other, with new requests and with the steps of an environment.  The locale \<open>parallel\<close>
  is the rely-guarantee argument: when the environment and every statement of every thread keep an invariant
  and respect a common relation, so does every interleaving.
\<close>

section \<open>Threads\<close>

datatype ('l, 'r, 's) thread = Done 'r | Call 'l "'s \<Rightarrow> ('l, 'r, 's) thread \<times> 's"

primrec run :: "('l, 'r, 's) thread \<Rightarrow> 's \<Rightarrow> 'r \<times> 's" where
  "run (Done r) = (\<lambda>s. (r, s))"
| "run (Call l f) = (\<lambda>s. case (map_prod run id \<circ> f) s of (k, s') \<Rightarrow> k s')"

lemma run_Done [simp]: "run (Done r) s = (r, s)"
  by simp

lemma run_Call [simp]: "run (Call l f) s = (case f s of (t, s') \<Rightarrow> run t s')"
  by (simp add: split_beta)

declare run.simps [simp del]

text \<open>At most \<open>n\<close> statements on every path.\<close>

fun calls_le :: "nat \<Rightarrow> ('l, 'r, 's) thread \<Rightarrow> bool" where
  "calls_le n (Done r) = True"
| "calls_le 0 (Call l f) = False"
| "calls_le (Suc n) (Call l f) = (\<forall>s. calls_le n (fst (f s)))"

lemma calls_le_mono: "calls_le n t \<Longrightarrow> n \<le> m \<Longrightarrow> calls_le m t"
proof (induction n t arbitrary: m rule: calls_le.induct)
  case (3 n l f)
  then show ?case by (cases m) auto
qed auto

section \<open>Interleaving\<close>

inductive pool_step ::
  "(('l, 'r, 's) thread \<Rightarrow> bool) \<Rightarrow> ('s \<Rightarrow> 's \<Rightarrow> bool) \<Rightarrow> ('l, 'r, 's) thread list \<times> 's \<Rightarrow> ('l, 'r, 's) thread list \<times> 's \<Rightarrow> bool"
  for starts env where
  Statement: "i < length ts \<Longrightarrow> ts ! i = Call l f \<Longrightarrow> f s = (t, s') \<Longrightarrow> pool_step starts env (ts, s) (ts[i := t], s')"
| Start: "starts t \<Longrightarrow> pool_step starts env (ts, s) (ts @ [t], s)"
| Other: "env s s' \<Longrightarrow> pool_step starts env (ts, s) (ts, s')"

lemma pool_stepE:
  assumes "pool_step starts env (ts, s) (ts', s')"
  obtains (Statement) i l f t where "i < length ts" "ts ! i = Call l f" "f s = (t, s')" "ts' = ts[i := t]"
  | (Start) t where "starts t" "ts' = ts @ [t]" "s' = s"
  | (Other) "env s s'" "ts' = ts"
  using assms by (auto elim: pool_step.cases)

text \<open>A thread that is left alone runs to its end.\<close>

lemma pool_run: "(pool_step starts env)\<^sup>*\<^sup>* (ts @ [t], s) (ts @ [Done (fst (run t s))], snd (run t s))"
proof (induction t arbitrary: s)
  case (Call l f)
  obtain t s' where f: "f s = (t, s')" by fastforce
  have "pool_step starts env (ts @ [Call l f], s) ((ts @ [Call l f])[length ts := t], s')"
    using f by (intro pool_step.Statement [of "length ts" _ l f]) auto
  moreover have "t \<in> Basic_BNFs.fsts (f s)" using f by (simp add: fsts.intros)
  then have "(pool_step starts env)\<^sup>*\<^sup>* (ts @ [t], s') (ts @ [Done (fst (run t s'))], snd (run t s'))"
    by (rule Call.IH [OF rangeI])
  ultimately show ?case using f by (simp add: converse_rtranclp_into_rtranclp)
qed simp

section \<open>Rely and guarantee\<close>

text \<open>
  \<open>complies I G t s\<close>: from state \<open>s\<close> on, whatever steps of \<open>G\<close> the others take in between, each statement of
  \<open>t\<close> keeps \<open>I\<close> and is a step of \<open>G\<close> itself.
\<close>

inductive complies :: "('s \<Rightarrow> bool) \<Rightarrow> ('s \<Rightarrow> 's \<Rightarrow> bool) \<Rightarrow> ('l, 'r, 's) thread \<Rightarrow> 's \<Rightarrow> bool" for I G where
  Done: "complies I G (Done r) s"
| Call: "(\<And>s'. G\<^sup>*\<^sup>* s s' \<Longrightarrow> I s' \<Longrightarrow> I (snd (f s')))
    \<Longrightarrow> (\<And>s'. G\<^sup>*\<^sup>* s s' \<Longrightarrow> I s' \<Longrightarrow> G s' (snd (f s')))
    \<Longrightarrow> (\<And>s'. G\<^sup>*\<^sup>* s s' \<Longrightarrow> I s' \<Longrightarrow> complies I G (fst (f s')) (snd (f s')))
    \<Longrightarrow> complies I G (Call l f) s"

inductive_cases complies_CallE: "complies I G (Call l f) s"

lemma complies_later: "complies I G t s \<Longrightarrow> G\<^sup>*\<^sup>* s s' \<Longrightarrow> complies I G t s'"
proof (induction arbitrary: s' rule: complies.induct)
  case (Call s f l)
  then show ?case by (intro complies.Call) (meson rtranclp_trans)+
qed (rule complies.Done)

lemma complies_call:
  assumes "complies I G (Call l f) s" "I s" "f s = (t, s')"
  shows "I s' \<and> G s s' \<and> complies I G t s'"
  using assms by (elim complies_CallE) (metis fst_conv snd_conv rtranclp.rtrancl_refl)

locale parallel =
  fixes I :: "'s \<Rightarrow> bool" and G env :: "'s \<Rightarrow> 's \<Rightarrow> bool" and starts :: "('l, 'r, 's) thread \<Rightarrow> bool"
  assumes G_refl: "G s s"
    and env_ok: "I s \<Longrightarrow> env s s' \<Longrightarrow> I s' \<and> G s s'"
    and starts_comply: "starts t \<Longrightarrow> complies I G t s"
begin

lemma pool_step_ok:
  assumes "pool_step starts env (ts, s) (ts', s')" "I s" "list_all (\<lambda>t. complies I G t s) ts"
  shows "I s' \<and> G s s' \<and> list_all (\<lambda>t. complies I G t s') ts'"
  using assms(1)
proof (cases rule: pool_stepE)
  case (Statement i l f t)
  then have "complies I G (Call l f) s" using assms(3) by (auto simp: list_all_length)
  then have t: "I s' \<and> G s s' \<and> complies I G t s'" using complies_call assms(2) Statement(3) by metis
  then have "G\<^sup>*\<^sup>* s s'" by blast
  then show ?thesis using Statement assms(3) t
    by (auto simp: list_all_length nth_list_update intro: complies_later)
next
  case (Start t)
  then show ?thesis using assms(2,3) G_refl starts_comply by auto
next
  case Other
  then have "I s' \<and> G s s'" using env_ok [OF assms(2)] by blast
  moreover from this have "G\<^sup>*\<^sup>* s s'" by blast
  ultimately show ?thesis using Other assms(3) by (auto simp: list_all_iff intro: complies_later)
qed

lemma pool_steps_ok:
  assumes "(pool_step starts env)\<^sup>*\<^sup>* (ts, s) (ts', s')" "I s" "list_all (\<lambda>t. complies I G t s) ts"
  shows "I s' \<and> G\<^sup>*\<^sup>* s s' \<and> list_all (\<lambda>t. complies I G t s') ts'"
  using assms
proof (induction "(ts, s)" arbitrary: ts s rule: converse_rtranclp_induct)
  case (step q)
  obtain ts1 s1 where q: "q = (ts1, s1)" by (cases q)
  with step.hyps(1) step.prems have "I s1 \<and> G s s1 \<and> list_all (\<lambda>t. complies I G t s1) ts1"
    using pool_step_ok by blast
  then show ?case using step.hyps(3) [OF q] converse_rtranclp_into_rtranclp [of G s s1 s'] by blast
qed simp

end

end
