(* ===== verification/Http_Threads.thy ===== *)
theory Http_Threads
  imports Gateway_System Thread_Model
begin

text \<open>
  The requests and tasks that change messages, cut at their statements: \<open>sendMessage\<close>, \<open>resendMessage\<close>,
  \<open>deleteMessage\<close> and \<open>deleteSession\<close> of \<open>internal/httpapi/server.go\<close> and the task handler of
  \<open>internal/queue/queue.go\<close>.  Run without interference each thread does exactly what the handler of the
  same name does.  \<open>Session_Threads\<close> adds the handlers of sessions; the theories after it run them concurrently.
\<close>

section \<open>Statements\<close>

text \<open>What a thread is about to do.  A transaction is one statement.\<close>

datatype stmt = SessionQuery | TemplateQuery | KeyQuery | MessageTx | KeyQueryAgain | EnqueueTask
  | MessageQuery | MessageDelete | CountQuery | ClientLogout | SessionDelete | SessionEvent
  | SessionPut | SessionUpdate | ClientCreate | ClientDisconnect | ClientDrop
  | LimiterQuery | LimiterCheck | ClientLookup | Send | RecordOutcome | StatusUpdate | JobUpdate | Publish

text \<open>A request ends with its reply, a task with the error its handler returned.\<close>

datatype outcome = Replied reply | Returned_err "err option"

type_synonym srv_thread = "(stmt, outcome, srv) thread"

abbreviation answer :: "reply \<Rightarrow> srv_thread" where
  "answer rep \<equiv> Done (Replied rep)"

definition query_t :: "stmt \<Rightarrow> srv_cfg \<Rightarrow> ctx \<Rightarrow> (db \<Rightarrow> err + 'a) \<Rightarrow> (err + 'a \<Rightarrow> srv_thread) \<Rightarrow> srv_thread" where
  "query_t l cf c q k = (if \<not> cf_db cf then answer Crash
     else Call l (\<lambda>s. (k (case c_fault c 0 of Some e \<Rightarrow> Inl e | None \<Rightarrow> q (srv_db s)), s)))"

definition exec_t :: "stmt \<Rightarrow> srv_cfg \<Rightarrow> ctx \<Rightarrow> (db \<Rightarrow> (err + 'a) \<times> db) \<Rightarrow> (err + 'a \<Rightarrow> srv_thread) \<Rightarrow> srv_thread" where
  "exec_t l cf c q k = (if \<not> cf_db cf then answer Crash
     else Call l (\<lambda>s. case (case c_fault c 0 of Some e \<Rightarrow> (Inl e, srv_db s) | None \<Rightarrow> q (srv_db s)) of
       (r, d) \<Rightarrow> (k r, put_srv_db d s)))"

definition put_t :: "srv_cfg \<Rightarrow> ctx \<Rightarrow> message \<Rightarrow> (err option \<Rightarrow> srv_thread) \<Rightarrow> srv_thread" where
  "put_t cf c v k = Call MessageTx (\<lambda>s. case PutMessage (srv_store cf) c v s of (r, s') \<Rightarrow> (k r, s'))"

definition enqueue_t :: "srv_cfg \<Rightarrow> ctx \<Rightarrow> message_job \<Rightarrow> string \<Rightarrow> reply \<Rightarrow> srv_thread" where
  "enqueue_t cf c job jobID ok = (case srv_enqueue cf of None \<Rightarrow> answer ok
     | Some enqueue \<Rightarrow> Call EnqueueTask (\<lambda>s. case enqueue c job jobID s of
         (Some e, s1) \<Rightarrow> (answer (writeError 503 ''message queue unavailable''), s1) | (None, s1) \<Rightarrow> (answer ok, s1)))"

section \<open>Messages\<close>

definition send_again_t :: "srv_cfg \<Rightarrow> (nat \<Rightarrow> ctx) \<Rightarrow> principal option \<Rightarrow> string \<Rightarrow> err \<Rightarrow> srv_thread" where
  "send_again_t cf E p key e = query_t KeyQueryAgain cf (E 4) (idem_row (scope_of p) (hashString cf key))
     (\<lambda>res. case res of Inr m \<Rightarrow> answer (already_queued m) | Inl _ \<Rightarrow> answer (writeError 500 (err_text e)))"

definition send_new_t :: "srv_cfg \<Rightarrow> (nat \<Rightarrow> ctx) \<Rightarrow> principal option \<Rightarrow> send_body \<Rightarrow> string \<Rightarrow> srv_thread" where
  "send_new_t cf E p b key =
     (let v = new_message b (randomID cf (E 6)) (c_now (E 6)) key (scope_of p) (hashString cf key) in
      put_t cf (E 3) v (\<lambda>r. case r of
        Some e \<Rightarrow>
          (if key \<noteq> [] \<and> scope_of p \<noteq> [] then send_again_t cf E p key e else answer (writeError 500 (err_text e)))
      | None \<Rightarrow> enqueue_t cf (E 5) (job_of_message v) (m_JobID v)
          (queued_reply (m_ID v) ''Message queued for delivery'')))"

definition send_resolved_t :: "srv_cfg \<Rightarrow> (nat \<Rightarrow> ctx) \<Rightarrow> principal option \<Rightarrow> send_body \<Rightarrow> string \<Rightarrow> srv_thread" where
  "send_resolved_t cf E p b key =
     (if key \<noteq> [] \<and> cf_db cf \<and> scope_of p \<noteq> []
      then query_t KeyQuery cf (E 2) (idem_row (scope_of p) (hashString cf key))
        (\<lambda>res. case res of Inr m \<Rightarrow> answer (already_queued m) | Inl _ \<Rightarrow> send_new_t cf E p b key)
      else send_new_t cf E p b key)"

definition send_template_t :: "srv_cfg \<Rightarrow> (nat \<Rightarrow> ctx) \<Rightarrow> principal option \<Rightarrow> send_body \<Rightarrow> string \<Rightarrow> srv_thread" where
  "send_template_t cf E p b key = query_t TemplateQuery cf (E 1) (template_body cf (sb_TemplateID b))
     (\<lambda>res. case res of Inl e \<Rightarrow> answer (writeError 404 ''Template not found'')
       | Inr template \<Rightarrow> send_resolved_t cf E p
           (b\<lparr>sb_Message := resolveTemplate (c_order (E 1)) template (sb_Variables b)\<rparr>) key)"

definition sendMessage_t :: "srv_cfg \<Rightarrow> (nat \<Rightarrow> ctx) \<Rightarrow> request \<Rightarrow> principal option \<Rightarrow> srv_thread" where
  "sendMessage_t cf E r p =
     (case decode_send r of None \<Rightarrow> answer (writeError 400 ''sessionId, to, and type are required'')
      | Some b \<Rightarrow>
     (case send_invalid b of Some e \<Rightarrow> answer (writeError 400 e)
      | None \<Rightarrow> Call SessionQuery (\<lambda>s.
     (case GetSession (srv_store cf) (E 0) (sb_SessionID b) s of
        Inl e \<Rightarrow> answer (writeError 500 (err_text e))
      | Inr None \<Rightarrow> answer (writeError 404 ''session not found'')
      | Inr (Some v) \<Rightarrow>
         if other_session p (sb_SessionID b)
         then answer (writeError 403 ''API key is restricted to another session'')
         else if sb_TemplateID b = [] then send_resolved_t cf E p b (idempotency_key r)
         else send_template_t cf E p b (idempotency_key r), s))))"

definition resendMessage_t :: "srv_cfg \<Rightarrow> (nat \<Rightarrow> ctx) \<Rightarrow> request \<Rightarrow> srv_thread" where
  "resendMessage_t cf E r = query_t MessageQuery cf (E 0) (find_message cf (rq_param r))
     (\<lambda>res. case res of Inl e \<Rightarrow> answer (row_error ''Message not found'' e)
       | Inr m \<Rightarrow>
          let old = resent_message m (randomID cf (E 6)) (c_now (E 6)) in
          put_t cf (E 3) old (\<lambda>r. case r of Some e \<Rightarrow> answer (writeError 500 (err_text e))
           | None \<Rightarrow> enqueue_t cf (E 5) (resent_job old) (m_JobID old) (queued_reply (m_ID old) ''Message requeued'')))"

definition deleteMessage_t :: "srv_cfg \<Rightarrow> (nat \<Rightarrow> ctx) \<Rightarrow> request \<Rightarrow> srv_thread" where
  "deleteMessage_t cf E r = query_t MessageQuery cf (E 0) (find_message cf (rq_param r))
     (\<lambda>res. case res of Inl e \<Rightarrow> answer (row_error ''Message not found'' e)
       | Inr m \<Rightarrow>
          if mr_status m = ''queued'' \<or> mr_status m = ''processing''
          then answer (writeError 409 ''Message cannot be deleted while queued or processing'')
          else exec_t MessageDelete cf (E 1) (\<lambda>d. case cf_uuid cf (rq_param r) of None \<Rightarrow> (Inl invalid_text, d)
                | Some u \<Rightarrow> (Inr (), delete_message_rows u d))
            (\<lambda>res. case res of Inl e \<Rightarrow> answer (writeError 500 (err_text e))
              | Inr _ \<Rightarrow> answer (write_json 200 (done_text ''Message deleted''))))"

section \<open>Deleting a session\<close>

definition event_t :: "srv_cfg \<Rightarrow> ctx \<Rightarrow> string \<Rightarrow> string \<Rightarrow> string \<Rightarrow> srv_thread \<Rightarrow> srv_thread" where
  "event_t cf c status sessionID phone k = (if \<not> cf_events cf then k
     else Call SessionEvent (\<lambda>s. case broker_dispatch c (''session.'' @ status) (JObj [(''sessionId'', JStr sessionID),
          (''status'', JStr status), (''phoneNumber'', JStr phone)]) (sv_world s) of
        (e, w) \<Rightarrow> (if panicked e then answer Crash else k, s\<lparr>sv_world := w\<rparr>)))"

text \<open>One call of the session manager.\<close>

definition manager_t :: "stmt \<Rightarrow> (manager \<Rightarrow> err option \<times> manager) \<Rightarrow> (err option \<Rightarrow> srv_thread) \<Rightarrow> srv_thread" where
  "manager_t l f k = Call l (\<lambda>s. case f (sv_mgr s) of (r, m) \<Rightarrow> (k r, s\<lparr>sv_mgr := m\<rparr>))"

text \<open>
  \<open>Logout\<close> of the session manager looks the client up, logs it out and takes the session's entry out of the map in
  separate statements: the entry it deletes is that of the session at that moment.
\<close>

definition logout_t :: "ctx \<Rightarrow> string \<Rightarrow> (err option \<Rightarrow> srv_thread) \<Rightarrow> srv_thread" where
  "logout_t c i k = Call ClientLookup (\<lambda>s. (case sm_clients (sv_mgr s) i of
       None \<Rightarrow> k (Some (not_loaded i))
     | Some p \<Rightarrow> manager_t ClientLogout (\<lambda>m. (fst (client_Logout c), set_client_status p (snd (client_Logout c)) m)) (\<lambda>r.
         manager_t ClientDrop (\<lambda>m. (None, drop_client i m)) (\<lambda>_. k r)), s))"

definition delete_session_t :: "srv_cfg \<Rightarrow> (nat \<Rightarrow> ctx) \<Rightarrow> string \<Rightarrow> srv_thread" where
  "delete_session_t cf E i = exec_t SessionDelete cf (E 2) (delete_session_exec i)
     (\<lambda>res. case res of Inl e \<Rightarrow> answer (writeError 500 (err_text e))
      | Inr n \<Rightarrow>
         if n = 0 then answer (writeError 404 ''Session not found'')
         else event_t cf (E 3) ''deleted'' i [] (answer (write_json 200 (done_text ''Session deleted''))))"

definition deleteSession_t :: "srv_cfg \<Rightarrow> (nat \<Rightarrow> ctx) \<Rightarrow> request \<Rightarrow> srv_thread" where
  "deleteSession_t cf E r =
     query_t CountQuery cf (E 0) (\<lambda>d. Inr (session_message_count (rq_param r) d))
       (\<lambda>res. case res of Inl e \<Rightarrow> answer (writeError 500 (err_text e))
        | Inr n \<Rightarrow>
           if n > 0 then answer (writeError 409 ''Session cannot be deleted because it has message history. Disconnect or logout the session instead.'')
           else if cf_whatsapp cf then logout_t (E 1) (rq_param r) (\<lambda>_. delete_session_t cf E (rq_param r))
           else delete_session_t cf E (rq_param r))"

section \<open>Tasks\<close>

text \<open>
  \<open>limiter.Wait\<close>: the query of an iteration reads the database at its own moment; the rest of the iteration runs
  under the mutex.
\<close>

primrec wait_t :: "wait_obs list \<Rightarrow> string \<Rightarrow> (err option \<Rightarrow> srv_thread) \<Rightarrow> srv_thread" where
  "wait_t [] i k = k (Some deadline_exceeded)"
| "wait_t (ob # obs) i k = Call LimiterQuery (\<lambda>s. (Call LimiterCheck (\<lambda>s'.
     case wait_iter i ob (srv_db s) (w_limiter (sv_world s')) of
       (Returned r, l) \<Rightarrow> (k r, s'\<lparr>sv_world := (sv_world s')\<lparr>w_limiter := l\<rparr>\<rparr>)
     | (Again, l) \<Rightarrow> (wait_t obs i k, s'\<lparr>sv_world := (sv_world s')\<lparr>w_limiter := l\<rparr>\<rparr>)), s))"

definition world_t :: "stmt \<Rightarrow> (world \<Rightarrow> 'a \<times> world) \<Rightarrow> ('a \<Rightarrow> srv_thread) \<Rightarrow> srv_thread" where
  "world_t l f k = Call l (\<lambda>s. case f (sv_world s) of (x, w) \<Rightarrow> (k x, s\<lparr>sv_world := w\<rparr>))"

definition publish_t :: "srv_cfg \<Rightarrow> ctx \<Rightarrow> string \<Rightarrow> json \<Rightarrow> (err option \<Rightarrow> srv_thread) \<Rightarrow> srv_thread" where
  "publish_t cf c event payload k = world_t Publish (opt_dispatch (Some (gateway_dispatcher (cf_hooks cf))) c event payload) k"

text \<open>The four statements after a failure; \<open>r\<close> is what the handler then returns.\<close>

definition failure_t :: "srv_cfg \<Rightarrow> (nat \<Rightarrow> ctx) \<Rightarrow> message_job \<Rightarrow> string \<Rightarrow> err option \<Rightarrow> srv_thread" where
  "failure_t cf E job text r =
     world_t RecordOutcome (lift_write w_db put_db (RecordFailure (E 2) (j_SessionID job))) (\<lambda>_.
     world_t StatusUpdate (UpdateMessageStatus (gateway_store (cf_uuid cf)) (E 3) (j_MessageID job) ''failed'' [] text) (\<lambda>_.
     world_t JobUpdate (UpdateQueueJob (gateway_store (cf_uuid cf)) (E 4) (j_MessageID job) ''failed'' text) (\<lambda>_.
     publish_t cf (E 5) ''message.failed'' (failed_payload job text) (\<lambda>x.
       Done (Returned_err (case x of None \<Rightarrow> r | Some e \<Rightarrow> Some e))))))"

definition success_t :: "srv_cfg \<Rightarrow> (nat \<Rightarrow> ctx) \<Rightarrow> message_job \<Rightarrow> string \<Rightarrow> srv_thread" where
  "success_t cf E job waID =
     world_t StatusUpdate (UpdateMessageStatus (gateway_store (cf_uuid cf)) (E 3) (j_MessageID job) ''sent'' waID []) (\<lambda>r. case r of
       Some e \<Rightarrow> Done (Returned_err (Some e))
     | None \<Rightarrow>
     world_t RecordOutcome (lift_write w_db put_db (RecordSuccess (E 2) (j_SessionID job))) (\<lambda>_.
     world_t JobUpdate (UpdateQueueJob (gateway_store (cf_uuid cf)) (E 4) (j_MessageID job) ''completed'' []) (\<lambda>_.
     publish_t cf (E 5) ''message.sent'' (sent_payload job waID) (\<lambda>x. Done (Returned_err x)))))"

definition process_job_t :: "srv_cfg \<Rightarrow> wait_obs list \<Rightarrow> (nat \<Rightarrow> ctx) \<Rightarrow> message_job \<Rightarrow> srv_thread" where
  "process_job_t cf obs E job = wait_t obs (j_SessionID job) (\<lambda>r. case r of
     Some e \<Rightarrow> Done (Returned_err (Some e))
   | None \<Rightarrow> Call ClientLookup (\<lambda>s. (case sm_clients (sv_mgr s) (j_SessionID job) of
       None \<Rightarrow> failure_t cf E job ''session client unavailable''
         (Some (Errorf (''session client unavailable: '' @ j_SessionID job) None))
     | Some p \<Rightarrow> world_t Send (send_job (queue_sender (hp_url_valid (cf_hooks cf))) (E 1) job) (\<lambda>q. case q of
         Inl e \<Rightarrow> failure_t cf E job (err_text e) (if contains_sub (err_text e) timelock_marker then None else Some e)
       | Inr waID \<Rightarrow> success_t cf E job waID), s)))"

definition handle_task_t :: "srv_cfg \<Rightarrow> wait_obs list \<Rightarrow> (nat \<Rightarrow> ctx) \<Rightarrow> json \<Rightarrow> srv_thread" where
  "handle_task_t cf obs E payload = (case decode_job payload of
     Inl e \<Rightarrow> Done (Returned_err (Some e)) | Inr job \<Rightarrow> process_job_t cf obs E job)"

section \<open>The threads are the handlers\<close>

text \<open>The reply a request ended with.\<close>

definition replied :: "outcome \<times> srv \<Rightarrow> handler_result" where
  "replied x = (case fst x of Replied rep \<Rightarrow> rep | _ \<Rightarrow> Crash, snd x)"

lemma replied_simps [simp]: "replied (Replied rep, s) = (rep, s)"
  by (simp add: replied_def)

lemma replied_eq: "replied x = (rep, s) \<Longrightarrow> rep \<noteq> Crash \<Longrightarrow> x = (Replied rep, s)"
  by (cases x) (auto simp: replied_def split: outcome.splits)

lemma run_query: "replied (run (query_t l cf c q k) s) = db_query cf c q (\<lambda>res. replied (run (k res) s)) s"
  by (simp add: query_t_def db_query_def)

lemma run_exec: "replied (run (exec_t l cf c q k) s) = db_exec cf c q (\<lambda>res s'. replied (run (k res) s')) s"
  by (simp add: exec_t_def db_exec_def split: prod.split option.split)

lemma run_put: "replied (run (put_t cf c v k) s) = (case PutMessage (srv_store cf) c v s of (r, s') \<Rightarrow> replied (run (k r) s'))"
  by (simp add: put_t_def split: prod.split)

lemma run_enqueue: "replied (run (enqueue_t cf c job i ok) s) = enqueue_message cf c job i ok s"
  by (simp add: enqueue_t_def enqueue_message_def split: option.split prod.split)

lemma run_event: "replied (run (event_t cf c a i h k) s) = dispatchSessionEvent cf c a i h (\<lambda>s'. replied (run k s')) s"
  by (simp add: event_t_def dispatchSessionEvent_def split: prod.split)

lemmas run_statements = run_query run_exec run_put run_enqueue run_event

lemma run_send_new: "replied (run (send_new_t cf E p b key) s) = send_new cf E p b key s"
  by (auto simp: send_new_t_def send_again_t_def send_new_def run_statements Let_def intro!: arg_cong [where f = "\<lambda>k. db_query cf _ _ k _"]
      split: prod.split option.split sum.split)

lemma run_send_resolved: "replied (run (send_resolved_t cf E p b key) s) = send_resolved cf E p b key s"
  by (auto simp: send_resolved_t_def send_resolved_def run_statements run_send_new intro!: arg_cong [where f = "\<lambda>k. db_query cf _ _ k _"]
      split: sum.split)

lemma run_sendMessage: "replied (run (sendMessage_t cf E r p) s) = sendMessage cf E r p s"
  by (auto simp: sendMessage_t_def send_template_t_def sendMessage_def run_statements run_send_resolved intro!: arg_cong [where f = "\<lambda>k. db_query cf _ _ k _"]
      split: option.split sum.split)

lemma run_resendMessage: "replied (run (resendMessage_t cf E r) s) = resendMessage cf E r p s"
  by (auto simp: resendMessage_t_def resendMessage_def run_statements Let_def intro!: arg_cong [where f = "\<lambda>k. db_query cf _ _ k _"]
      split: option.split sum.split prod.split)

lemma run_deleteMessage: "replied (run (deleteMessage_t cf E r) s) = deleteMessage cf E r p s"
  by (auto simp: deleteMessage_t_def deleteMessage_def run_statements db_query_def db_exec_def
      split: option.split sum.split)

lemma run_manager: "run (manager_t l f k) s = (case f (sv_mgr s) of (r, m) \<Rightarrow> run (k r) (s\<lparr>sv_mgr := m\<rparr>))"
  by (simp add: manager_t_def split: prod.split)

lemma run_logout: "run (logout_t c i k) s = (case sm_Logout c i (sv_mgr s) of (r, m) \<Rightarrow> run (k r) (s\<lparr>sv_mgr := m\<rparr>))"
  by (simp add: logout_t_def sm_Logout_def run_manager split: option.split)

lemma run_deleteSession: "replied (run (deleteSession_t cf E r) s) = deleteSession cf E r p s"
  by (auto simp: deleteSession_t_def delete_session_t_def deleteSession_def logged_out_def run_statements run_logout
      db_query_def db_exec_def split: option.split sum.split prod.split)

lemma run_world: "run (world_t l f k) s = run (k (fst (f (sv_world s)))) (s\<lparr>sv_world := snd (f (sv_world s))\<rparr>)"
  by (simp add: world_t_def split_beta)

lemma run_wait:
  "run (wait_t obs i k) s = (case limiter_Wait obs c i (sv_world s) of (r, w) \<Rightarrow> run (k r) (s\<lparr>sv_world := w\<rparr>))"
proof (induction obs arbitrary: s)
  case Nil
  then show ?case by (simp add: limiter_Wait_def)
next
  case (Cons ob obs)
  then show ?case
    by (auto simp: limiter_Wait_def srv_db_def w_db_def split: prod.split wait_out.split option.split)
qed

lemma run_failure:
  "run (failure_t cf E job t r) s = (case report_failure (gateway_worker (cf_uuid cf) (cf_hooks cf) obs m) E job t (sv_world s) of
     (x, w) \<Rightarrow> (Returned_err (case x of None \<Rightarrow> r | Some e \<Rightarrow> Some e), s\<lparr>sv_world := w\<rparr>))"
  by (simp add: failure_t_def publish_t_def run_world report_failure_def recordFailure_def Let_def split_beta)

lemma run_process_job:
  "run (process_job_t cf obs E job) s =
     (case process_job (gateway_worker (cf_uuid cf) (cf_hooks cf) obs (sv_mgr s)) E job (sv_world s) of
        (r, w) \<Rightarrow> (Returned_err r, s\<lparr>sv_world := w\<rparr>))"
  by (simp add: process_job_t_def process_job_def run_wait [where c = "E 0"] run_world gateway_lookup success_t_def publish_t_def
      run_failure [where obs = obs and m = "sv_mgr s"] recordSuccess_def Let_def split_beta split: option.split sum.split)

lemma run_handle_task:
  "run (handle_task_t cf obs E payload) s =
     (case handle_task (gateway_worker (cf_uuid cf) (cf_hooks cf) obs (sv_mgr s)) E payload (sv_world s) of
        (r, w) \<Rightarrow> (Returned_err r, s\<lparr>sv_world := w\<rparr>))"
  by (simp add: handle_task_t_def handle_task_def run_process_job split: sum.split)

text \<open>
  When the connection is closed after the text was sent, the task is returned to the queue with the error and nothing is
  recorded: at the next start it is sent again.
\<close>

lemma sent_unrecorded: "c_fault (E 3) 0 = Some e \<Longrightarrow> run (success_t cf E job wa) s = (Returned_err (Some e), s)"
  by (simp add: success_t_def run_world gateway_store_def lift_store_def lift_write_def pg_UpdateMessageStatus_def)

section \<open>The number of statements\<close>

lemma calls_query: "(\<And>res. calls_le n (k res)) \<Longrightarrow> calls_le (Suc n) (query_t l cf c q k)"
  by (simp add: query_t_def)

lemma calls_exec: "(\<And>res. calls_le n (k res)) \<Longrightarrow> calls_le (Suc n) (exec_t l cf c q k)"
  by (simp add: exec_t_def split_beta)

lemma calls_put: "(\<And>res. calls_le n (k res)) \<Longrightarrow> calls_le (Suc n) (put_t cf c v k)"
  by (simp add: put_t_def split_beta)

lemma calls_enqueue: "calls_le (Suc n) (enqueue_t cf c job i ok)"
  by (auto simp: enqueue_t_def split: option.split prod.split)

lemma calls_event: "calls_le n k \<Longrightarrow> calls_le (Suc n) (event_t cf c a i h k)"
  by (auto simp: event_t_def split_beta intro: calls_le_mono)

lemma calls_world: "(\<And>x. calls_le n (k x)) \<Longrightarrow> calls_le (Suc n) (world_t l f k)"
  by (simp add: world_t_def split_beta)

lemmas calls_rules = calls_query calls_exec calls_put calls_enqueue calls_event calls_world

lemma calls_send_new: "calls_le 2 (send_new_t cf E p b key)"
  unfolding send_new_t_def send_again_t_def Let_def numeral_2_eq_2
  by (intro calls_put) (auto intro!: calls_rules split: option.split sum.split)

lemma calls_send: "calls_le 5 (sendMessage_t cf E r p)"
proof -
  have "calls_le 3 (send_resolved_t cf E p b key)" for b key
    using calls_send_new [of cf E p b key]
    by (auto simp: send_resolved_t_def eval_nat_numeral intro!: calls_query intro: calls_le_mono split: sum.split)
  then show ?thesis
    by (auto simp: sendMessage_t_def send_template_t_def eval_nat_numeral intro!: calls_query intro: calls_le_mono
        split: option.split sum.split)
qed

lemma calls_messages:
  "calls_le (Suc (Suc (Suc 0))) (resendMessage_t cf E r)" "calls_le (Suc (Suc 0)) (deleteMessage_t cf E r)"
  unfolding resendMessage_t_def deleteMessage_t_def
  by (auto intro!: calls_rules simp: Let_def split: option.split sum.split)

lemma calls_manager: "(\<And>r. calls_le n (k r)) \<Longrightarrow> calls_le (Suc n) (manager_t l f k)"
  by (simp add: manager_t_def split_beta)

lemma calls_logout: "(\<And>r. calls_le n (k r)) \<Longrightarrow> calls_le (Suc (Suc (Suc n))) (logout_t c i k)"
  using calls_le_mono [of n _ "Suc (Suc n)"]
  by (auto simp: logout_t_def intro!: calls_manager split: option.split)

lemma calls_deleteSession: "calls_le 6 (deleteSession_t cf E r)"
proof -
  have "calls_le 2 (delete_session_t cf E i)" for i
    by (auto simp: delete_session_t_def eval_nat_numeral intro!: calls_rules split: sum.split)
  then have "calls_le 5 (logout_t (E 1) i (\<lambda>_. delete_session_t cf E i))" "calls_le 5 (delete_session_t cf E i)" for i
    using calls_logout [of 2 "\<lambda>_. delete_session_t cf E i" "E 1" i] by (auto simp: eval_nat_numeral intro: calls_le_mono)
  then show ?thesis
    unfolding deleteSession_t_def using calls_query [of 5]
    by (auto simp: eval_nat_numeral intro!: calls_query split: sum.split)
qed

lemma calls_wait: "(\<And>r. calls_le n (k r)) \<Longrightarrow> calls_le (2 * length obs + n) (wait_t obs i k)"
proof (induction obs)
  case (Cons ob obs)
  have "calls_le (2 * length obs + n) (k r)" for r by (rule calls_le_mono [OF Cons.prems]) simp
  with Cons show ?case by (auto split: prod.split wait_out.split)
qed simp

lemma calls_task: "calls_le (2 * length obs + 6) (handle_task_t cf obs E payload)"
proof -
  have "calls_le (Suc (Suc (Suc (Suc 0)))) (failure_t cf E job t r)" "calls_le (Suc (Suc (Suc (Suc 0)))) (success_t cf E job w)"
    for job t r w
    unfolding failure_t_def success_t_def publish_t_def by (auto intro!: calls_world split: option.split)
  then have "calls_le (2 * length obs + 6) (process_job_t cf obs E job)" for job
    unfolding process_job_t_def
    by (intro calls_wait) (auto simp: eval_nat_numeral intro!: calls_world intro: calls_le_mono split: option.split sum.split)
  then show ?thesis by (simp add: handle_task_t_def split: sum.split)
qed

end
