(* ===== verification/Concurrent_Send.thy ===== *)
theory Concurrent_Send
  imports Http_Threads
begin

text \<open>
  Any number of \<open>sendMessage\<close> requests of one caller with the same idempotency key, interleaved statement by
  statement with each other and with everything else the gateway does.  One of them at most stores and enqueues
  a message; all the successful ones answer with that message.
\<close>

section \<open>The message of a key\<close>

definition keyed :: "string \<times> string \<Rightarrow> srv \<Rightarrow> message_row \<Rightarrow> bool" where
  "keyed k s m \<longleftrightarrow> m \<in> set (msgs s) \<and> idem_key m = Some k"

text \<open>What others may do: anything that keeps the state sound and does not delete the message of the key.\<close>

definition others :: "srv_cfg \<Rightarrow> string \<times> string \<Rightarrow> srv \<Rightarrow> srv \<Rightarrow> bool" where
  "others cf k s s' \<longleftrightarrow> srv_ok cf s' \<and> (\<forall>m. keyed k s m \<longrightarrow> (\<exists>m'. keyed k s' m' \<and> mr_id m' = mr_id m \<and> mr_job_id m' = mr_job_id m))"

lemma others_refl: "srv_ok cf s \<Longrightarrow> others cf k s s"
  by (auto simp: others_def)

text \<open>The key of a caller.\<close>

definition key_of :: "srv_cfg \<Rightarrow> principal \<Rightarrow> string \<Rightarrow> string \<times> string" where
  "key_of cf q key = (scope_of (Some q), hashString cf key)"

lemma scope_nonempty: "scope_of (Some q) \<noteq> []"
  by (simp add: scope_of_def)

lemma idem_row_keyed: "idem_row (fst k) (snd k) (srv_db s) = Inr m \<Longrightarrow> keyed k s m"
  by (cases k) (auto simp: idem_row_def scan_row_def keyed_def idem_key_def find_Some_iff split: option.splits)

section \<open>Stages of a racing request\<close>

text \<open>
  A reply that tells the caller which message is stored.  The 202 of the request that stored it has the
  identifier as generated, the 200 of the others the identifier as PostgreSQL prints it.
\<close>

definition names :: "srv_cfg \<Rightarrow> reply \<Rightarrow> message_row \<Rightarrow> bool" where
  "names cf rep m \<longleftrightarrow> (\<exists>i text. rep = queued_reply i text \<and> cf_uuid cf i = Some (mr_id m))
     \<or> (\<exists>m'. rep = already_queued m' \<and> mr_id m' = mr_id m \<and> mr_job_id m' = mr_job_id m)"

text \<open>\<open>racer cf q key s own t\<close>: \<open>t\<close> is a stage of such a request; \<open>own\<close> tells that it has stored the message.\<close>

inductive racer :: "srv_cfg \<Rightarrow> principal \<Rightarrow> string \<Rightarrow> srv \<Rightarrow> bool \<Rightarrow> srv_thread \<Rightarrow> bool" for cf q key s where
  Start: "idempotency_key r = key \<Longrightarrow> racer cf q key s False (sendMessage_t cf E r (Some q))"
| Template: "racer cf q key s False (send_template_t cf E (Some q) b key)"
| Lookup: "racer cf q key s False (send_resolved_t cf E (Some q) b key)"
| Insert: "racer cf q key s False (send_new_t cf E (Some q) b key)"
| Again: "racer cf q key s False (send_again_t cf E (Some q) key e)"
| Refused: "reply_status rep \<in> Some ` {400, 403, 404, 500} \<Longrightarrow> racer cf q key s False (answer rep)"
| Found: "keyed (key_of cf q key) s m \<Longrightarrow> names cf rep m \<Longrightarrow> reply_status rep = Some 200 \<Longrightarrow> racer cf q key s False (answer rep)"
| Enqueue: "keyed (key_of cf q key) s m \<Longrightarrow> names cf rep m \<Longrightarrow> reply_status rep = Some 202 \<Longrightarrow>
    racer cf q key s True (enqueue_t cf c job i rep)"
| Accepted: "keyed (key_of cf q key) s m \<Longrightarrow> names cf rep m \<Longrightarrow> reply_status rep = Some 202 \<Longrightarrow> racer cf q key s True (answer rep)"
| Unqueued: "keyed (key_of cf q key) s m \<Longrightarrow> racer cf q key s True (answer (writeError 503 text))"

lemma names_queued: "cf_uuid cf i = Some (mr_id m) \<Longrightarrow> names cf (queued_reply i t) m"
  by (auto simp: names_def)

lemma names_later:
  assumes "keyed k s m" "names cf rep m" "others cf k s s'"
  obtains m' where "keyed k s' m'" "names cf rep m'"
proof -
  from assms(1,3) obtain m' where "keyed k s' m'" "mr_id m' = mr_id m" "mr_job_id m' = mr_job_id m" by (auto simp: others_def)
  then show ?thesis using assms(2) by (intro that [of m']) (simp_all add: names_def)
qed

lemma racer_later: "racer cf q key s own t \<Longrightarrow> others cf (key_of cf q key) s s' \<Longrightarrow> racer cf q key s' own t"
proof (induction rule: racer.induct)
  case (Found m rep)
  then show ?case by (meson names_later racer.Found)
next
  case (Enqueue m rep c job i)
  then show ?case by (meson names_later racer.Enqueue)
next
  case (Accepted m rep)
  then show ?case by (meson names_later racer.Accepted)
next
  case (Unqueued m t)
  then show ?case by (metis others_def racer.Unqueued)
qed (auto intro: racer.intros)

lemma racers_later:
  "list_all2 (racer cf q key s) os ts \<Longrightarrow> others cf (key_of cf q key) s s' \<Longrightarrow> list_all2 (racer cf q key s') os ts"
  by (erule list_all2_mono) (rule racer_later)

lemma racer_owner: "racer cf q key s True t \<Longrightarrow> \<exists>m. keyed (key_of cf q key) s m"
  by (auto elim: racer.cases)

section \<open>One statement of a racing request\<close>

lemma racer_query:
  assumes "query_t l cf c q k = Call l' f" "f s = (t, s')"
  shows "s' = s \<and> (\<exists>res. t = k res \<and> (\<forall>x. res = Inr x \<longrightarrow> q (srv_db s) = Inr x))"
  using assms by (auto simp: query_t_def split: if_splits option.splits)

lemma enqueue_statement:
  assumes "enqueue_t cf c job i ok = Call l f" "f s = (t, s')"
  shows "(\<exists>ts. s' = s\<lparr>sv_tasks := ts\<rparr>) \<and> t \<in> {answer ok, answer (writeError 503 ''message queue unavailable'')}"
  using assms
  by (auto simp: enqueue_t_def srv_enqueue_def split: queue_kind.splits option.splits prod.splits)

lemma already_queued_status [simp]: "reply_status (already_queued m) = Some 200"
  by (simp add: already_queued_def)

lemma queued_reply_status [simp]: "reply_status (queued_reply i t) = Some 202"
  by (simp add: queued_reply_def)

lemma put_keyed:
  assumes "PutMessage (srv_store cf) c v s = (None, s')" "cf_db cf" "uuid_canonical (cf_uuid cf)" "srv_ok cf s"
    and "m_IdempotencyScope v = fst k" "m_IdempotencyKeyHash v = snd k" "fst k \<noteq> []" "snd k \<noteq> []"
  shows "others cf k s s' \<and> (\<nexists>m. keyed k s m) \<and> (\<exists>m. keyed k s' m \<and> cf_uuid cf (m_ID v) = Some (mr_id m))"
proof -
  obtain d where d: "pg_PutMessage (cf_uuid cf) c v (srv_db s) = (None, d)" "srv_db s' = d"
    using assms(1,2) by (auto simp: srv_PutMessage_db split: prod.splits)
  from pg_PutMessage_None [OF d(1)] obtain i t where
    i: "cf_uuid cf (m_ID v) = Some i" and ins: "insert_message (message_row_of i t (c_now c) v) (srv_db s)
      = Inr ((srv_db s)\<lparr>t_messages := msgs s @ [message_row_of i t (c_now c) v]\<rparr>)"
    and m: "msgs s' = msgs s @ [message_row_of i t (c_now c) v]" by (force simp: d(2))
  let ?m = "message_row_of i t (c_now c) v"
  have k: "idem_key ?m = Some k" "mr_id ?m = i"
    using assms(5-8) by (simp_all add: message_row_of_def idem_key_def nullif_def)
  then have "\<nexists>m. keyed k s m" using ins by (auto simp: insert_message_Inr keyed_def set_idem_keys)
  moreover have "srv_ok cf s'" using srv_PutMessage_ok [OF assms(3,4), of c v] assms(1) by simp
  ultimately show ?thesis using i k m by (auto simp: others_def keyed_def)
qed

lemma put_refused:
  "PutMessage (srv_store cf) c v s = (Some e, s') \<Longrightarrow> cf_db cf \<Longrightarrow> s' = s"
  by (auto simp: srv_PutMessage_db dest!: pg_PutMessage_Some split: prod.splits)

text \<open>What one statement does: the key is taken only by a request that finds it free.\<close>

definition races_to :: "srv_cfg \<Rightarrow> principal \<Rightarrow> string \<Rightarrow> bool \<Rightarrow> srv \<Rightarrow> srv_thread \<Rightarrow> srv \<Rightarrow> bool" where
  "races_to cf q key own s t s' \<longleftrightarrow> others cf (key_of cf q key) s s'
     \<and> (\<exists>own'. racer cf q key s' own' t \<and> (own \<longrightarrow> own') \<and> (own' \<longrightarrow> own \<or> (\<nexists>m. keyed (key_of cf q key) s m)))"

lemma races_same: "srv_ok cf s \<Longrightarrow> racer cf q key s own t \<Longrightarrow> races_to cf q key own s t s"
  using others_refl by (auto simp: races_to_def)

lemma send_new_statement:
  assumes "send_new_t cf E (Some q) b key = Call l f" "f s = (t, s')"
    and "cf_db cf" "uuid_canonical (cf_uuid cf)" "srv_ok cf s" "key \<noteq> []" "hashString cf key \<noteq> []"
  shows "races_to cf q key False s t s'"
proof -
  let ?v = "new_message b (randomID cf (E 6)) (c_now (E 6)) key (scope_of (Some q)) (hashString cf key)"
  obtain r s1 where put: "PutMessage (srv_store cf) (E 3) ?v s = (r, s1)" by fastforce
  show ?thesis
  proof (cases r)
    case None
    then have "t = enqueue_t cf (E 5) (job_of_message ?v) (m_JobID ?v) (queued_reply (m_ID ?v) ''Message queued for delivery'')"
      and s': "s' = s1" using assms(1,2) put by (auto simp: send_new_t_def put_t_def Let_def)
    moreover have "others cf (key_of cf q key) s s1 \<and> (\<nexists>m. keyed (key_of cf q key) s m)
        \<and> (\<exists>m. keyed (key_of cf q key) s1 m \<and> cf_uuid cf (m_ID ?v) = Some (mr_id m))"
      using put assms(3-7) scope_nonempty [of q]
      by (intro put_keyed [of cf "E 3" ?v]) (simp_all add: None key_of_def new_message_def)
    ultimately show ?thesis unfolding races_to_def
      by (metis names_queued queued_reply_status racer.Enqueue)
  next
    case (Some e)
    then have "t = send_again_t cf E (Some q) key e" "s' = s"
      using assms(1,2,3,6) put put_refused [of cf "E 3" ?v s e s1] scope_nonempty [of q] by (auto simp: send_new_t_def put_t_def Let_def)
    then show ?thesis using assms(5) by (simp add: races_same racer.Again)
  qed
qed

lemma template_statement:
  assumes "send_template_t cf E (Some q) b key = Call l f" "f s = (t, s')"
  shows "s' = s \<and> racer cf q key s False t"
  using racer_query [OF assms [unfolded send_template_t_def]] by (auto intro!: racer.intros split: sum.split)

lemma lookup_statement:
  assumes "query_t l cf c (idem_row (scope_of (Some q)) (hashString cf key))
      (\<lambda>res. case res of Inr m \<Rightarrow> answer (already_queued m) | Inl _ \<Rightarrow> k) = Call l' f" "f s = (t, s')" "racer cf q key s False k"
  shows "s' = s \<and> racer cf q key s False t"
proof -
  have "racer cf q key s False (answer (already_queued m))" if "idem_row (scope_of (Some q)) (hashString cf key) (srv_db s) = Inr m" for m
    using that idem_row_keyed [of "key_of cf q key"] by (auto simp: names_def key_of_def intro!: racer.Found)
  moreover obtain res :: "err + message_row" where "s' = s" "t = (case res of Inr m \<Rightarrow> answer (already_queued m) | Inl _ \<Rightarrow> k)"
    "\<And>x. res = Inr x \<Longrightarrow> idem_row (scope_of (Some q)) (hashString cf key) (srv_db s) = Inr x"
    using racer_query [OF assms(1,2)] by blast
  ultimately show ?thesis using assms(3) by (cases res) auto
qed

lemma racer_statement:
  assumes "racer cf q key s own t" "t = Call l f" "f s = (t', s')"
    and cf: "cf_db cf" "uuid_canonical (cf_uuid cf)" "srv_ok cf s" "key \<noteq> []" "hashString cf key \<noteq> []"
  shows "races_to cf q key own s t' s'"
  using assms(1)
proof cases
  case (Start r E)
  then have "s' = s" "racer cf q key s False t'"
    using assms(2,3) by (auto simp: sendMessage_t_def intro!: racer.intros split: option.splits sum.splits if_splits)
  then show ?thesis using Start cf(3) by (simp add: races_same)
next
  case (Template E b)
  then show ?thesis using template_statement assms(2,3) cf(3) races_same by metis
next
  case (Lookup E b)
  then have "query_t KeyQuery cf (E 2) (idem_row (scope_of (Some q)) (hashString cf key))
      (\<lambda>res. case res of Inr m \<Rightarrow> answer (already_queued m) | Inl _ \<Rightarrow> send_new_t cf E (Some q) b key) = Call l f"
    using assms(2) cf(1,4) scope_nonempty [of q] by (simp add: send_resolved_t_def)
  from lookup_statement [OF this assms(3) racer.Insert] show ?thesis using Lookup cf(3) by (simp add: races_same)
next
  case (Insert E b)
  then show ?thesis using send_new_statement assms(2,3) cf by blast
next
  case (Again E e)
  have "racer cf q key s False (answer (writeError 500 (err_text e)))" by (rule racer.Refused) simp
  moreover have "send_again_t cf E (Some q) key e = Call l f" using Again assms(2) by simp
  ultimately have "s' = s \<and> racer cf q key s False t'"
    unfolding send_again_t_def using lookup_statement assms(3) by metis
  then show ?thesis using Again cf(3) by (simp add: races_same)
next
  case (Enqueue m rep c job i)
  then obtain ts where s': "s' = s\<lparr>sv_tasks := ts\<rparr>" and t': "t' \<in> {answer rep, answer (writeError 503 ''message queue unavailable'')}"
    using assms(2,3) enqueue_statement by metis
  then have "keyed (key_of cf q key) s' m" using Enqueue by (simp add: keyed_def srv_db_def)
  then have "racer cf q key s' True t'" using t' Enqueue by (auto intro: racer.intros)
  moreover have "others cf (key_of cf q key) s s'" using s' cf(3) by (auto simp: others_def keyed_def srv_db_def)
  ultimately show ?thesis using Enqueue by (auto simp: races_to_def)
qed (use assms(2) in simp_all)

section \<open>All of them\<close>

definition sends_with :: "srv_cfg \<Rightarrow> principal \<Rightarrow> string \<Rightarrow> srv_thread \<Rightarrow> bool" where
  "sends_with cf q key t \<longleftrightarrow> (\<exists>E r. idempotency_key r = key \<and> t = sendMessage_t cf E r (Some q))"

text \<open>The requests that stored the message, as flags beside the threads: at most one, and then the message exists.\<close>

definition race_ok :: "srv_cfg \<Rightarrow> principal \<Rightarrow> string \<Rightarrow> srv_thread list \<Rightarrow> srv \<Rightarrow> bool" where
  "race_ok cf q key ts s \<longleftrightarrow> srv_ok cf s \<and> (\<exists>os. list_all2 (racer cf q key s) os ts \<and> count_list os True \<le> 1)"

lemma count_update: "i < length os \<Longrightarrow> \<not> os ! i \<Longrightarrow> count_list (os[i := True]) True = Suc (count_list os True)"
proof (induction os arbitrary: i)
  case (Cons x os)
  then show ?case by (cases i) auto
qed simp

lemma count_list_pos: "i < length os \<Longrightarrow> os ! i \<Longrightarrow> count_list os True \<noteq> 0"
  by (metis count_list_0_iff nth_mem)

lemma race_statement:
  assumes "race_ok cf q key ts s" "i < length ts" "ts ! i = Call l f" "f s = (t, s')"
    and cf: "cf_db cf" "uuid_canonical (cf_uuid cf)" "key \<noteq> []" "hashString cf key \<noteq> []"
  shows "race_ok cf q key (ts[i := t]) s'"
proof -
  let ?k = "key_of cf q key"
  obtain os where ok: "srv_ok cf s" and os: "list_all2 (racer cf q key s) os ts" "count_list os True \<le> 1"
    using assms(1) by (auto simp: race_ok_def)
  have i: "i < length os" using assms(2) os(1) by (simp add: list_all2_lengthD)
  have "racer cf q key s (os ! i) (ts ! i)" using os(1) i by (simp add: list_all2_nthD)
  from racer_statement [OF this assms(3,4) cf(1,2) ok cf(3,4)] obtain own' where
    oth: "others cf ?k s s'" and r: "racer cf q key s' own' t" "os ! i \<Longrightarrow> own'"
    and new: "own' \<Longrightarrow> os ! i \<or> (\<nexists>m. keyed ?k s m)" by (auto simp: races_to_def)
  have "list_all2 (racer cf q key s') os ts" by (rule racers_later [OF os(1) oth])
  then have all: "list_all2 (racer cf q key s') (os[i := own']) (ts[i := t])" using r(1) by (rule list_all2_update_cong)
  have "count_list (os[i := own']) True \<le> 1"
  proof (cases "own' \<and> \<not> os ! i")
    case True
    then have none: "\<nexists>m. keyed ?k s m" using new by blast
    have "True \<notin> set os"
    proof
      assume "True \<in> set os"
      then obtain j where "j < length os" "os ! j" by (metis in_set_conv_nth)
      then have "racer cf q key s True (ts ! j)" using list_all2_nthD [OF os(1)] by (metis (full_types))
      then show False using racer_owner none by blast
    qed
    then have "count_list os True = 0" by (simp add: count_list_0_iff)
    then show ?thesis using True count_update [OF i] by simp
  next
    case False
    then have "own' = os ! i" using r(2) by blast
    then have "os[i := own'] = os" by simp
    then show ?thesis using os(2) by simp
  qed
  then show ?thesis using all oth by (auto simp: race_ok_def others_def)
qed

lemma race_step:
  assumes "pool_step (sends_with cf q key) (others cf (key_of cf q key)) (ts, s) (ts', s')" "race_ok cf q key ts s"
    and cf: "cf_db cf" "uuid_canonical (cf_uuid cf)" "key \<noteq> []" "hashString cf key \<noteq> []"
  shows "race_ok cf q key ts' s'"
  using assms(1)
proof (cases rule: pool_stepE)
  case (Statement i l f t)
  then show ?thesis using race_statement [OF assms(2) _ _ _ cf] by blast
next
  case (Start t)
  then obtain E r where "idempotency_key r = key" "t = sendMessage_t cf E r (Some q)" by (auto simp: sends_with_def)
  then have t: "racer cf q key s False t" by (simp add: racer.Start)
  obtain os where "srv_ok cf s" "list_all2 (racer cf q key s) os ts" "count_list os True \<le> 1"
    using assms(2) by (auto simp: race_ok_def)
  then show ?thesis using Start(2,3) t
    by (auto simp: race_ok_def intro!: exI [of _ "os @ [False]"] list_all2_appendI)
next
  case Other
  obtain os where "list_all2 (racer cf q key s) os ts" "count_list os True \<le> 1"
    using assms(2) by (auto simp: race_ok_def)
  moreover from this(1) Other(1) have "list_all2 (racer cf q key s') os ts" by (rule racers_later)
  ultimately show ?thesis using Other by (auto simp: race_ok_def others_def)
qed

lemma race_steps:
  assumes "(pool_step (sends_with cf q key) (others cf (key_of cf q key)))\<^sup>*\<^sup>* ([], s0) p" "srv_ok cf s0"
    and cf: "cf_db cf" "uuid_canonical (cf_uuid cf)" "key \<noteq> []" "hashString cf key \<noteq> []"
  shows "race_ok cf q key (fst p) (snd p)"
  using assms(1)
proof (induction rule: rtranclp_induct)
  case (step y z)
  then show ?case using race_step [OF _ _ cf] by (metis prod.collapse)
qed (simp add: race_ok_def assms(2))

text \<open>A request that stored the message: the one that is told 202, or 503 when the queue refused the task.\<close>

definition accepted :: "srv_thread \<Rightarrow> bool" where
  "accepted t \<longleftrightarrow> (\<exists>rep. t = answer rep \<and> reply_status rep \<in> Some ` {202, 503})"

text \<open>A racing request that has ended.\<close>

lemma racer_done:
  assumes "racer cf q key s own (answer rep)" "cf_db cf" "key \<noteq> []"
  shows "\<not> own \<and> reply_status rep \<in> Some ` {400, 403, 404, 500}
    \<or> (\<exists>m. keyed (key_of cf q key) s m \<and> names cf rep m \<and> reply_status rep = Some (if own then 202 else 200))
    \<or> own \<and> reply_status rep = Some 503"
  using assms(1)
proof cases
  case (Start r E)
  then show ?thesis by (auto simp: sendMessage_t_def split: option.splits)
next
  case (Enqueue m rep' c job i)
  then show ?thesis by (auto simp: enqueue_t_def split: option.splits)
qed (use assms(2,3) scope_nonempty [of q] in
    \<open>auto simp: send_template_t_def send_resolved_t_def send_new_t_def send_again_t_def query_t_def put_t_def Let_def\<close>)

lemma racer_accepted: "racer cf q key s own t \<Longrightarrow> cf_db cf \<Longrightarrow> key \<noteq> [] \<Longrightarrow> accepted t \<Longrightarrow> own"
  by (auto simp: accepted_def dest!: racer_done split: if_splits)

lemma racers_accepted:
  "list_all2 (racer cf q key s) os ts \<Longrightarrow> cf_db cf \<Longrightarrow> key \<noteq> [] \<Longrightarrow> length (filter accepted ts) \<le> count_list os True"
  by (induction rule: list_all2_induct) (auto dest: racer_accepted)

text \<open>
  C5.  One message per idempotency key, whatever the interleaving.  Let any number of requests of one caller
  with the same key arrive and run statement by statement, in any order, while everything else the gateway
  does goes on, as long as nobody deletes the message of the key.  Then at most one of the requests stores a
  message (it is told 202, or 503 when the queue refuses the task); every request that has ended with 200 or
  202 names the one message of the key, which is stored; and the only other answers are 400, 403, 404, 500
  and 503.
\<close>

theorem send_exactly_once:
  assumes "(pool_step (sends_with cf q key) (others cf (key_of cf q key)))\<^sup>*\<^sup>* ([], s0) (ts, s)"
    and "srv_ok cf s0" "cf_db cf" "uuid_canonical (cf_uuid cf)" "key \<noteq> []" "hashString cf key \<noteq> []"
  shows "length (filter accepted ts) \<le> 1
    \<and> (\<forall>rep. answer rep \<in> set ts \<longrightarrow> reply_status rep \<in> Some ` {200, 202, 400, 403, 404, 500, 503}
        \<and> (reply_status rep \<in> Some ` {200, 202} \<longrightarrow>
            (\<exists>m. keyed (key_of cf q key) s m \<and> names cf rep m \<and> (\<forall>m'. keyed (key_of cf q key) s m' \<longrightarrow> m' = m))))"
proof -
  obtain os where ok: "srv_ok cf s" and os: "list_all2 (racer cf q key s) os ts" "count_list os True \<le> 1"
    using race_steps [OF assms(1,2,3,4,5,6)] by (auto simp: race_ok_def)
  have uniq: "m' = m" if "keyed k s m" "keyed k s m'" for k m m'
    using idem_keys_unique [of "msgs s"] srv_ok_db [OF ok] that by (auto simp: keyed_def db_ok_def idem_ok_def)
  have "length (filter accepted ts) \<le> 1" using racers_accepted [OF os(1) assms(3,5)] os(2) by simp
  moreover have "reply_status rep \<in> Some ` {200, 202, 400, 403, 404, 500, 503}
      \<and> (reply_status rep \<in> Some ` {200, 202} \<longrightarrow> (\<exists>m. keyed (key_of cf q key) s m \<and> names cf rep m))"
    if "answer rep \<in> set ts" for rep
  proof -
    from that obtain i where "i < length ts" "ts ! i = answer rep" by (auto simp: in_set_conv_nth)
    with list_all2_nthD2 [OF os(1)] have "racer cf q key s (os ! i) (answer rep)" by metis
    from racer_done [OF this assms(3,5)] show ?thesis by (auto split: if_splits)
  qed
  ultimately show ?thesis using uniq by metis
qed

text \<open>A second request with the key of a stored message, from its arrival to its answer.\<close>

lemma sample_answer:
  "sendMessage sample_cfg (\<lambda>_. sample_ctx) sample_send (Some sample_user) sample_sent = (already_queued sample_keyed_row, sample_sent)"
proof -
  have "idem_row (scope_of (Some sample_user)) (hashString sample_cfg ''k1'') (srv_db sample_sent) = Inr sample_keyed_row"
    by (simp add: idem_row_def scan_row_def sample_sent_def sample_keyed_row_def message_row_of_def nullif_def scope_of_def
        sample_user_def hashString_def)
  then show ?thesis using scope_nonempty [of sample_user]
    by (simp add: sendMessage_def sample_send_body sample_body_def send_invalid_def sample_send_key send_resolved_def db_query_def other_session_def sample_user_def
        srv_store_def lift_store_def pg_GetSession_def sample_sent_def sample_session_row_def)
qed

lemma sample_race:
  "(pool_step (sends_with sample_cfg sample_user ''k1'') (others sample_cfg (key_of sample_cfg sample_user ''k1'')))\<^sup>*\<^sup>*
     ([], sample_sent) ([answer (already_queued sample_keyed_row)], sample_sent)"
proof -
  let ?t = "sendMessage_t sample_cfg (\<lambda>_. sample_ctx) sample_send (Some sample_user)"
  let ?R = "pool_step (sends_with sample_cfg sample_user ''k1'') (others sample_cfg (key_of sample_cfg sample_user ''k1''))"
  have "replied (run ?t sample_sent) = (already_queued sample_keyed_row, sample_sent)"
    unfolding run_sendMessage by (rule sample_answer)
  then have "run ?t sample_sent = (Replied (already_queued sample_keyed_row), sample_sent)"
    by (rule replied_eq) (simp add: already_queued_def write_json_def)
  then have "?R\<^sup>*\<^sup>* ([] @ [?t], sample_sent) ([] @ [answer (already_queued sample_keyed_row)], sample_sent)"
    using pool_run [of "sends_with sample_cfg sample_user ''k1''" "others sample_cfg (key_of sample_cfg sample_user ''k1'')" "[]" ?t sample_sent]
    by simp
  moreover have "?R ([], sample_sent) ([] @ [?t], sample_sent)"
    unfolding sends_with_def by (rule pool_step.Start) (use sample_send_key in blast)
  ultimately show ?thesis by (simp add: converse_rtranclp_into_rtranclp)
qed

theorem send_exactly_once_witness:
  "\<exists>m. keyed (key_of sample_cfg sample_user ''k1'') sample_sent m \<and> names sample_cfg (already_queued sample_keyed_row) m"
proof -
  have h: "hashString sample_cfg ''k1'' \<noteq> []" by (simp add: hashString_def)
  show ?thesis
    using send_exactly_once [OF sample_race sample_sent_ok _ sample_canonical _ h] by auto
qed

end
