(* ===== verification/Session_Threads.thy ===== *)
theory Session_Threads
  imports Http_Threads
begin

text \<open>
  \<open>createSession\<close> and \<open>sessionAction\<close> of \<open>internal/httpapi/server.go\<close> with \<open>Reconnect\<close> of
  \<open>internal/whatsapp/session_manager.go\<close>, cut at their statements like the handlers of \<open>Http_Threads\<close>, and the
  lemma that all these threads are the handlers.
\<close>

section \<open>Creating a session\<close>

definition put_session_t :: "srv_cfg \<Rightarrow> ctx \<Rightarrow> session \<Rightarrow> (err option \<Rightarrow> srv_thread) \<Rightarrow> srv_thread" where
  "put_session_t cf c v k = Call SessionPut (\<lambda>s. case PutSession (srv_store cf) c v s of (r, s') \<Rightarrow> (k r, s'))"

definition start_client_t :: "srv_cfg \<Rightarrow> (nat \<Rightarrow> ctx) \<Rightarrow> string \<Rightarrow> string \<Rightarrow> string \<Rightarrow> session \<Rightarrow> srv_thread" where
  "start_client_t cf E i method phone v =
     (if \<not> cf_whatsapp cf then answer (write_json 201 (session_json v))
      else manager_t ClientCreate (sm_Create (E 3) i method phone) (\<lambda>r. case r of
        None \<Rightarrow> answer (write_json 201 (session_json v))
      | Some e \<Rightarrow> Call SessionUpdate (\<lambda>s. case UpdateSession (srv_store cf) (E 4) i ''failed'' [] [] [] s of
          (_, s1) \<Rightarrow> (event_t cf (E 2) ''failed'' i phone (answer (writeError 502 (err_text e))), s1))))"

definition createSession_t :: "srv_cfg \<Rightarrow> (nat \<Rightarrow> ctx) \<Rightarrow> request \<Rightarrow> srv_thread" where
  "createSession_t cf E r =
     (case decode_create r of None \<Rightarrow> answer (writeError 400 ''sessionId is required'')
      | Some (i, method0, phone0) \<Rightarrow>
         if i = [] then answer (writeError 400 ''sessionId is required'')
         else Call SessionQuery (\<lambda>s.
     (case GetSession (srv_store cf) (E 0) i s of
        Inl e \<Rightarrow> answer (writeError 500 (err_text e))
      | Inr (Some v) \<Rightarrow> answer (writeError 409 ''session already exists'')
      | Inr None \<Rightarrow>
         let method = (if method0 = [] then ''qr'' else method0) in
     (case pairing_phone method phone0 of
        Inl t \<Rightarrow> answer (writeError 400 t)
      | Inr phone \<Rightarrow>
         let v = new_session i method (c_now (E 1)) in
         put_session_t cf (E 1) v (\<lambda>r. case r of
           Some e \<Rightarrow> answer (writeError 500 (err_text e))
         | None \<Rightarrow> event_t cf (E 2) ''created'' i phone (event_t cf (E 2) ''connecting'' i phone
             (start_client_t cf E i method phone v)))), s)))"

section \<open>Actions on a session\<close>

text \<open>
  \<open>Reconnect\<close> looks the client up, disconnects it and takes it out of the map in separate statements: the entry it
  deletes is that of the session at that moment.
\<close>

definition recreate_t :: "srv_cfg \<Rightarrow> (nat \<Rightarrow> ctx) \<Rightarrow> string \<Rightarrow> (err option \<Rightarrow> srv_thread) \<Rightarrow> srv_thread" where
  "recreate_t cf E i k = Call SessionQuery (\<lambda>s. (case GetSession (srv_store cf) (E 1) i s of
       Inl e \<Rightarrow> k (Some e)
     | Inr None \<Rightarrow> k (Some (Errorf (''session '' @ i @ '' not found'') None))
     | Inr (Some v) \<Rightarrow> manager_t ClientCreate (sm_Create (E 2) i (s_Method v) (s_PhoneNumber v)) k, s))"

definition reconnect_t :: "srv_cfg \<Rightarrow> (nat \<Rightarrow> ctx) \<Rightarrow> string \<Rightarrow> (err option \<Rightarrow> srv_thread) \<Rightarrow> srv_thread" where
  "reconnect_t cf E i k = Call ClientLookup (\<lambda>s. case sm_clients (sv_mgr s) i of
       Some p \<Rightarrow> if \<not> client_IsLoggedIn (E 0)
         then (manager_t ClientDisconnect (\<lambda>m. (fst client_Disconnect, set_client_status p (snd client_Disconnect) m)) (\<lambda>_.
               manager_t ClientDrop (\<lambda>m. (None, drop_client i m)) (\<lambda>_. recreate_t cf E i k)), s)
         else (k None, s\<lparr>sv_mgr := spawn [ConnectTask p i []] (sv_mgr s)\<rparr>)
     | None \<Rightarrow> (recreate_t cf E i k, s))"

definition client_action_t :: "srv_cfg \<Rightarrow> (nat \<Rightarrow> ctx) \<Rightarrow> string \<Rightarrow> string \<Rightarrow> (err option \<Rightarrow> srv_thread) \<Rightarrow> srv_thread" where
  "client_action_t cf E status i k =
     (if \<not> cf_whatsapp cf then k None
      else if status = ''reconnecting'' then reconnect_t cf (\<lambda>j. E (10 + j)) i k
      else if status = ''disconnected'' then manager_t ClientDisconnect (sm_Disconnect i) k
      else if status = ''logged_out'' then logout_t (E 2) i k
      else k None)"

definition action_done_t :: "srv_cfg \<Rightarrow> (nat \<Rightarrow> ctx) \<Rightarrow> string \<Rightarrow> session \<Rightarrow> srv_thread" where
  "action_done_t cf E status v =
     (if status = ''logged_out'' then
        put_session_t cf (E 4) (v\<lparr>s_Status := ''disconnected'', s_QRCode := [], s_PairingCode := [], s_QRExpiresAt := None\<rparr>)
          (\<lambda>_. answer (write_json 200 (done_text ''Session logged out'')))
      else if status = ''disconnected'' then answer (write_json 200 (done_text ''Session disconnected''))
      else answer (write_json 200 (session_json v)))"

definition sessionAction_t :: "srv_cfg \<Rightarrow> string \<Rightarrow> (nat \<Rightarrow> ctx) \<Rightarrow> request \<Rightarrow> srv_thread" where
  "sessionAction_t cf status E r = Call SessionQuery (\<lambda>s.
     (case GetSession (srv_store cf) (E 0) (rq_param r) s of
        Inl e \<Rightarrow> answer (writeError 500 (err_text e))
      | Inr None \<Rightarrow> answer (writeError 404 ''session not found'')
      | Inr (Some v0) \<Rightarrow>
         let v = v0\<lparr>s_Status := status, s_UpdatedAt := c_now (E 1)\<rparr> in
         put_session_t cf (E 1) v (\<lambda>q. case q of
           Some e \<Rightarrow> answer (writeError 500 (err_text e))
         | None \<Rightarrow> client_action_t cf E status (rq_param r) (\<lambda>q. case q of
             Some e \<Rightarrow> answer (writeError 502 (err_text e))
           | None \<Rightarrow>
              if status = ''reconnecting'' \<or> status = ''logged_out''
              then event_t cf (E 3) status (rq_param r) (s_PhoneNumber v) (action_done_t cf E status v)
              else action_done_t cf E status v)), s))"

section \<open>The threads are the handlers\<close>

lemma run_put_session: "run (put_session_t cf c v k) s = (case PutSession (srv_store cf) c v s of (r, s') \<Rightarrow> run (k r) s')"
  by (simp add: put_session_t_def split: prod.split)

lemma run_start_client: "replied (run (start_client_t cf E i me h v) s) = start_client cf E i me h v s"
  by (simp add: start_client_t_def start_client_def run_manager run_event split: prod.split option.split)

lemma run_createSession: "replied (run (createSession_t cf E r) s) = createSession cf E r p s"
  by (auto simp: createSession_t_def createSession_def run_put_session run_event run_start_client Let_def
      split: option.split sum.split prod.split)

text \<open>The store does not read the session manager.\<close>

lemma GetSession_mgr [simp]: "GetSession (srv_store cf) c i (s\<lparr>sv_mgr := m\<rparr>) = GetSession (srv_store cf) c i s"
  by (simp add: srv_store_def srv_db_def)

lemma run_recreate:
  "run (recreate_t cf E i k) (s\<lparr>sv_mgr := m\<rparr>) = (case recreate (srv_store cf) E i s m of (r, m') \<Rightarrow> run (k r) (s\<lparr>sv_mgr := m'\<rparr>))"
  by (simp add: recreate_t_def recreate_def run_manager split: sum.split option.split prod.split)

lemma run_reconnect:
  "run (reconnect_t cf E i k) s = (case sm_Reconnect (srv_store cf) E i s (sv_mgr s) of (r, m) \<Rightarrow> run (k r) (s\<lparr>sv_mgr := m\<rparr>))"
  using run_recreate [where s = s and m = "sv_mgr s"]
  by (simp add: reconnect_t_def sm_Reconnect_def run_manager run_recreate split: option.split)

lemma run_client_action:
  "run (client_action_t cf E a i k) s = (case client_action cf E a i s of (r, m) \<Rightarrow> run (k r) (s\<lparr>sv_mgr := m\<rparr>))"
  by (simp add: client_action_t_def client_action_def run_reconnect run_manager run_logout)

lemma run_action_done: "replied (run (action_done_t cf E a v) s) = action_done cf E a v s"
  by (simp add: action_done_t_def action_done_def run_put_session split: prod.split)

lemma run_sessionAction: "replied (run (sessionAction_t cf a E r) s) = sessionAction cf a E r p s"
  by (auto simp: sessionAction_t_def sessionAction_def run_put_session run_client_action run_event run_action_done Let_def
      split: option.split sum.split prod.split)

section \<open>The number of statements\<close>

lemma calls_put_session: "(\<And>r. calls_le n (k r)) \<Longrightarrow> calls_le (Suc n) (put_session_t cf c v k)"
  by (simp add: put_session_t_def split_beta)

lemma calls_createSession: "calls_le 7 (createSession_t cf E r)"
proof -
  have "calls_le 3 (start_client_t cf E i me h v)" for i me h v
    by (auto simp: start_client_t_def eval_nat_numeral split_beta intro!: calls_manager calls_event split: option.split)
  then show ?thesis
    by (auto simp: createSession_t_def eval_nat_numeral Let_def intro!: calls_put_session calls_event split: option.split sum.split)
qed

lemma calls_reconnect:
  assumes "\<And>r. calls_le n (k r)"
  shows "calls_le (Suc (Suc (Suc (Suc (Suc n))))) (reconnect_t cf E i k)"
proof -
  have k: "calls_le (Suc n) (k r)" "calls_le (Suc (Suc (Suc (Suc n)))) (k r)" for r by (rule calls_le_mono [OF assms]; simp)+
  have q: "calls_le (Suc (Suc n)) (recreate_t cf E i k)"
    using assms k(1) by (auto simp: recreate_t_def intro!: calls_manager split: sum.split option.split)
  then have "calls_le (Suc (Suc (Suc (Suc n)))) (recreate_t cf E i k)" by (rule calls_le_mono) simp
  with k(2) q show ?thesis by (auto simp: reconnect_t_def intro!: calls_manager split: option.split)
qed

text \<open>An action on the client, with at most two statements to follow.\<close>

lemma calls_client_action:
  assumes "\<And>q. calls_le 2 (k q)"
  shows "calls_le 7 (client_action_t cf E a i k)"
proof -
  have "calls_le 7 (k q)" "calls_le 6 (k q)" and k4: "calls_le 4 (k q)" for q using calls_le_mono [OF assms] by simp_all
  then show ?thesis
    using calls_reconnect [OF assms, of cf "\<lambda>j. E (10 + j)" i] calls_manager [of 6 k] calls_logout [of 4 k "E 2" i] k4
    by (simp add: client_action_t_def eval_nat_numeral)
qed

lemma calls_sessionAction: "calls_le 9 (sessionAction_t cf a E r)"
proof -
  have d: "calls_le 1 (action_done_t cf E a v)" for v
    by (auto simp: action_done_t_def intro!: calls_put_session [of 0, simplified])
  then have d2: "calls_le 2 (action_done_t cf E a v)" for v by (rule calls_le_mono) simp
  have e: "calls_le 2 (event_t cf (E 3) a i h (action_done_t cf E a v))" for i h v
    using calls_event [OF d] by (simp add: numeral_2_eq_2)
  have "calls_le (Suc (Suc n)) (sessionAction_t cf a E r)"
    if "\<And>k. (\<And>q. calls_le 2 (k q)) \<Longrightarrow> calls_le n (client_action_t cf E a (rq_param r) k)" for n
    unfolding sessionAction_t_def Let_def
    by (simp add: calls_put_session that d2 e split: sum.split option.split)
  from this [OF calls_client_action] show ?thesis by simp
qed

text \<open>
  The cut into statements agrees with the handlers.  Run alone, the threads of \<open>sendMessage\<close>, \<open>resendMessage\<close>, \<open>deleteMessage\<close>,
  \<open>deleteSession\<close>, \<open>createSession\<close>, \<open>sessionAction\<close> and of a task give the reply, the error and the state the handlers give, on
  every branch and under every fault; and each ends after a bounded number of statements: 5, 3, 2, 6, 7, 9, and 6 beside the
  iterations of the limiter.
\<close>

lemma threads_are_handlers:
  "replied (run (sendMessage_t cf E r p) s) = sendMessage cf E r p s \<and> calls_le 5 (sendMessage_t cf E r p)
    \<and> replied (run (resendMessage_t cf E r) s) = resendMessage cf E r p s \<and> calls_le 3 (resendMessage_t cf E r)
    \<and> replied (run (deleteMessage_t cf E r) s) = deleteMessage cf E r p s \<and> calls_le 2 (deleteMessage_t cf E r)
    \<and> replied (run (deleteSession_t cf E r) s) = deleteSession cf E r p s \<and> calls_le 6 (deleteSession_t cf E r)
    \<and> replied (run (createSession_t cf E r) s) = createSession cf E r p s \<and> calls_le 7 (createSession_t cf E r)
    \<and> replied (run (sessionAction_t cf a E r) s) = sessionAction cf a E r p s \<and> calls_le 9 (sessionAction_t cf a E r)
    \<and> run (handle_task_t cf obs E payload) s =
        (case handle_task (gateway_worker (cf_uuid cf) (cf_hooks cf) obs (sv_mgr s)) E payload (sv_world s) of
          (e, w) \<Rightarrow> (Returned_err e, s\<lparr>sv_world := w\<rparr>))
    \<and> calls_le (2 * length obs + 6) (handle_task_t cf obs E payload)"
  by (intro conjI run_sendMessage run_resendMessage run_deleteMessage run_deleteSession run_createSession run_sessionAction
      run_handle_task calls_send calls_task calls_createSession calls_sessionAction
      calls_messages [folded numeral_2_eq_2 numeral_3_eq_3, simplified] calls_deleteSession)

end
