(* ===== verification/Concurrent_Gateway.thy ===== *)
theory Concurrent_Gateway
  imports Session_Threads
begin

text \<open>
  The requests and tasks of \<open>Http_Threads\<close> and \<open>Session_Threads\<close>, any number of them, interleaved statement by statement with each other
  and with the steps of \<open>Gateway_System\<close>.  The handlers check and act in separate statements; the argument that this is safe
  for a message is by rely and guarantee: once a message is no longer pending it never is again, so what
  \<open>deleteMessage\<close> has checked still holds when it deletes.  For a session it is not: one that was deleted can be
  written back (\<open>deleted_session_returns\<close>).
\<close>

section \<open>The life of one message\<close>

text \<open>
  The changes of the message \<open>u\<close> that every statement respects: its letter stays, it leaves the pending
  statuses for good, it disappears only when it is not pending, and an identifier that is gone is not used again.
\<close>

definition follows :: "string \<Rightarrow> srv \<Rightarrow> srv \<Rightarrow> bool" where
  "follows u s s' \<longleftrightarrow> (case outbox_of (msgs s) u of
     None \<Rightarrow> outbox_of (msgs s') u = None
   | Some (l, a) \<Rightarrow> (case outbox_of (msgs s') u of
       None \<Rightarrow> \<not> pending a
     | Some (l', a') \<Rightarrow> l' = l \<and> (a' = a \<or> \<not> pending a')))"

definition settled :: "string \<Rightarrow> srv \<Rightarrow> bool" where
  "settled u s \<longleftrightarrow> (case outbox_of (msgs s) u of None \<Rightarrow> True | Some (l, a) \<Rightarrow> \<not> pending a)"

lemma follows_same: "msgs s' = msgs s \<Longrightarrow> follows u s s'"
  by (simp add: follows_def split: option.split)

lemma follows_settled: "follows u s s' \<Longrightarrow> settled u s \<Longrightarrow> settled u s'"
  by (auto simp: follows_def settled_def split: option.splits)

lemma follows_settled_rtrancl: "(follows u)\<^sup>*\<^sup>* s s' \<Longrightarrow> settled u s \<Longrightarrow> settled u s'"
  by (induction rule: rtranclp_induct) (auto intro: follows_settled)

lemma advances_settles: "advances a a' \<Longrightarrow> \<not> pending a'"
  by (auto simp: advances_def pending_def)

lemma progresses_follows:
  "progress\<^sup>*\<^sup>* b b' \<Longrightarrow> (case b u of None \<Rightarrow> b' u = None
     | Some (l, a) \<Rightarrow> (case b' u of None \<Rightarrow> \<not> pending a | Some (l', a') \<Rightarrow> l' = l \<and> (a' = a \<or> \<not> pending a')))"
proof (induction rule: rtranclp_induct)
  case base
  then show ?case by (simp split: option.split)
next
  case (step y z)
  from step.hyps(2) obtain i l a a' where z: "y i = Some (l, a)" "advances a a'" "z = y(i \<mapsto> (l, a'))" by (elim progressE)
  then show ?case using step.IH advances_settles by (auto split: option.splits)
qed

text \<open>A step of the outbox that does not post \<open>u\<close>.\<close>

lemma outbox_follows:
  assumes "outbox_step (outbox_of (msgs s)) (outbox_of (msgs s'))"
    and "outbox_of (msgs s) u = None \<Longrightarrow> outbox_of (msgs s') u = None"
  shows "follows u s s'"
  using assms(1)
proof cases
  case (Post i l)
  then show ?thesis using assms(2) by (auto simp: follows_def split: option.split)
next
  case Progress
  from progresses_follows [OF this, of u] show ?thesis by (simp add: follows_def)
next
  case (Remove i l a)
  then show ?thesis by (auto simp: follows_def split: option.split)
qed

section \<open>Statements that comply\<close>

abbreviation obeys :: "srv_cfg \<Rightarrow> string \<Rightarrow> srv_thread \<Rightarrow> srv \<Rightarrow> bool" where
  "obeys cf u \<equiv> complies (srv_ok cf) (follows u)"

lemma obeys_call:
  assumes "\<And>s'. (follows u)\<^sup>*\<^sup>* s s' \<Longrightarrow> srv_ok cf s' \<Longrightarrow> srv_ok cf (snd (f s')) \<and> follows u s' (snd (f s'))"
    and "\<And>s' t s''. (follows u)\<^sup>*\<^sup>* s s' \<Longrightarrow> srv_ok cf s' \<Longrightarrow> f s' = (t, s'') \<Longrightarrow> obeys cf u t s''"
  shows "obeys cf u (Call l f) s"
proof (rule complies.Call)
  fix s' assume s': "(follows u)\<^sup>*\<^sup>* s s'" "srv_ok cf s'"
  show "srv_ok cf (snd (f s'))" "follows u s' (snd (f s'))" using assms(1) [OF s'] by blast+
  show "obeys cf u (fst (f s')) (snd (f s'))" by (rule assms(2) [OF s']) simp
qed

lemma obeys_query:
  assumes "\<And>s' res. (follows u)\<^sup>*\<^sup>* s s' \<Longrightarrow> srv_ok cf s' \<Longrightarrow> (\<And>x. res = Inr x \<Longrightarrow> q (srv_db s') = Inr x) \<Longrightarrow> obeys cf u (k res) s'"
  shows "obeys cf u (query_t l cf c q k) s"
proof (cases "cf_db cf")
  case True
  have "obeys cf u (Call l (\<lambda>s. (k (case c_fault c 0 of Some e \<Rightarrow> Inl e | None \<Rightarrow> q (srv_db s)), s))) s"
    by (rule obeys_call) (auto intro!: assms follows_same split: option.splits)
  then show ?thesis using True by (simp add: query_t_def)
qed (simp add: query_t_def complies.Done)

text \<open>The others keep to their part whatever happened before.\<close>

lemma obeys_frame:
  assumes "\<And>s'. srv_ok cf s' \<Longrightarrow> srv_ok cf (snd (f s')) \<and> msgs (snd (f s')) = msgs s'" "\<And>s' s''. obeys cf u (fst (f s')) s''"
  shows "obeys cf u (Call l f) s"
  using assms by (intro obeys_call) (auto intro: follows_same, metis fst_conv)

lemma obeys_world:
  assumes "\<And>w. world_ok (cf_uuid cf) w \<Longrightarrow> world_ok (cf_uuid cf) (snd (f w)) \<and> wmsgs (snd (f w)) = wmsgs w"
    and "\<And>x s. obeys cf u (k x) s"
  shows "obeys cf u (world_t l f k) s"
  unfolding world_t_def
proof (rule obeys_frame)
  fix s' assume "srv_ok cf s'"
  then show "srv_ok cf (snd (case f (sv_world s') of (x, w) \<Rightarrow> (k x, s'\<lparr>sv_world := w\<rparr>)))
      \<and> msgs (snd (case f (sv_world s') of (x, w) \<Rightarrow> (k x, s'\<lparr>sv_world := w\<rparr>))) = msgs s'"
    using assms(1) [OF srv_ok_worldD] by (auto simp: srv_db_def split_beta intro: srv_ok_world)
qed (simp add: assms(2) split_beta)

lemma obeys_status:
  assumes "a \<in> {''sent'', ''failed''}" "\<And>x s. obeys cf u (k x) s"
  shows "obeys cf u (world_t StatusUpdate (UpdateMessageStatus (gateway_store (cf_uuid cf)) c i a x e) k) s"
  unfolding world_t_def
proof (rule obeys_call)
  fix s' assume ok: "srv_ok cf s'"
  let ?w = "snd (UpdateMessageStatus (gateway_store (cf_uuid cf)) c i a x e (sv_world s'))"
  have "world_ok (cf_uuid cf) ?w" by (rule gw_messages.status_ok [OF srv_ok_worldD [OF ok]])
  moreover have "progress\<^sup>*\<^sup>* (outbox_of (msgs s')) (outbox_of (wmsgs ?w))"
    using status_progresses [OF srv_ok_distinct [OF ok] assms(1)] by (simp add: srv_db_def)
  then have "follows u s' (s'\<lparr>sv_world := ?w\<rparr>)" by (simp add: follows_def srv_db_def progresses_follows)
  ultimately show "srv_ok cf (snd (case UpdateMessageStatus (gateway_store (cf_uuid cf)) c i a x e (sv_world s') of
        (x, w) \<Rightarrow> (k x, s'\<lparr>sv_world := w\<rparr>)))
      \<and> follows u s' (snd (case UpdateMessageStatus (gateway_store (cf_uuid cf)) c i a x e (sv_world s') of
        (x, w) \<Rightarrow> (k x, s'\<lparr>sv_world := w\<rparr>)))"
    using ok by (simp add: split_beta srv_ok_world)
qed (use assms(2) in \<open>auto split: prod.splits\<close>)

section \<open>Requests that comply\<close>

lemma obeys_enqueue: "obeys cf u (enqueue_t cf c job i ok) s"
  by (auto simp: enqueue_t_def srv_enqueue_def srv_db_def intro!: obeys_frame complies.Done
      split: queue_kind.split option.split prod.split)

text \<open>A new message under another identifier than \<open>u\<close>.\<close>

lemma obeys_put:
  assumes "cf_db cf" "uuid_canonical (cf_uuid cf)" "cf_uuid cf (m_ID v) \<noteq> Some u" "m_Status v = ''queued''" "\<And>r s. obeys cf u (k r) s"
  shows "obeys cf u (put_t cf c v k) s"
  unfolding put_t_def
proof (rule obeys_call)
  fix s' assume ok: "srv_ok cf s'"
  obtain r s1 where p: "PutMessage (srv_store cf) c v s' = (r, s1)" by fastforce
  then obtain d where d: "pg_PutMessage (cf_uuid cf) c v (srv_db s') = (r, d)" "srv_db s1 = d"
    using assms(1) by (auto simp: srv_PutMessage_db split: prod.splits)
  have "follows u s' s1"
  proof (cases r)
    case None
    then obtain i t where "cf_uuid cf (m_ID v) = Some i" "t_messages d = msgs s' @ [message_row_of i t (c_now c) v]"
      using pg_PutMessage_None [of "cf_uuid cf" c v "srv_db s'" d] d(1) by auto
    then have "outbox_of (msgs s') u = None \<Longrightarrow> outbox_of (msgs s1) u = None"
      using assms(3) by (auto simp: d(2) outbox_None message_row_of_def)
    moreover have "outbox_step (outbox_of (msgs s')) (outbox_of (msgs s1))"
      using put_message_posts [OF srv_ok_pg [OF ok] _ assms(4)] d None by metis
    ultimately show ?thesis by (rule outbox_follows [rotated])
  next
    case (Some e)
    then show ?thesis using d pg_PutMessage_Some [of "cf_uuid cf" c v "srv_db s'" e d] by (simp add: follows_same)
  qed
  then show "srv_ok cf (snd (case PutMessage (srv_store cf) c v s' of (r, s') \<Rightarrow> (k r, s')))
      \<and> follows u s' (snd (case PutMessage (srv_store cf) c v s' of (r, s') \<Rightarrow> (k r, s')))"
    using srv_PutMessage_ok [OF assms(2) ok, of c v] p by simp
qed (use assms(5) in \<open>auto split: prod.splits\<close>)

text \<open>The identifier a request generates is another one than \<open>u\<close>.\<close>

definition fresh_for :: "srv_cfg \<Rightarrow> string \<Rightarrow> (nat \<Rightarrow> ctx) \<Rightarrow> bool" where
  "fresh_for cf u E \<longleftrightarrow> cf_uuid cf (randomID cf (E 6)) \<noteq> Some u"

lemma obeys_send_new:
  assumes "cf_db cf" "uuid_canonical (cf_uuid cf)" "fresh_for cf u E"
  shows "obeys cf u (send_new_t cf E p b key) s"
  unfolding send_new_t_def send_again_t_def Let_def
  by (rule obeys_put)
    (use assms in \<open>auto simp: fresh_for_def new_message_def intro!: obeys_query obeys_enqueue complies.Done split: option.split sum.split\<close>)

lemma obeys_send:
  assumes "cf_db cf" "uuid_canonical (cf_uuid cf)" "fresh_for cf u E"
  shows "obeys cf u (sendMessage_t cf E r p) s"
proof -
  have "obeys cf u (send_resolved_t cf E p b key) s" for b key s
    by (auto simp: send_resolved_t_def obeys_send_new [OF assms] intro!: obeys_query complies.Done split: sum.split)
  then show ?thesis
    by (auto simp: sendMessage_t_def send_template_t_def intro!: obeys_query obeys_frame complies.Done split: option.split sum.split)
qed

lemma obeys_resend:
  assumes "cf_db cf" "uuid_canonical (cf_uuid cf)" "fresh_for cf u E"
  shows "obeys cf u (resendMessage_t cf E r) s"
  unfolding resendMessage_t_def
proof (rule obeys_query)
  fix s' :: srv and res :: "err + message_row"
  show "obeys cf u (case res of Inl e \<Rightarrow> answer (row_error ''Message not found'' e)
       | Inr m \<Rightarrow> let old = resent_message m (randomID cf (E 6)) (c_now (E 6)) in
          put_t cf (E 3) old (\<lambda>r. case r of Some e \<Rightarrow> answer (writeError 500 (err_text e))
           | None \<Rightarrow> enqueue_t cf (E 5) (resent_job old) (m_JobID old) (queued_reply (m_ID old) ''Message requeued''))) s'"
    using assms by (auto simp: Let_def fresh_for_def resent_message_def intro!: obeys_put obeys_enqueue complies.Done
        split: sum.split option.split)
qed

text \<open>The deletion: what the query saw is still so when the statement runs.\<close>

lemma settled_row:
  assumes "srv_ok cf s" "find_message cf i (srv_db s) = Inr m" "cf_uuid cf i = Some v" "\<not> pending (mr_status m)"
  shows "settled v s"
proof -
  have "mr_id m = v" "m \<in> set (msgs s)" using find_message_Inr [OF assms(2)] assms(3) by auto
  then have "outbox_of (msgs s) v = Some (letter_of m, mr_status m)"
    using outbox_Some [of "msgs s" m] srv_ok_db [OF assms(1)] by (simp add: db_ok_defs)
  then show ?thesis using assms(4) by (simp add: settled_def)
qed

lemma delete_follows:
  assumes "settled u s \<or> v \<noteq> u"
  shows "follows u s (put_srv_db (delete_message_rows v (srv_db s)) s)"
  using assms by (auto simp: follows_def settled_def delete_message_rows_def outbox_delete split: option.splits)

lemma obeys_delete:
  "obeys cf u (deleteMessage_t cf E r) s"
  unfolding deleteMessage_t_def
proof (rule obeys_query)
  fix s1 and res :: "err + message_row"
  assume ok: "srv_ok cf s1" and q: "\<And>x. res = Inr x \<Longrightarrow> find_message cf (rq_param r) (srv_db s1) = Inr x"
  have "obeys cf u (exec_t MessageDelete cf (E 1) (\<lambda>d. case cf_uuid cf (rq_param r) of None \<Rightarrow> (Inl invalid_text, d)
                | Some v \<Rightarrow> (Inr (), delete_message_rows v d))
            (\<lambda>res. case res of Inl e \<Rightarrow> answer (writeError 500 (err_text e))
              | Inr _ \<Rightarrow> answer (write_json 200 (done_text ''Message deleted'')))) s1"
    if "res = Inr m" "\<not> pending (mr_status m)" for m
  proof (cases "cf_db cf")
    case True
    have st: "cf_uuid cf (rq_param r) = Some u \<Longrightarrow> settled u s1" using settled_row [OF ok q] that by blast
    show ?thesis unfolding exec_t_def
      using True st follows_settled_rtrancl
      by (auto intro!: obeys_call complies.Done delete_follows srv_ok_put delete_message_rows_pg_ok
          simp: srv_ok_pg follows_same split: option.splits)
  qed (simp add: exec_t_def complies.Done)
  then show "obeys cf u (case res of Inl e \<Rightarrow> answer (row_error ''Message not found'' e)
       | Inr m \<Rightarrow>
          if mr_status m = ''queued'' \<or> mr_status m = ''processing''
          then answer (writeError 409 ''Message cannot be deleted while queued or processing'')
          else exec_t MessageDelete cf (E 1) (\<lambda>d. case cf_uuid cf (rq_param r) of None \<Rightarrow> (Inl invalid_text, d)
                | Some u \<Rightarrow> (Inr (), delete_message_rows u d))
            (\<lambda>res. case res of Inl e \<Rightarrow> answer (writeError 500 (err_text e))
              | Inr _ \<Rightarrow> answer (write_json 200 (done_text ''Message deleted'')))) s1"
    by (auto simp: pending_def intro: complies.Done split: sum.split)
qed

lemma obeys_exec:
  assumes "\<And>d. pg_ok (cf_uuid cf) d \<Longrightarrow> pg_ok (cf_uuid cf) (snd (q d)) \<and> t_messages (snd (q d)) = t_messages d"
    and "\<And>res s. obeys cf u (k res) s"
  shows "obeys cf u (exec_t l cf c q k) s"
proof (cases "cf_db cf")
  case True
  have "obeys cf u (Call l (\<lambda>s. case (case c_fault c 0 of Some e \<Rightarrow> (Inl e, srv_db s) | None \<Rightarrow> q (srv_db s)) of
      (r, d) \<Rightarrow> (k r, put_srv_db d s))) s"
    by (rule obeys_frame) (use assms in \<open>auto simp: split_beta srv_ok_pg intro!: srv_ok_put split: option.split\<close>)
  then show ?thesis using True by (simp add: exec_t_def)
qed (simp add: exec_t_def complies.Done)

lemma obeys_event:
  assumes "\<And>s. obeys cf u k s"
  shows "obeys cf u (event_t cf c a i h k) s"
proof (cases "cf_events cf")
  case True
  let ?f = "\<lambda>s. case broker_dispatch c (''session.'' @ a) (JObj [(''sessionId'', JStr i), (''status'', JStr a),
      (''phoneNumber'', JStr h)]) (sv_world s) of (e, w) \<Rightarrow> (if panicked e then answer Crash else k, s\<lparr>sv_world := w\<rparr>)"
  have eq: "snd (?f s') = snd (dispatchSessionEvent cf c a i h (\<lambda>s'. (Crash, s')) s')" for s'
    using True by (simp add: dispatchSessionEvent_def split_beta)
  have "obeys cf u (Call SessionEvent ?f) s"
    by (rule obeys_frame, unfold eq)
      (use assms in \<open>auto simp: split_beta intro!: dispatch_event_ok dispatch_event_msgs complies.Done\<close>)
  then show ?thesis using True by (simp add: event_t_def)
qed (simp add: event_t_def assms)

lemma obeys_put_session: "(\<And>r s. obeys cf u (k r) s) \<Longrightarrow> obeys cf u (put_session_t cf c v k) s"
  unfolding put_session_t_def
  by (rule obeys_frame) (auto simp: split_beta store_msgs srv_sessions.put_ok)

lemma obeys_manager:
  "(\<And>m. mgr_ok m \<Longrightarrow> mgr_ok (snd (f m))) \<Longrightarrow> (\<And>r s. obeys cf u (k r) s) \<Longrightarrow> obeys cf u (manager_t l f k) s"
  unfolding manager_t_def
  by (rule obeys_frame) (auto simp: split_beta srv_ok_mgr srv_ok_mgrD srv_db_def)

lemma obeys_createSession: "obeys cf u (createSession_t cf E r) s"
proof -
  have "obeys cf u (start_client_t cf E i me h v) s" for i me h v s
    unfolding start_client_t_def
    by (auto simp: split_beta store_msgs sm_Create_ok srv_sessions.update_ok
        intro!: obeys_manager obeys_frame obeys_event complies.Done split: option.split)
  then show ?thesis
    unfolding createSession_t_def Let_def
    by (auto intro!: obeys_frame obeys_put_session obeys_event complies.Done split: option.split sum.split)
qed

lemma obeys_logout: "(\<And>r s. obeys cf u (k r) s) \<Longrightarrow> obeys cf u (logout_t c i k) s"
  unfolding logout_t_def by (auto intro!: obeys_frame obeys_manager split: option.split)

lemma obeys_deleteSession: "obeys cf u (deleteSession_t cf E r) s"
proof -
  have d: "obeys cf u (delete_session_t cf E i) s" for i s
    unfolding delete_session_t_def
    by (auto simp: statement_msgs intro!: obeys_exec obeys_event complies.Done delete_session_exec_ok split: sum.split)
  show ?thesis unfolding deleteSession_t_def
    by (auto intro!: obeys_query obeys_logout d complies.Done split: sum.split)
qed

lemma obeys_client_action:
  assumes "\<And>q s. obeys cf u (k q) s"
  shows "obeys cf u (client_action_t cf E a i k) s"
proof -
  have "obeys cf u (recreate_t cf E' i k) s" for E' s
    unfolding recreate_t_def using assms
    by (auto simp: sm_Create_ok intro!: obeys_frame obeys_manager split: sum.split option.split)
  then have "obeys cf u (reconnect_t cf E' i k) s" for E'
    unfolding reconnect_t_def using assms
    by (auto simp: srv_ok_mgr srv_ok_mgrD srv_db_def intro!: obeys_frame obeys_manager split: option.split)
  then show ?thesis
    using assms by (auto simp: client_action_t_def mgr_ops_ok intro!: obeys_manager obeys_logout)
qed

lemma obeys_sessionAction: "obeys cf u (sessionAction_t cf a E r) s"
proof -
  have d: "obeys cf u (action_done_t cf E a v) s" for v s
    by (auto simp: action_done_t_def intro!: obeys_put_session complies.Done)
  have e: "obeys cf u (event_t cf (E 3) a i h (action_done_t cf E a v)) s" for i h v s by (rule obeys_event [OF d])
  show ?thesis
    unfolding sessionAction_t_def Let_def
    by (rule obeys_frame) (simp_all add: obeys_put_session obeys_client_action complies.Done d e split: option.split sum.split)
qed

section \<open>Tasks that comply\<close>

lemma limiter_frame [simp]:
  "srv_ok cf (s\<lparr>sv_world := (sv_world s)\<lparr>w_limiter := l\<rparr>\<rparr>) = srv_ok cf s"
  "srv_db (s\<lparr>sv_world := (sv_world s)\<lparr>w_limiter := l\<rparr>\<rparr>) = srv_db s"
  by (simp_all add: srv_ok_def world_ok_def srv_db_def w_db_def)

lemma obeys_wait: "(\<And>r s. obeys cf u (k r) s) \<Longrightarrow> obeys cf u (wait_t obs i k) s"
proof (induction obs arbitrary: s)
  case (Cons ob obs)
  show ?case
    by (auto simp: srv_db_def intro!: obeys_frame Cons split: prod.split wait_out.split)
qed simp

lemma obeys_publish: "(\<And>r s. obeys cf u (k r) s) \<Longrightarrow> obeys cf u (publish_t cf c ev p k) s"
  unfolding publish_t_def
proof (rule obeys_world)
  fix w assume "world_ok (cf_uuid cf) w"
  then show "world_ok (cf_uuid cf) (snd (opt_dispatch (Some (gateway_dispatcher (cf_hooks cf))) c ev p w))
      \<and> wmsgs (snd (opt_dispatch (Some (gateway_dispatcher (cf_hooks cf))) c ev p w)) = wmsgs w"
    by (simp add: publish_wmsgs) (simp add: opt_dispatch_def split_beta dispatcher_ok)
qed

lemma record_world:
  assumes "world_ok u w"
  shows "world_ok u (snd (lift_write w_db put_db (RecordFailure c i) w)) \<and> wmsgs (snd (lift_write w_db put_db (RecordFailure c i) w)) = wmsgs w"
    "world_ok u (snd (lift_write w_db put_db (RecordSuccess c i) w)) \<and> wmsgs (snd (lift_write w_db put_db (RecordSuccess c i) w)) = wmsgs w"
  using Record_world_ok [OF assms] by simp_all

lemma job_update_world:
  "world_ok u w \<Longrightarrow> world_ok u (snd (UpdateQueueJob (gateway_store u) c i a e w)) \<and> wmsgs (snd (UpdateQueueJob (gateway_store u) c i a e w)) = wmsgs w"
  by (simp add: gw_messages.job_ok worker_parts_wmsgs)

lemma send_world:
  "world_ok u w \<Longrightarrow> world_ok u (snd (send_job (queue_sender v) c job w)) \<and> wmsgs (snd (send_job (queue_sender v) c job w)) = wmsgs w"
  by (simp add: send_job_wmsgs) (simp add: send_job_def queue_sender_def split_beta world_ok_def w_db_def)

lemma obeys_task: "obeys cf u (handle_task_t cf obs E payload) s"
proof -
  have "obeys cf u (failure_t cf E job t r) s" "obeys cf u (success_t cf E job x) s" for job t r x s
    unfolding failure_t_def success_t_def
    by (auto intro!: obeys_world obeys_status obeys_publish complies.Done record_world job_update_world split: option.split)
  then have "obeys cf u (process_job_t cf obs E job) s" for job s
    unfolding process_job_t_def
    by (intro obeys_wait) (auto intro!: obeys_frame obeys_world complies.Done send_world split: option.split sum.split)
  then show ?thesis by (simp add: handle_task_t_def complies.Done split: sum.split)
qed

section \<open>The concurrent gateway\<close>

text \<open>
  What may start at any time: a request to send, resend or delete a message, to create, delete, reconnect, disconnect or log out
  a session, and a task.  Everything else is a step of \<open>Gateway_System\<close>.  The identifiers new messages get are not \<open>u\<close>.
\<close>

inductive gw_starts :: "srv_cfg \<Rightarrow> string \<Rightarrow> srv_thread \<Rightarrow> bool" for cf u where
  Send: "fresh_for cf u E \<Longrightarrow> gw_starts cf u (sendMessage_t cf E r p)"
| Resend: "fresh_for cf u E \<Longrightarrow> gw_starts cf u (resendMessage_t cf E r)"
| Delete: "gw_starts cf u (deleteMessage_t cf E r)"
| DeleteSession: "gw_starts cf u (deleteSession_t cf E r)"
| CreateSession: "gw_starts cf u (createSession_t cf E r)"
| SessionAction: "gw_starts cf u (sessionAction_t cf a E r)"
| Task: "gw_starts cf u (handle_task_t cf obs E payload)"

definition gw_env ::
  "srv_cfg \<Rightarrow> (string \<Rightarrow> string option) \<Rightarrow> chi \<Rightarrow> (string \<Rightarrow> err + string) \<Rightarrow> (time \<Rightarrow> string) \<Rightarrow> (string \<Rightarrow> bool) \<Rightarrow> string \<Rightarrow> srv \<Rightarrow> srv \<Rightarrow> bool" where
  "gw_env cf files chi png fmt known u s s' \<longleftrightarrow> gw_step cf files chi png fmt known s s'
     \<and> (u \<notin> mr_id ` set (msgs s) \<longrightarrow> u \<notin> mr_id ` set (msgs s'))"

lemma gw_starts_obey:
  "gw_starts cf u t \<Longrightarrow> cf_db cf \<Longrightarrow> uuid_canonical (cf_uuid cf) \<Longrightarrow> obeys cf u t s"
  by (induction rule: gw_starts.induct) (auto intro: obeys_send obeys_resend obeys_delete obeys_deleteSession
      obeys_createSession obeys_sessionAction obeys_task)

lemma gw_env_obeys:
  assumes "srv_ok cf s" "gw_env cf files chi png fmt known u s s'" "chi_lawful chi" "cf_db cf" "uuid_canonical (cf_uuid cf)"
  shows "srv_ok cf s' \<and> follows u s s'"
proof -
  have step: "gw_step cf files chi png fmt known s s'" using assms(2) by (simp add: gw_env_def)
  have "follows u s s'"
    by (rule outbox_follows [OF gw_step_outbox [OF step assms(3,4,1)]]) (use assms(2) in \<open>simp add: gw_env_def outbox_None\<close>)
  then show ?thesis using gw_step_ok [OF step assms(3,5,1)] by blast
qed

text \<open>The invariant, together with the configuration and the router it holds for.\<close>

definition sound :: "srv_cfg \<Rightarrow> chi \<Rightarrow> srv \<Rightarrow> bool" where
  "sound cf chi s \<longleftrightarrow> srv_ok cf s \<and> chi_lawful chi \<and> cf_db cf \<and> uuid_canonical (cf_uuid cf)"

lemma starts_sound:
  assumes "gw_starts cf u t"
  shows "complies (sound cf chi) (follows u) t s"
proof (cases "chi_lawful chi \<and> cf_db cf \<and> uuid_canonical (cf_uuid cf)")
  case True
  then have "sound cf chi = srv_ok cf" by (simp add: fun_eq_iff sound_def)
  then show ?thesis using gw_starts_obey [OF assms] True by simp
next
  case False
  then show ?thesis by (cases t) (auto simp: sound_def intro: complies.intros)
qed

interpretation gw_parallel: parallel "sound cf chi" "follows u" "gw_env cf files chi png fmt known u" "gw_starts cf u"
  for cf files chi png fmt known u
proof
  show "follows u s s" for s by (simp add: follows_same)
  show "sound cf chi s' \<and> follows u s s'" if "sound cf chi s" "gw_env cf files chi png fmt known u s s'" for s s'
    using that gw_env_obeys by (auto simp: sound_def)
qed (rule starts_sound)

text \<open>
  C8.  Check-then-act is safe for messages.  Let any number of requests to send, resend and delete messages and to create,
  delete, reconnect, disconnect and log out sessions, and any number of tasks, run at the same time, interleaved statement by
  statement with each other and with every other step of the gateway; and let no new message get the identifier \<open>u\<close> of an
  old one.  Then after every statement the state is sound: every message belongs to an existing session, no session is
  stored twice, and no client serves two sessions.  A message \<open>u\<close> that is queued or being processed survives the statement with its content; one that is no longer
  pending never becomes pending again; and one that is gone stays away.
\<close>

theorem concurrent_messages_safe:
  assumes "(pool_step (gw_starts cf u) (gw_env cf files chi png fmt known u))\<^sup>*\<^sup>* ([], s0) (ts, s)"
    and "pool_step (gw_starts cf u) (gw_env cf files chi png fmt known u) (ts, s) (ts', s')"
    and "srv_ok cf s0" "chi_lawful chi" "cf_db cf" "uuid_canonical (cf_uuid cf)"
  shows "srv_ok cf s'
    \<and> (\<forall>m \<in> set (msgs s'). mr_session_id m \<in> sr_session_id ` set (t_sessions (srv_db s')))
    \<and> distinct (map sr_session_id (t_sessions (srv_db s')))
    \<and> (\<forall>i j p. sm_clients (sv_mgr s') i = Some p \<longrightarrow> sm_clients (sv_mgr s') j = Some p \<longrightarrow> i = j)
    \<and> (\<forall>m \<in> set (msgs s). mr_id m = u \<longrightarrow> pending (mr_status m) \<longrightarrow>
          (\<exists>m' \<in> set (msgs s'). mr_id m' = u \<and> letter_of m' = letter_of m))
    \<and> (\<forall>m \<in> set (msgs s). \<forall>m' \<in> set (msgs s'). mr_id m = u \<longrightarrow> mr_id m' = u \<longrightarrow> pending (mr_status m') \<longrightarrow> pending (mr_status m))
    \<and> (u \<notin> mr_id ` set (msgs s) \<longrightarrow> u \<notin> mr_id ` set (msgs s'))"
proof -
  have "sound cf chi s0" using assms(3-6) by (simp add: sound_def)
  with gw_parallel.pool_steps_ok [OF assms(1)] have s: "sound cf chi s" "list_all (\<lambda>t. complies (sound cf chi) (follows u) t s) ts"
    by simp_all
  from gw_parallel.pool_step_ok [OF assms(2) s] have ok': "srv_ok cf s'" and f: "follows u s s'" by (simp_all add: sound_def)
  have d: "distinct (map mr_id (msgs s))" "distinct (map mr_id (msgs s'))"
    using srv_ok_db [of cf s] s(1) srv_ok_db [OF ok'] by (simp_all add: db_ok_defs sound_def)
  have row: "outbox_of (msgs s) u = Some (letter_of m, mr_status m)" if "m \<in> set (msgs s)" "mr_id m = u" for m
    using outbox_Some [OF d(1) that(1)] that(2) by simp
  have row': "outbox_of (msgs s') u = Some (letter_of m, mr_status m)" if "m \<in> set (msgs s')" "mr_id m = u" for m
    using outbox_Some [OF d(2) that(1)] that(2) by simp
  show ?thesis
  proof (intro conjI ballI allI impI)
    fix i j p assume "sm_clients (sv_mgr s') i = Some p" "sm_clients (sv_mgr s') j = Some p"
    then show "i = j" using srv_ok_mgrD [OF ok'] unfolding mgr_ok_def by (metis option.inject)
  next
    fix m assume "m \<in> set (msgs s)" "mr_id m = u" "pending (mr_status m)"
    with f row show "\<exists>m' \<in> set (msgs s'). mr_id m' = u \<and> letter_of m' = letter_of m"
      by (fastforce simp: follows_def split: option.splits dest: outbox_SomeD)
  next
    fix m m' assume "m \<in> set (msgs s)" "m' \<in> set (msgs s')" "mr_id m = u" "mr_id m' = u" "pending (mr_status m')"
    with f row row' show "pending (mr_status m)" by (auto simp: follows_def)
  next
    assume "u \<notin> mr_id ` set (msgs s)"
    with f show "u \<notin> mr_id ` set (msgs s')" by (simp add: follows_def flip: outbox_None)
  qed (use ok' srv_ok_db [OF ok'] in \<open>auto simp: db_ok_defs\<close>)
qed

text \<open>
  What is not safe: \<open>sessionAction\<close> reads the session and writes it back as a whole.  When \<open>deleteSession\<close> runs in between, the
  write inserts the session again, after the caller was told that it is deleted.
\<close>

lemma deleted_session_returns:
  fixes E :: "nat \<Rightarrow> ctx"
  assumes "srv_ok cf s" "cf_db cf" "GetSession (srv_store cf) (E 0) (rq_param r) s = Inr (Some v)"
    and "deleteSession cf D r p s = (write_json 200 (done_text ''Session deleted''), s1)"
    and "PutSession (srv_store cf) (E 1) (v\<lparr>s_Status := a, s_UpdatedAt := c_now (E 1)\<rparr>) s1 = (None, s2)"
  shows "\<exists>t. (pool_step (gw_starts cf u) env)\<^sup>*\<^sup>* ([], s) ([t, answer (write_json 200 (done_text ''Session deleted''))], s2)"
    and "srv_view cf s2 (rq_param r) \<noteq> None"
proof -
  let ?R = "pool_step (gw_starts cf u) env" and ?A = "sessionAction_t cf a E r" and ?D = "deleteSession_t cf D r"
  let ?rep = "write_json 200 (done_text ''Session deleted'')" and ?v = "v\<lparr>s_Status := a, s_UpdatedAt := c_now (E 1)\<rparr>"
  obtain k f where A: "?A = Call SessionQuery f" "f s = (put_session_t cf (E 1) ?v k, s)"
    using assms(3) by (auto simp: sessionAction_t_def Let_def)
  obtain g where g: "put_session_t cf (E 1) ?v k = Call SessionPut g" "g s1 = (k None, s2)"
    using assms(5) by (simp add: put_session_t_def)
  have D: "run ?D s = (Replied ?rep, s1)"
    using run_deleteSession [of cf D r s p] assms(4) by (intro replied_eq) (simp_all add: write_json_def)
  have "?R ([], s) ([] @ [?A], s)" by (intro pool_step.Start gw_starts.SessionAction)
  moreover have "?R ([?A], s) ([?A][0 := put_session_t cf (E 1) ?v k], s)"
    using A by (intro pool_step.Statement [of 0 _ SessionQuery f]) simp_all
  moreover have "?R ([put_session_t cf (E 1) ?v k], s) ([put_session_t cf (E 1) ?v k] @ [?D], s)"
    by (intro pool_step.Start gw_starts.DeleteSession)
  moreover have "?R\<^sup>*\<^sup>* ([put_session_t cf (E 1) ?v k] @ [?D], s) ([put_session_t cf (E 1) ?v k] @ [answer ?rep], s1)"
    using pool_run [of "gw_starts cf u" env "[put_session_t cf (E 1) ?v k]" ?D s] D by simp
  moreover have "?R ([put_session_t cf (E 1) ?v k, answer ?rep], s1) ([put_session_t cf (E 1) ?v k, answer ?rep][0 := k None], s2)"
    using g by (intro pool_step.Statement [of 0 _ SessionPut g]) simp_all
  ultimately have "?R\<^sup>*\<^sup>* ([], s) ([k None, answer ?rep], s2)"
    by (simp add: converse_rtranclp_into_rtranclp rtranclp.rtrancl_into_rtrancl)
  then show "\<exists>t. ?R\<^sup>*\<^sup>* ([], s) ([t, answer ?rep], s2)" by (rule exI [of _ "k None"])
  have "pg_view (srv_db s) (rq_param r) = Some v" using srv_sessions.get_view [OF assms(1,3)] assms(2) by (simp add: srv_view_def)
  then have "s_SessionID ?v = rq_param r" by (auto simp: pg_view_def session_of_row_def dest: find_SomeD split: option.splits)
  moreover have "srv_ok cf s1" using deleteSession_ok [OF assms(1), of D r p] assms(4) by simp
  ultimately show "srv_view cf s2 (rq_param r) \<noteq> None" using srv_sessions.put_view [OF _ assms(5)] by fastforce
qed

text \<open>While one caller's request to delete the queued message runs, another one without credentials tries the same.\<close>

lemma sample_delete_runs:
  "(pool_step (gw_starts sample_cfg ''m1'') (gw_env sample_cfg (\<lambda>_. None) sample_chi (\<lambda>_. Inr []) (\<lambda>_. []) (\<lambda>_. True) ''m1''))\<^sup>*\<^sup>*
     ([], sample_sent) ([answer (writeError 409 ''Message cannot be deleted while queued or processing'')], sample_sent)"
  (is "?R\<^sup>*\<^sup>* _ _")
proof -
  let ?r = "sample_request [] [] ''m1'' []"
  let ?t = "deleteMessage_t sample_cfg (\<lambda>_. sample_ctx) ?r"
  have "run ?t sample_sent = (Replied (writeError 409 ''Message cannot be deleted while queued or processing''), sample_sent)"
    by (simp add: deleteMessage_t_def query_t_def find_message_def by_uuid_def scan_row_def sample_request_def sample_sent_def
        sample_keyed_row_def message_row_of_def sample_message_def)
  then have "?R\<^sup>*\<^sup>* ([] @ [?t], sample_sent) ([] @ [answer (writeError 409 ''Message cannot be deleted while queued or processing'')], sample_sent)"
    using pool_run [of "gw_starts sample_cfg ''m1''" "gw_env sample_cfg (\<lambda>_. None) sample_chi (\<lambda>_. Inr []) (\<lambda>_. []) (\<lambda>_. True) ''m1''" "[]" ?t sample_sent]
    by simp
  moreover have "?R ([], sample_sent) ([] @ [?t], sample_sent)" by (rule pool_step.Start) (rule gw_starts.Delete)
  ultimately show ?thesis by (simp add: converse_rtranclp_into_rtranclp)
qed

theorem concurrent_messages_safe_witness:
  "\<exists>m' \<in> set (msgs sample_refused). mr_id m' = ''m1'' \<and> letter_of m' = letter_of sample_keyed_row"
proof -
  have m: "sample_keyed_row \<in> set (msgs sample_sent)" "mr_id sample_keyed_row = ''m1''" "pending (mr_status sample_keyed_row)"
    by (simp_all add: sample_sent_def sample_keyed_row_def message_row_of_def sample_message_def pending_def)
  then have "''m1'' \<in> mr_id ` set (msgs sample_sent)" by force
  then have "gw_env sample_cfg (\<lambda>_. None) sample_chi (\<lambda>_. Inr []) (\<lambda>_. []) (\<lambda>_. True) ''m1'' sample_sent sample_refused"
    using sample_run by (simp add: gw_env_def)
  then have "pool_step (gw_starts sample_cfg ''m1'') (gw_env sample_cfg (\<lambda>_. None) sample_chi (\<lambda>_. Inr []) (\<lambda>_. []) (\<lambda>_. True) ''m1'')
      (ts, sample_sent) (ts, sample_refused)" for ts by (rule pool_step.Other)
  from concurrent_messages_safe [OF sample_delete_runs this sample_sent_ok sample_chi_lawful _ sample_canonical] m
  show ?thesis by fastforce
qed

end
