(* ===== verification/Spec2Isabelle.thy ===== *)
theory Spec2Isabelle
  imports Main_Setup Http_Access Http_Template Webhook_Flow Concurrent_Send Concurrent_Gateway
begin

text \<open>
  Verification of wa-gateway-v2, an HTTP gateway that queues messages and sends them through WhatsApp.

  \<^bold>\<open>The program.\<close>  \<open>cmd/gateway/main.go\<close> reads the environment, opens and migrates the database, restores the WhatsApp
  sessions, enqueues the waiting jobs again and starts the worker and the HTTP server.  A request is routed and
  authenticated (\<open>internal/httpapi\<close>, \<open>internal/auth\<close>); \<open>sendMessage\<close> stores a message together with its job
  (\<open>internal/store\<close>) and hands a task to Redis (\<open>internal/queue\<close>).  The worker asks the limiter
  (\<open>internal/throttle\<close>) for admission, sends through the session's client (\<open>internal/whatsapp\<close>), records the outcome and
  publishes an event.  Events go to the subscribers of the dashboard and to the registered webhooks
  (\<open>internal/events\<close>, \<open>internal/webhook\<close>, \<open>internal/secret\<close>).  The clients report connection changes and receipts through
  event handlers and goroutines of the session manager.

  \<^bold>\<open>Conventions.\<close>  A Go function is a function of the state it works on and of an environment \<open>ctx\<close>: the clock, the
  faults of its successive requests, generated identifiers, answers of HTTP servers and of the WhatsApp library, the order of a
  map iteration.  Theorems quantify over the environment, so that a fault may strike at any request.  Errors are values of
  \<open>err\<close>; a panic is the error \<open>Panicked\<close>, or the reply \<open>Crash\<close> of a handler.  Go's \<open>int\<close> and \<open>time.Duration\<close> are
  integers with \<open>wrap64\<close> where the code multiplies them, a PostgreSQL \<open>integer\<close> is bounded by \<open>int4\<close>.  A table is the
  list of its rows, a statement a function on the database with the constraints of the migrations.

  \<^bold>\<open>Theories, from the bottom up.\<close>
  \<^item> \<open>Gateway_Prelude\<close>: errors, environments, strings, JSON, tables.  \<open>Db_Schema\<close>: the tables of \<open>migrations/\<close> with
    their keys, references and checks (\<open>db_ok\<close>) and the statements that keep them.
  \<^item> \<open>Store_Iface\<close>: the interface \<open>store.Store\<close> with its laws as the locales \<open>session_store\<close> and \<open>message_store\<close>, and the
    sessions and messages of \<open>internal/store/memory.go\<close>.  \<open>Memory_Store\<close> and \<open>Postgres_Store\<close> model the two stores
    and interpret the locales; \<open>PutMessage\<close> is atomic.
  \<^item> \<open>Queue_Model\<close>: \<open>internal/queue/queue.go\<close>, with the locale \<open>job_worker\<close> for what the task handler relies on.
    \<open>Throttle_Model\<close>: the limiter, its loop one iteration at a time in the order of the mutex, with \<open>now\<close> and the session's row read
    before it; compaction in place is filtering, the cap per minute while the wait for the mutex is short against the interval,
    the spacing, the pauses, and what overlapping iterations and the fixed failure window allow.  \<open>Events_Model\<close>: the broker and \<open>Multi\<close>.  \<open>Webhook_Model\<close>: deliveries.  \<open>Secret_Model\<close>: encryption.
    \<open>Auth_Model\<close>: users, tokens, API keys with their fixed rate windows.  \<open>Wa_Client\<close>: sending and the classification of errors.
    \<open>Session_Manager\<close>: clients, event handlers, QR and pairing loops, receipts, with the locale \<open>session_events\<close>; the goroutines
    of a client run statement by statement among the other goroutines (\<open>go_among\<close>).
  \<^item> \<open>World_Model\<close>: the parts on one state; a store is carried to a larger state by the locales \<open>session_lens\<close> and
    \<open>message_lens\<close>, and the worker and the event handlers are interpreted on the gateway's own definitions.
  \<^item> \<open>Http_Base\<close>, \<open>Http_Messages\<close>, \<open>Http_Template\<close>, \<open>Http_Sessions\<close>, \<open>Http_Account\<close>, \<open>Http_Config\<close>, \<open>Http_Reports\<close>: every handler of
    \<open>internal/httpapi/server.go\<close>, one definition each.  \<open>Http_Router\<close>: the route table, \<open>requireAuth\<close> in front of
    it, and the pages of \<open>internal/landing\<close> and \<open>internal/admin\<close>.  \<open>Http_Access\<close>: credentials end to end.
    \<open>Webhook_Flow\<close>: a webhook's secret from the request that sets it to the signature of a delivery.
    \<open>Http_Total\<close>: every route keeps the invariant \<open>srv_ok\<close> and answers well-formedly.  \<open>Http_Frame\<close>: what the routes do to the messages.
  \<^item> \<open>Outbox_Spec\<close>: the abstract specification, an outbox of letters.  \<open>Gateway_System\<close>: the running gateway as the step relation
    \<open>gw_step\<close> of requests, tasks, events, goroutines, restarts and stream readers; its reachable states are
    sound and its steps refine those of the outbox.  \<open>Delivery_Liveness\<close>: the limiter admits, the recovery finds
    every waiting job, its task sends the message.
  \<^item> \<open>Thread_Model\<close>: programs cut into atomic statements, a pool that interleaves any number of them with an environment, and the
    rely/guarantee locale \<open>parallel\<close>.  \<open>Http_Threads\<close> and \<open>Session_Threads\<close>: \<open>sendMessage\<close>, \<open>resendMessage\<close>, \<open>deleteMessage\<close>,
    \<open>createSession\<close>, \<open>sessionAction\<close>, \<open>deleteSession\<close> and the task handler as such threads, equal to the handlers when run alone.  \<open>Concurrent_Send\<close>: racing requests with one idempotency key
    store one message.  \<open>Concurrent_Gateway\<close>: the locale interpreted on these threads with the steps of \<open>gw_step\<close> as their
    environment; no interleaving loses a pending message or revives a settled one, while a deleted session can return.
  \<^item> \<open>Migrate_Model\<close>: \<open>internal/database/postgres.go\<close>.  \<open>Main_Setup\<close>: the constructors of the server, the start of the program, which
    runs the migrations and establishes the assumptions of the theorems above, and the order in which it stops its parts.

  \<^bold>\<open>Bounds and loops.\<close>  Every definition is total and executable.  The loop of \<open>Limiter.Wait\<close>, which may run for ever,
  consumes a sequence of observations and gives \<open>None\<close> when it is still waiting at its end; \<open>wait_admits\<close> says which
  sequences are long enough.  The pairing loop has the code's bound of five attempts.  The recovery reads at most 1000
  jobs, as the query does.  The cap per minute needs the time from an iteration's \<open>now\<close> to its decision to be at most half of the
  configured interval; \<open>updateThrottle\<close> takes no interval below 100 ms, so 50 ms are enough.  A request runs at most nine statements, a task six beside two for each iteration of the limiter
  (\<open>threads_are_handlers\<close>); a pool has any number of threads, more than the ten tasks asynq runs at a time.

  \<^bold>\<open>Parameters.\<close>  Third-party code is an argument: chi's matching (\<open>chi_lawful\<close>), the JWT library (\<open>jwt_lawful\<close>), bcrypt,
  SHA-256, HMAC, AES-GCM (\<open>cipher_lawful\<close>), the parsers of IP addresses and URLs, \<open>uuid\<close> input of PostgreSQL
  (\<open>uuid_canonical\<close>), the effect of a migration script (\<open>scripts_sound\<close>), case folding, \<open>ILIKE\<close>, date arithmetic, and the answers of whatsmeow.  A theorem
  names what it relies on, and its witness instantiates it.

  \<^bold>\<open>Not modelled.\<close>  A step of \<open>gw_step\<close> runs a handler to its end.  The requests and tasks that change messages, and those that change sessions, are also
  interleaved statement by statement (\<open>Concurrent_Send\<close>, \<open>Concurrent_Gateway\<close>), the limiter iteration by iteration, the goroutines of
  a client between their checks of the current client and their writes; the statements of the other handlers are not.  Parsing and printing of JSON text
  and of HTTP, TLS and dial time-outs, listening and signals, asynq's scheduling of retries and logging are left to their
  libraries.

  \<^bold>\<open>Idealisations.\<close>  An error of \<open>COMMIT\<close> means that the transaction was not committed; a commit whose acknowledgement is lost is
  not considered (\<open>pg_PutMessage\<close>, \<open>Migrate\<close>, \<open>RecordFailure\<close>).  A query without \<open>ORDER BY\<close> gives the rows in the order of insertion
  (\<open>pg_GetMessageByWAID\<close>).  An error of a cursor is seen after its last row, not between two rows (\<open>dispatch_rows\<close>).
  A signed token is refused under every other key (\<open>jwt_lawful\<close>), which disregards that HMAC pads short keys with zero bytes.
  The effect of the scripts under \<open>migrations/\<close> on the data is a parameter of \<open>migrate_loop\<close>; the schema they define is \<open>Db_Schema\<close>.
  The response writer of an event stream is a \<open>http.Flusher\<close>, as that of \<open>net/http\<close> is, so \<open>sseEvents\<close> has no branch for another.
\<close>

end
